theory Spec2Isabelle
  imports Complex_Main "HOL-Library.AList"
begin

section \<open>The 3decision API client: data model\<close>

text \<open>
  The client of \<^verbatim>\<open>api_client.py\<close> talks JSON over HTTP. A decoded JSON value is what
  Python's \<^verbatim>\<open>response.json()\<close> returns: \<^verbatim>\<open>None\<close>, a bool, a number (int or
  float, kept by numeric value), a str, a list or a dict. A dict is an association list;
  a lookup takes the first pair of a key.
\<close>

datatype json =
    JNull
  | JBool bool
  | JNum rat
  | JStr string
  | JList "json list"
  | JObj "(string \<times> json) list"

text \<open>The exceptions the modelled code can raise.\<close>

datatype exn =
    NetworkError
  | JSONDecodeError
  | AttributeError
  | TypeError
  | ValueError
  | KeyError
  | IndexError
  | BadZipFile
  | UnicodeDecodeError
  | Exn string

text \<open>Python truthiness (\<^verbatim>\<open>if x:\<close>, \<^verbatim>\<open>bool(x)\<close>) of a decoded value.\<close>

fun truthy :: "json \<Rightarrow> bool" where
  "truthy JNull = False"
| "truthy (JBool b) = b"
| "truthy (JNum r) = (r \<noteq> 0)"
| "truthy (JStr s) = (s \<noteq> [])"
| "truthy (JList xs) = (xs \<noteq> [])"
| "truthy (JObj kv) = (kv \<noteq> [])"

text \<open>\<^verbatim>\<open>d.get(k)\<close> and \<^verbatim>\<open>d.get(k, default)\<close>: only a dict has \<^verbatim>\<open>get\<close>.\<close>

fun py_get_default :: "json \<Rightarrow> string \<Rightarrow> json \<Rightarrow> exn + json" where
  "py_get_default (JObj kv) k d = (case map_of kv k of None \<Rightarrow> Inr d | Some v \<Rightarrow> Inr v)"
| "py_get_default _ k d = Inl AttributeError"

definition py_get :: "json \<Rightarrow> string \<Rightarrow> exn + json" where
  "py_get j k = py_get_default j k JNull"

text \<open>
  \<^verbatim>\<open>k in x\<close> for a string \<^verbatim>\<open>k\<close>: key membership in a dict, element membership in a
  list, substring test in a str, and a TypeError on \<^verbatim>\<open>None\<close>, bools and numbers.
\<close>

fun is_infix :: "string \<Rightarrow> string \<Rightarrow> bool" where
  "is_infix k [] = (k = [])"
| "is_infix k (c # cs) = (take (length k) (c # cs) = k \<or> is_infix k cs)"

fun py_in :: "string \<Rightarrow> json \<Rightarrow> exn + bool" where
  "py_in k (JObj kv) = Inr (map_of kv k \<noteq> None)"
| "py_in k (JList xs) = Inr (JStr k \<in> set xs)"
| "py_in k (JStr s) = Inr (is_infix k s)"
| "py_in k _ = Inl TypeError"

text \<open>\<^verbatim>\<open>x[k]\<close> for a string key: a dict lookup; every other decoded value raises.\<close>

fun py_index_key :: "json \<Rightarrow> string \<Rightarrow> exn + json" where
  "py_index_key (JObj kv) k = (case map_of kv k of None \<Rightarrow> Inl KeyError | Some v \<Rightarrow> Inr v)"
| "py_index_key (JList xs) k = Inl TypeError"
| "py_index_key (JStr s) k = Inl TypeError"
| "py_index_key _ k = Inl TypeError"

subsection \<open>HTTP\<close>

text \<open>
  The value of an \<^verbatim>\<open>Authorization\<close> header is always \<^verbatim>\<open>f'Bearer {token}'\<close>; it is kept
  as the token it was formatted from. A request records what reaches the server: method,
  URL, the effective \<^verbatim>\<open>Authorization\<close> and \<^verbatim>\<open>Dng-Api-Key\<close> headers (the per-request
  header if given, the session's otherwise), the JSON payload and the query parameters.
  The constant headers (\<^verbatim>\<open>X-API-Version\<close>, \<^verbatim>\<open>User-Agent\<close>, \<^verbatim>\<open>Accept\<close>,
  \<^verbatim>\<open>Content-Type\<close>) decide nothing in the client and are left out.
\<close>

datatype auth = Bearer json

text \<open>
  A URL or a dict key built by an f-string is kept as its parts, a literal or a formatted
  value, so that nothing is assumed of how \<^verbatim>\<open>str()\<close> prints a value.
\<close>

datatype part = S string | V json

type_synonym fstring = "part list"

datatype meth = GET | POST | OtherMethod string

record request =
  req_method :: meth
  req_url :: fstring
  req_auth :: "auth option"
  req_api_key :: "string option"
  req_json :: "json option"
  req_params :: "(string \<times> json) list"

text \<open>
  A response: status code, \<^verbatim>\<open>response.text\<close>, \<^verbatim>\<open>response.content\<close> and the result of
  \<^verbatim>\<open>response.json()\<close>, \<open>None\<close> when decoding raises.
\<close>

record response =
  status_code :: int
  resp_text :: string
  resp_content :: string
  resp_json :: "json option"

text \<open>
  \<^verbatim>\<open>session.get\<close>/\<^verbatim>\<open>session.post\<close> either return a response or raise (connection
  refused, timeout, ...). The server is any function from the number of requests this
  client has sent before and the request to a reply.
\<close>

datatype reply = NetError | Reply response

type_synonym server = "nat \<Rightarrow> request \<Rightarrow> reply"

text \<open>
  The client object: \<^verbatim>\<open>base_url\<close>, \<^verbatim>\<open>api_key\<close>, \<^verbatim>\<open>token\<close>, the two session headers
  that change (\<^verbatim>\<open>Authorization\<close>, \<^verbatim>\<open>Dng-Api-Key\<close>), and two observations of its
  effects: the requests sent so far, oldest first, and the seconds spent in
  \<^verbatim>\<open>time.sleep\<close>. Writing the config file (\<^verbatim>\<open>save_config\<close>) catches its own errors and
  changes nothing of the client; it is left out.
\<close>

record client =
  base_url :: "string option"
  api_key :: "string option"
  token :: json
  session_auth :: "auth option"
  session_api_key :: "string option"
  sent :: "request list"
  slept :: nat

definition truthy_str :: "string option \<Rightarrow> bool" where
  "truthy_str s = (case s of None \<Rightarrow> False | Some t \<Rightarrow> t \<noteq> [])"

text \<open>An f-string field \<^verbatim>\<open>{self.base_url}\<close>.\<close>

definition fstr :: "string option \<Rightarrow> string" where
  "fstr s = (case s of None \<Rightarrow> ''None'' | Some t \<Rightarrow> t)"

definition send :: "server \<Rightarrow> request \<Rightarrow> client \<Rightarrow> reply \<times> client" where
  "send srv rq c = (srv (length (sent c)) rq, c\<lparr>sent := sent c @ [rq]\<rparr>)"

text \<open>The request \<^verbatim>\<open>session.get(url, headers=...)\<close> or \<^verbatim>\<open>session.post(...)\<close> builds.\<close>

definition mk_request ::
  "client \<Rightarrow> meth \<Rightarrow> fstring \<Rightarrow> auth option \<Rightarrow> string option \<Rightarrow> json option
     \<Rightarrow> (string \<times> json) list \<Rightarrow> request" where
  "mk_request c m url hauth hkey payload params =
     \<lparr> req_method = m, req_url = url,
       req_auth = (case hauth of Some a \<Rightarrow> Some a | None \<Rightarrow> session_auth c),
       req_api_key = (case hkey of Some k \<Rightarrow> Some k | None \<Rightarrow> session_api_key c),
       req_json = payload, req_params = params \<rparr>"

section \<open>Session and transport\<close>

definition is_configured :: "client \<Rightarrow> bool" where
  "is_configured c = (truthy_str (base_url c) \<and> truthy_str (api_key c))"

definition login_url :: "client \<Rightarrow> fstring" where
  "login_url c = [S (fstr (base_url c)), S ''/auth/api/login'']"

definition login_request :: "client \<Rightarrow> request" where
  "login_request c = mk_request c GET (login_url c) None (api_key c) None []"

text \<open>
  \<^verbatim>\<open>login\<close>: every exception of the body is caught and gives \<^verbatim>\<open>False\<close>. The token is
  assigned from \<^verbatim>\<open>data.get('access_token')\<close> before it is tested.
\<close>

definition login :: "server \<Rightarrow> client \<Rightarrow> bool \<times> client" where
  "login srv c =
     (if \<not> is_configured c then (False, c)
      else case send srv (login_request c) c of
        (NetError, c1) \<Rightarrow> (False, c1)
      | (Reply r, c1) \<Rightarrow>
          if status_code r = 200 \<or> status_code r = 201 then
            (case resp_json r of
               None \<Rightarrow> (False, c1)
             | Some data \<Rightarrow>
                 (case py_get data ''access_token'' of
                    Inl e \<Rightarrow> (False, c1)
                  | Inr t \<Rightarrow>
                      if truthy t
                      then (True, c1\<lparr>token := t, session_auth := Some (Bearer t),
                                     session_api_key := None\<rparr>)
                      else (False, c1\<lparr>token := t\<rparr>)))
          else (False, c1))"

definition test_connection :: "server \<Rightarrow> client \<Rightarrow> bool \<times> client" where
  "test_connection srv c =
     (if \<not> is_configured c then (False, c)
      else if truthy (token c) \<and> session_auth c \<noteq> None then (True, c)
      else login srv c)"

definition is_authenticated :: "server \<Rightarrow> client \<Rightarrow> bool \<times> client" where
  "is_authenticated srv c =
     (if is_configured c then test_connection srv c else (False, c))"

text \<open>
  \<^verbatim>\<open>_request_with_retry\<close>. \<open>hauth\<close> is the \<^verbatim>\<open>Authorization\<close> entry of the caller's
  \<^verbatim>\<open>headers\<close> dict, if any. The result is the returned response or \<^verbatim>\<open>None\<close>, or the
  exception a \<^verbatim>\<open>session\<close> call raised.
\<close>

definition lift_reply :: "reply \<times> client \<Rightarrow> (exn + response option) \<times> client" where
  "lift_reply rc = (case rc of (NetError, c) \<Rightarrow> (Inl NetworkError, c)
                            | (Reply r, c) \<Rightarrow> (Inr (Some r), c))"

definition first_request ::
  "client \<Rightarrow> meth \<Rightarrow> fstring \<Rightarrow> auth option \<Rightarrow> json option \<Rightarrow> (string \<times> json) list
     \<Rightarrow> request" where
  "first_request c m url hauth json_data params =
     mk_request c m url
       (if hauth = None \<and> truthy (token c) then Some (Bearer (token c)) else hauth)
       None (if m = POST then json_data else None) params"

definition retry_request ::
  "client \<Rightarrow> meth \<Rightarrow> fstring \<Rightarrow> json option \<Rightarrow> (string \<times> json) list \<Rightarrow> request" where
  "retry_request c m url json_data params =
     mk_request c m url (Some (Bearer (token c))) None
       (if m = POST then json_data else None) params"

definition clear_token :: "client \<Rightarrow> client" where
  "clear_token c = c\<lparr>token := JNull, session_auth := None\<rparr>"

definition request_with_retry ::
  "server \<Rightarrow> meth \<Rightarrow> fstring \<Rightarrow> auth option \<Rightarrow> json option \<Rightarrow> (string \<times> json) list
     \<Rightarrow> client \<Rightarrow> (exn + response option) \<times> client" where
  "request_with_retry srv m url hauth json_data params c =
     (case m of
        OtherMethod s \<Rightarrow> (Inr None, c)
      | _ \<Rightarrow>
        (case send srv (first_request c m url hauth json_data params) c of
           (NetError, c1) \<Rightarrow> (Inl NetworkError, c1)
         | (Reply r, c1) \<Rightarrow>
             if status_code r = 401 \<or> status_code r = 403 then
               (case login srv (clear_token c1) of
                  (True, c2) \<Rightarrow> lift_reply (send srv (retry_request c2 m url json_data params) c2)
                | (False, c2) \<Rightarrow> (Inr None, c2))
             else (Inr (Some r), c1)))"

section \<open>Python operations on decoded values\<close>

text \<open>\<^verbatim>\<open>xs[i:j]\<close> for \<open>i \<le> j\<close> within or beyond the list.\<close>

definition slice :: "'a list \<Rightarrow> nat \<Rightarrow> nat \<Rightarrow> 'a list" where
  "slice xs i j = take (j - i) (drop i xs)"

text \<open>\<^verbatim>\<open>len(x)\<close>: lists, strs and dicts have a length; the rest raise TypeError.\<close>

fun py_len :: "json \<Rightarrow> exn + nat" where
  "py_len (JList xs) = Inr (length xs)"
| "py_len (JStr s) = Inr (length s)"
| "py_len (JObj kv) = Inr (length (remdups (map fst kv)))"
| "py_len _ = Inl TypeError"

text \<open>\<^verbatim>\<open>x[i:j]\<close>: lists and strs can be sliced; a dict and the scalars raise.\<close>

fun py_slice :: "json \<Rightarrow> nat \<Rightarrow> nat \<Rightarrow> exn + json" where
  "py_slice (JList xs) i j = Inr (JList (slice xs i j))"
| "py_slice (JStr s) i j = Inr (JStr (slice s i j))"
| "py_slice _ i j = Inl TypeError"

text \<open>
  \<^verbatim>\<open>for x in v\<close>: the elements of a list, the characters of a str, the keys of a dict;
  the scalars are not iterable.
\<close>

fun py_iter :: "json \<Rightarrow> exn + json list" where
  "py_iter (JList xs) = Inr xs"
| "py_iter (JStr s) = Inr (map (\<lambda>ch. JStr [ch]) s)"
| "py_iter (JObj kv) = Inr (map JStr (remdups (map fst kv)))"
| "py_iter _ = Inl TypeError"

text \<open>\<^verbatim>\<open>x[0]\<close>.\<close>

fun py_index0 :: "json \<Rightarrow> exn + json" where
  "py_index0 (JList []) = Inl IndexError"
| "py_index0 (JList (x # xs)) = Inr x"
| "py_index0 (JStr []) = Inl IndexError"
| "py_index0 (JStr (ch # s)) = Inr (JStr [ch])"
| "py_index0 (JObj kv) = Inl KeyError"
| "py_index0 _ = Inl TypeError"

text \<open>
  Hashing for \<^verbatim>\<open>set\<close> membership: \<^verbatim>\<open>None\<close>, bools, numbers and strs are hashable, bools
  and numbers compare by value (\<^verbatim>\<open>True == 1\<close>); lists and dicts raise TypeError.
\<close>

datatype pykey = KNone | KNum rat | KStr string

fun py_key :: "json \<Rightarrow> pykey option" where
  "py_key JNull = Some KNone"
| "py_key (JBool b) = Some (KNum (if b then 1 else 0))"
| "py_key (JNum r) = Some (KNum r)"
| "py_key (JStr s) = Some (KStr s)"
| "py_key (JList xs) = None"
| "py_key (JObj kv) = None"

text \<open>
  The numeric value of a bool or number, for \<^verbatim>\<open>==\<close> and \<^verbatim>\<open>>\<close> against an int literal.
  \<^verbatim>\<open>x == 100\<close> is false on every other value; \<^verbatim>\<open>x > 0\<close> raises TypeError on them.
\<close>

fun py_num :: "json \<Rightarrow> rat option" where
  "py_num (JBool b) = Some (if b then 1 else 0)"
| "py_num (JNum r) = Some r"
| "py_num _ = None"

definition py_eq_int :: "json \<Rightarrow> int \<Rightarrow> bool" where
  "py_eq_int x k = (py_num x = Some (of_int k))"

definition py_gt_int :: "json \<Rightarrow> int \<Rightarrow> exn + bool" where
  "py_gt_int x k = (case py_num x of None \<Rightarrow> Inl TypeError | Some r \<Rightarrow> Inr (of_int k < r))"

text \<open>
  Strings are lists of code points below 256. \<^verbatim>\<open>str.lower\<close> maps \<^verbatim>\<open>A\<close>-\<^verbatim>\<open>Z\<close> and the
  Latin-1 capitals to their small letters.
\<close>

definition lower_char :: "char \<Rightarrow> char" where
  "lower_char ch =
     (let n = (of_char ch :: nat)
      in if (65 \<le> n \<and> n \<le> 90) \<or> (192 \<le> n \<and> n \<le> 222 \<and> n \<noteq> 215)
         then char_of (n + 32) else ch)"

definition str_lower :: "string \<Rightarrow> string" where
  "str_lower s = map lower_char s"

text \<open>\<^verbatim>\<open>x.lower()\<close> on a decoded value: only a str has the method.\<close>

fun py_lower :: "json \<Rightarrow> exn + string" where
  "py_lower (JStr s) = Inr (str_lower s)"
| "py_lower _ = Inl AttributeError"

text \<open>\<^verbatim>\<open>s.endswith(suffix)\<close> and the last field of \<^verbatim>\<open>s.split('/')\<close>.\<close>

definition endswith :: "string \<Rightarrow> string \<Rightarrow> bool" where
  "endswith s suffix = (length suffix \<le> length s \<and> drop (length s - length suffix) s = suffix)"

definition split_last :: "char \<Rightarrow> string \<Rightarrow> string" where
  "split_last sep s = rev (takeWhile (\<lambda>ch. ch \<noteq> sep) (rev s))"

text \<open>\<^verbatim>\<open>s.rsplit('.', 1)[0]\<close> for a string that contains the separator.\<close>

definition rsplit_head :: "char \<Rightarrow> string \<Rightarrow> string" where
  "rsplit_head sep s = rev (tl (dropWhile (\<lambda>ch. ch \<noteq> sep) (rev s)))"

text \<open>\<^verbatim>\<open>s.strip()\<close>: the whitespace code points below 256.\<close>

definition is_space :: "char \<Rightarrow> bool" where
  "is_space ch =
     (let n = (of_char ch :: nat)
      in (9 \<le> n \<and> n \<le> 13) \<or> (28 \<le> n \<and> n \<le> 32) \<or> n = 133 \<or> n = 160)"

definition str_strip :: "string \<Rightarrow> string" where
  "str_strip s = rev (dropWhile is_space (rev (dropWhile is_space s)))"

text \<open>
  \<^verbatim>\<open>d.get(k1) or d.get(k2) or ...\<close>: \<^verbatim>\<open>a or b\<close> is \<^verbatim>\<open>a\<close> when \<^verbatim>\<open>a\<close> is truthy, and
  \<^verbatim>\<open>b\<close> is not evaluated then; the last operand is the value when none is truthy.
\<close>

definition get_or :: "json \<Rightarrow> string list \<Rightarrow> exn + json" where
  "get_or d keys =
     foldl (\<lambda>acc k. case acc of
                      Inl e \<Rightarrow> Inl e
                    | Inr v \<Rightarrow> if truthy v then Inr v else py_get d k)
           (Inr JNull) keys"


section \<open>Structure info resolver\<close>

text \<open>
  The loop of \<^verbatim>\<open>_fetch_structures_batch\<close> that removes duplicates: an entry is kept when
  its \<^verbatim>\<open>structure_id\<close> is truthy and not seen before. \<^verbatim>\<open>structure.get\<close> raises on an
  entry that is no dict, and the set membership raises on an unhashable id.
\<close>

fun unique_structures :: "json list \<Rightarrow> pykey set \<Rightarrow> json list \<Rightarrow> exn + json list" where
  "unique_structures [] seen_ids acc = Inr acc"
| "unique_structures (structure # rest) seen_ids acc =
     (case py_get structure ''structure_id'' of
        Inl e \<Rightarrow> Inl e
      | Inr structure_id \<Rightarrow>
          if truthy structure_id then
            (case py_key structure_id of
               None \<Rightarrow> Inl TypeError
             | Some k \<Rightarrow>
                 if k \<notin> seen_ids
                 then unique_structures rest (insert k seen_ids) (acc @ [structure])
                 else unique_structures rest seen_ids acc)
          else unique_structures rest seen_ids acc)"

text \<open>What the body does with the decoded GraphQL response.\<close>

definition batch_results :: "json \<Rightarrow> exn + json list" where
  "batch_results data =
     (case py_in ''data'' data of
        Inl e \<Rightarrow> Inl e
      | Inr False \<Rightarrow> Inr []
      | Inr True \<Rightarrow>
          (case py_index_key data ''data'' of
             Inl e \<Rightarrow> Inl e
           | Inr d \<Rightarrow>
               (case py_in ''getStructuresInfo'' d of
                  Inl e \<Rightarrow> Inl e
                | Inr False \<Rightarrow> Inr []
                | Inr True \<Rightarrow>
                    (case py_index_key d ''getStructuresInfo'' of
                       Inl e \<Rightarrow> Inl e
                     | Inr rs \<Rightarrow>
                         (case py_iter rs of
                            Inl e \<Rightarrow> Inl e
                          | Inr entries \<Rightarrow> unique_structures entries {} [])))))"

text \<open>The query text, with its line breaks and indentation written as single spaces.\<close>

definition graphql_query :: string where
  "graphql_query = ''query GetStructuresInfo($ids: [Int!]!) { getStructuresInfo(ids: $ids) { structure_id general { structure_id external_code title method resolution created_date imported_date created_by imported_by source } } }''"

definition graphql_payload :: "json \<Rightarrow> json" where
  "graphql_payload structure_ids =
     JObj [(''query'', JStr graphql_query), (''variables'', JObj [(''ids'', structure_ids)])]"

definition graphql_url :: "client \<Rightarrow> fstring" where
  "graphql_url c = [S (fstr (base_url c)), S ''/graphql'']"

definition ok_status :: "response \<Rightarrow> bool" where
  "ok_status r = (status_code r = 200 \<or> status_code r = 201)"

text \<open>
  \<^verbatim>\<open>_fetch_structures_batch\<close>: every exception of the body gives \<^verbatim>\<open>[]\<close>. The length of
  the ids is taken for the log line before the request is sent.
\<close>

definition fetch_structures_batch :: "server \<Rightarrow> json \<Rightarrow> client \<Rightarrow> json list \<times> client" where
  "fetch_structures_batch srv structure_ids c =
     (case py_len structure_ids of
        Inl e \<Rightarrow> ([], c)
      | Inr n \<Rightarrow>
          (case request_with_retry srv POST (graphql_url c) None
                  (Some (graphql_payload structure_ids)) [] c of
             (Inl e, c1) \<Rightarrow> ([], c1)
           | (Inr None, c1) \<Rightarrow> ([], c1)
           | (Inr (Some r), c1) \<Rightarrow>
               if ok_status r then
                 (case resp_json r of
                    None \<Rightarrow> ([], c1)
                  | Some data \<Rightarrow>
                      (case batch_results data of
                         Inl e \<Rightarrow> ([], c1)
                       | Inr unique \<Rightarrow> (unique, c1)))
               else ([], c1)))"

text \<open>
  The loop \<^verbatim>\<open>for i in range(0, len(structure_ids), batch_size)\<close> of
  \<^verbatim>\<open>get_structures_info\<close>; an exception of the slice leaves the loop with \<^verbatim>\<open>[]\<close>.
\<close>

definition batch_size :: nat where
  "batch_size = 500"

function batch_loop ::
  "server \<Rightarrow> json \<Rightarrow> nat \<Rightarrow> nat \<Rightarrow> json list \<Rightarrow> client \<Rightarrow> json list \<times> client" where
  "batch_loop srv structure_ids n i all_structures c =
     (if i < n then
        (case py_slice structure_ids i (i + batch_size) of
           Inl e \<Rightarrow> ([], c)
         | Inr batch_ids \<Rightarrow>
             (case fetch_structures_batch srv batch_ids c of
                (batch_structures, c1) \<Rightarrow>
                  batch_loop srv structure_ids n (i + batch_size)
                    (if batch_structures \<noteq> [] then all_structures @ batch_structures
                     else all_structures) c1))
      else (all_structures, c))"
  by pat_completeness auto
termination
  by (relation "measure (\<lambda>(srv, structure_ids, n, i, all_structures, c). n - i)")
     (auto simp add: batch_size_def)

declare batch_loop.simps [simp del]

definition get_structures_info :: "server \<Rightarrow> json \<Rightarrow> client \<Rightarrow> json list \<times> client" where
  "get_structures_info srv structure_ids c =
     (case test_connection srv c of
        (False, c1) \<Rightarrow> ([], c1)
      | (True, c1) \<Rightarrow>
          (case py_len structure_ids of
             Inl e \<Rightarrow> ([], c1)
           | Inr n \<Rightarrow>
               if n > batch_size then batch_loop srv structure_ids n 0 [] c1
               else fetch_structures_batch srv structure_ids c1))"

subsection \<open>Notions used to state the resolver's properties\<close>

text \<open>
  The key under which the duplicate filter remembers an entry: the hash key of its
  \<^verbatim>\<open>structure_id\<close>, when the entry is a dict whose \<^verbatim>\<open>structure_id\<close> is truthy and hashable.
\<close>

definition sid_key :: "json \<Rightarrow> pykey option" where
  "sid_key s =
     (case py_get s ''structure_id'' of
        Inl e \<Rightarrow> None
      | Inr v \<Rightarrow> if truthy v then py_key v else None)"

text \<open>
  The consecutive chunks of \<open>batch_size\<close> ids from position \<open>i\<close> on, as the spec words
  them: chunk \<open>k\<close> is the slice that starts \<open>k * batch_size\<close> further.
\<close>

definition chunks_from :: "'a list \<Rightarrow> nat \<Rightarrow> 'a list list" where
  "chunks_from xs i =
     map (\<lambda>k. slice xs (i + k * batch_size) (i + k * batch_size + batch_size))
       [0..<(length xs - i + batch_size - 1) div batch_size]"

definition chunks :: "'a list \<Rightarrow> 'a list list" where
  "chunks xs = chunks_from xs 0"

text \<open>One call of \<^verbatim>\<open>_fetch_structures_batch\<close> per chunk, in order; the results side by side.\<close>

fun fetch_chunks :: "server \<Rightarrow> json list list \<Rightarrow> client \<Rightarrow> json list list \<times> client" where
  "fetch_chunks srv [] c = ([], c)"
| "fetch_chunks srv (ch # chs) c =
     (case fetch_structures_batch srv (JList ch) c of
        (r, c1) \<Rightarrow> (case fetch_chunks srv chs c1 of (rs, c2) \<Rightarrow> (r # rs, c2)))"

text \<open>
  A server that answers a GraphQL query for a list of ids with records of those ids
  only.
\<close>

definition answers_requested :: "server \<Rightarrow> bool" where
  "answers_requested srv =
     (\<forall>i rq ids r data u.
        req_json rq = Some (graphql_payload (JList ids)) \<longrightarrow> srv i rq = Reply r \<longrightarrow>
        resp_json r = Some data \<longrightarrow> batch_results data = Inr u \<longrightarrow>
        sid_key ` set u \<subseteq> py_key ` set ids)"

text \<open>
  The requests one call of the transport puts on the wire for a POST of a payload: the
  request itself, then at most one login, then at most one repetition of the request.
\<close>

definition is_post :: "fstring \<Rightarrow> json \<Rightarrow> request \<Rightarrow> bool" where
  "is_post u payload rq = (req_method rq = POST \<and> req_url rq = u \<and> req_json rq = Some payload)"

definition is_login :: "fstring \<Rightarrow> request \<Rightarrow> bool" where
  "is_login lu rq = (req_method rq = GET \<and> req_url rq = lu \<and> req_json rq = None)"

definition transport_segment :: "fstring \<Rightarrow> fstring \<Rightarrow> json \<Rightarrow> request list \<Rightarrow> bool" where
  "transport_segment u lu payload seg =
     (case seg of
        [] \<Rightarrow> False
      | rq # rest \<Rightarrow>
          is_post u payload rq \<and>
          (case rest of
             [] \<Rightarrow> True
           | l # rest1 \<Rightarrow>
               is_login lu l \<and>
               (case rest1 of [] \<Rightarrow> True | r # rest2 \<Rightarrow> is_post u payload r \<and> rest2 = [])))"

text \<open>The requests of the GraphQL call for one chunk of ids, and the call's first request.\<close>

definition chunk_segment :: "client \<Rightarrow> request list \<Rightarrow> json list \<Rightarrow> bool" where
  "chunk_segment c seg ch =
     transport_segment (graphql_url c) (login_url c) (graphql_payload (JList ch)) seg"

definition graphql_request :: "client \<Rightarrow> json list \<Rightarrow> request" where
  "graphql_request c ch =
     first_request c POST (graphql_url c) None (Some (graphql_payload (JList ch))) []"

text \<open>A server that never answers 401 or 403.\<close>

definition never_unauthorized :: "server \<Rightarrow> bool" where
  "never_unauthorized srv =
     (\<forall>n rq. case srv n rq of NetError \<Rightarrow> True
                           | Reply r \<Rightarrow> status_code r \<noteq> 401 \<and> status_code r \<noteq> 403)"

section \<open>The dialog: project list and transforms\<close>

text \<open>
  The loop of \<^verbatim>\<open>load_projects_for_tab\<close> that filters the list \<^verbatim>\<open>get_projects\<close> returned.
  \<^verbatim>\<open>project.get(..., '').lower()\<close> raises on a project that is no dict and on a label or
  name that is no str.
\<close>

fun filter_projects :: "json list \<Rightarrow> json list \<Rightarrow> exn + json list" where
  "filter_projects [] filtered_projects = Inr filtered_projects"
| "filter_projects (project # rest) filtered_projects =
     (case py_get_default project ''project_label'' (JStr []) of
        Inl e \<Rightarrow> Inl e
      | Inr l \<Rightarrow>
          (case py_lower l of
             Inl e \<Rightarrow> Inl e
           | Inr project_label \<Rightarrow>
               (case py_get_default project ''project_name'' (JStr []) of
                  Inl e \<Rightarrow> Inl e
                | Inr n \<Rightarrow>
                    (case py_lower n of
                       Inl e \<Rightarrow> Inl e
                     | Inr project_name \<Rightarrow>
                         if project_label \<noteq> ''3decision'' \<and> project_name \<noteq> ''3decision''
                         then filter_projects rest (filtered_projects @ [project])
                         else filter_projects rest filtered_projects))))"

text \<open>
  To state what the filter keeps: the text of a field of a project (the empty string
  when the field is absent), and the projects the filter takes for the system project.
\<close>

definition text_field :: "json \<Rightarrow> string \<Rightarrow> string option" where
  "text_field p k =
     (case py_get_default p k (JStr []) of Inr (JStr s) \<Rightarrow> Some s | _ \<Rightarrow> None)"

definition well_formed_project :: "json \<Rightarrow> bool" where
  "well_formed_project p =
     (text_field p ''project_label'' \<noteq> None \<and> text_field p ''project_name'' \<noteq> None)"

definition is_system_project :: "json \<Rightarrow> bool" where
  "is_system_project p =
     (map_option str_lower (text_field p ''project_label'') = Some ''3decision'' \<or>
      map_option str_lower (text_field p ''project_name'') = Some ''3decision'')"

text \<open>
  \<^verbatim>\<open>load_project_structures_in_tab\<close>: the matrix made of a \<^verbatim>\<open>transform\<close> value,
  \<^verbatim>\<open>None\<close> unless it is a list of 16 values. The merge that uses it follows the client
  operations below.
\<close>

definition reshape_transform :: "json \<Rightarrow> json" where
  "reshape_transform transform =
     (case transform of
        JList t \<Rightarrow>
          if t \<noteq> [] \<and> length t = 16
          then JList [JList (slice t 0 4), JList (slice t 4 8),
                      JList (slice t 8 12), JList (slice t 12 16)]
          else JNull
      | _ \<Rightarrow> JNull)"

text \<open>
  \<^verbatim>\<open>LoadStructureThread.run\<close>: the 16 values sent as \<^verbatim>\<open>transform\<close> for a structure whose
  \<^verbatim>\<open>matrix\<close> is the given value; the identity when the matrix is missing or malformed.
\<close>

definition identity_matrix :: "json list" where
  "identity_matrix = map JNum [1, 0, 0, 0,  0, 1, 0, 0,  0, 0, 1, 0,  0, 0, 0, 1]"

fun flatten_rows :: "json list \<Rightarrow> json list \<Rightarrow> json list option" where
  "flatten_rows [] flat_matrix = Some flat_matrix"
| "flatten_rows (row # rows) flat_matrix =
     (case row of
        JList r \<Rightarrow> if length r = 4 then flatten_rows rows (flat_matrix @ r) else None
      | _ \<Rightarrow> None)"

definition export_transform :: "json \<Rightarrow> json list" where
  "export_transform matrix =
     (if truthy matrix then
        (case matrix of
           JList rows \<Rightarrow>
             if length rows = 4 then
               (case flatten_rows rows [] of
                  Some flat_matrix \<Rightarrow>
                    if flat_matrix \<noteq> [] \<and> length flat_matrix = 16 then flat_matrix
                    else identity_matrix
                | None \<Rightarrow> identity_matrix)
             else identity_matrix
         | _ \<Rightarrow> identity_matrix)
      else identity_matrix)"

section \<open>Search jobs\<close>

text \<open>
  A body of a \<^verbatim>\<open>try\<close> block yields a value or the exception it raised, with the client
  as it was at that point. \<^verbatim>\<open>except Exception: return default\<close> turns every exception
  into the default.
\<close>

definition except_return :: "'a \<Rightarrow> (exn + 'a) \<times> client \<Rightarrow> (exn + 'a) \<times> client" where
  "except_return d rc = (case rc of (Inl e, c) \<Rightarrow> (Inr d, c) | (Inr v, c) \<Rightarrow> (Inr v, c))"

text \<open>\<^verbatim>\<open>d[k] = v\<close> on a dict: the value of an existing key is replaced in place.\<close>

definition dict_set :: "json \<Rightarrow> string \<Rightarrow> json \<Rightarrow> exn + json" where
  "dict_set d k v = (case d of JObj kv \<Rightarrow> Inr (JObj (AList.update k v kv)) | _ \<Rightarrow> Inl TypeError)"

text \<open>
  The ids read off a job: \<^verbatim>\<open>[]\<close> unless the job has a \<^verbatim>\<open>returnvalue\<close> that has a
  \<^verbatim>\<open>STRUCTURE_ID\<close>. Both \<^verbatim>\<open>submit_search\<close> and \<^verbatim>\<open>SearchThread.run\<close> start from \<^verbatim>\<open>[]\<close>.
\<close>

definition extract_structure_ids :: "json \<Rightarrow> exn + json" where
  "extract_structure_ids d =
     (case py_in ''returnvalue'' d of
        Inl e \<Rightarrow> Inl e
      | Inr False \<Rightarrow> Inr (JList [])
      | Inr True \<Rightarrow>
          (case py_index_key d ''returnvalue'' of
             Inl e \<Rightarrow> Inl e
           | Inr rv \<Rightarrow>
               (case py_in ''STRUCTURE_ID'' rv of
                  Inl e \<Rightarrow> Inl e
                | Inr False \<Rightarrow> Inr (JList [])
                | Inr True \<Rightarrow> py_index_key rv ''STRUCTURE_ID'')))"

definition job_url :: "client \<Rightarrow> json \<Rightarrow> json \<Rightarrow> fstring" where
  "job_url c queue_name job_id =
     [S (fstr (base_url c)), S ''/queues/'', V queue_name, S ''/jobs/'', V job_id]"

text \<open>\<^verbatim>\<open>get_job_status\<close>.\<close>

definition get_job_status_body ::
  "server \<Rightarrow> json \<Rightarrow> json \<Rightarrow> client \<Rightarrow> (exn + json option) \<times> client" where
  "get_job_status_body srv queue_name job_id c =
     (case request_with_retry srv GET (job_url c queue_name job_id) None None [] c of
        (Inl e, c1) \<Rightarrow> (Inl e, c1)
      | (Inr None, c1) \<Rightarrow> (Inr None, c1)
      | (Inr (Some r), c1) \<Rightarrow>
          if ok_status r then
            (case resp_json r of
               None \<Rightarrow> (Inl JSONDecodeError, c1)
             | Some data \<Rightarrow> (Inr (Some data), c1))
          else (Inr None, c1))"

definition get_job_status ::
  "server \<Rightarrow> json \<Rightarrow> json \<Rightarrow> client \<Rightarrow> (exn + json option) \<times> client" where
  "get_job_status srv queue_name job_id c =
     (case test_connection srv c of
        (False, c1) \<Rightarrow> (Inr None, c1)
      | (True, c1) \<Rightarrow> except_return None (get_job_status_body srv queue_name job_id c1))"

text \<open>
  \<^verbatim>\<open>submit_search\<close>: what is done with the decoded queue response, then with the decoded
  search response, then the whole operation.
\<close>

definition search_queue_result ::
  "server \<Rightarrow> json \<Rightarrow> json \<Rightarrow> client \<Rightarrow> (exn + json option) \<times> client" where
  "search_queue_result srv job_id queue_data c =
     (case py_get queue_data ''progress'' of
        Inl e \<Rightarrow> (Inl e, c)
      | Inr p \<Rightarrow>
          (let progress = (if p = JNull then JNum 0 else p) in
           if py_eq_int progress 100 then
             (case extract_structure_ids queue_data of
                Inl e \<Rightarrow> (Inl e, c)
              | Inr structure_ids \<Rightarrow>
                  if truthy structure_ids then
                    (case get_structures_info srv structure_ids c of
                       (structures_info, c1) \<Rightarrow>
                         (case dict_set queue_data ''structures_info'' (JList structures_info) of
                            Inl e \<Rightarrow> (Inl e, c1)
                          | Inr d \<Rightarrow> (Inr (Some d), c1)))
                  else
                    (case dict_set queue_data ''structures_info'' (JList []) of
                       Inl e \<Rightarrow> (Inl e, c)
                     | Inr d \<Rightarrow> (Inr (Some d), c)))
           else
             (Inr (Some (JObj [(''id'', job_id), (''queue'', JStr ''basicSearch''),
                               (''status'', JStr ''running''), (''progress'', progress),
                               (''polling_needed'', JBool True)])), c)))"

definition submit_search_body ::
  "server \<Rightarrow> string \<Rightarrow> client \<Rightarrow> (exn + json option) \<times> client" where
  "submit_search_body srv query c =
     (case request_with_retry srv GET [S (fstr (base_url c)), S ''/search/'', S query]
             None None [] c of
        (Inl e, c1) \<Rightarrow> (Inl e, c1)
      | (Inr None, c1) \<Rightarrow> (Inr None, c1)
      | (Inr (Some r), c1) \<Rightarrow>
          if ok_status r then
            (case resp_json r of
               None \<Rightarrow> (Inr None, c1)
             | Some data \<Rightarrow>
                 (case py_get data ''id'' of
                    Inl e \<Rightarrow> (Inl e, c1)
                  | Inr job_id \<Rightarrow>
                      if truthy job_id then
                        (case request_with_retry srv GET
                                (job_url c1 (JStr ''basicSearch'') job_id) None None [] c1 of
                           (Inl e, c2) \<Rightarrow> (Inl e, c2)
                         | (Inr None, c2) \<Rightarrow> (Inr None, c2)
                         | (Inr (Some qr), c2) \<Rightarrow>
                             if ok_status qr then
                               (case resp_json qr of
                                  None \<Rightarrow> (Inr None, c2)
                                | Some queue_data \<Rightarrow>
                                    search_queue_result srv job_id queue_data c2)
                             else (Inr None, c2))
                      else
                        (Inr (Some (JObj [(''id'', JStr ''direct''), (''queue'', JStr ''direct''),
                                          (''status'', JStr ''completed''), (''result'', data)])),
                         c1)))
          else (Inr None, c1))"

definition submit_search :: "server \<Rightarrow> string \<Rightarrow> client \<Rightarrow> (exn + json option) \<times> client" where
  "submit_search srv query c =
     (case test_connection srv c of
        (False, c1) \<Rightarrow> (Inr None, c1)
      | (True, c1) \<Rightarrow> except_return None (submit_search_body srv query c1))"

subsection \<open>The search thread of the dialog\<close>

text \<open>
  What \<^verbatim>\<open>SearchThread.run\<close> emits at its end: \<^verbatim>\<open>results_ready\<close> with a list,
  \<^verbatim>\<open>error_occurred\<close> with a message, or nothing. The \<^verbatim>\<open>status_update\<close> messages decide
  nothing and are left out.
\<close>

datatype signal = ResultsReady "json list" | ErrorOccurred string | NoSignal

text \<open>
  One poll response in the loop of \<^verbatim>\<open>run\<close>: stop with the ids read off it, stop because
  the job failed, or poll again. The condition is
  \<^verbatim>\<open>progress == 100 or (isinstance(structure_ids, list) and len(structure_ids) == 0 and progress > 0)\<close>,
  evaluated left to right.
\<close>

datatype decision = Finish json | JobFailed | PollAgain

definition is_empty_list :: "json \<Rightarrow> bool" where
  "is_empty_list j = (case j of JList xs \<Rightarrow> xs = [] | _ \<Rightarrow> False)"

definition poll_decision :: "json \<Rightarrow> exn + decision" where
  "poll_decision result =
     (case py_get_default result ''progress'' (JNum 0) of
        Inl e \<Rightarrow> Inl e
      | Inr progress \<Rightarrow>
          (case extract_structure_ids result of
             Inl e \<Rightarrow> Inl e
           | Inr structure_ids \<Rightarrow>
               (case (if py_eq_int progress 100 then Inr True
                      else if is_empty_list structure_ids then py_gt_int progress 0
                      else Inr False) of
                  Inl e \<Rightarrow> Inl e
                | Inr True \<Rightarrow> Inr (Finish structure_ids)
                | Inr False \<Rightarrow>
                    (case py_get result ''status'' of
                       Inl e \<Rightarrow> Inl e
                     | Inr st \<Rightarrow> Inr (if st = JStr ''failed'' then JobFailed else PollAgain)))))"

text \<open>The results emitted for the ids of a finished job.\<close>

definition emit_results :: "server \<Rightarrow> json \<Rightarrow> client \<Rightarrow> signal \<times> client" where
  "emit_results srv structure_ids c =
     (if truthy structure_ids then
        (case get_structures_info srv structure_ids c of
           (structures, c1) \<Rightarrow> (ResultsReady structures, c1))
      else (ResultsReady [], c))"

definition max_attempts_search :: nat where
  "max_attempts_search = 60"

definition msleep2 :: "client \<Rightarrow> client" where
  "msleep2 c = c\<lparr>slept := slept c + 2\<rparr>"

function search_poll :: "server \<Rightarrow> json \<Rightarrow> json \<Rightarrow> nat \<Rightarrow> client \<Rightarrow> signal \<times> client" where
  "search_poll srv queue_name job_id attempt c =
     (if attempt < max_attempts_search then
        (case get_job_status srv queue_name job_id c of
           (Inl e, c1) \<Rightarrow> search_poll srv queue_name job_id (attempt + 1) (msleep2 c1)
         | (Inr None, c1) \<Rightarrow> search_poll srv queue_name job_id (attempt + 1) (msleep2 c1)
         | (Inr (Some result), c1) \<Rightarrow>
             if truthy result then
               (case poll_decision result of
                  Inl e \<Rightarrow> search_poll srv queue_name job_id (attempt + 1) (msleep2 c1)
                | Inr (Finish structure_ids) \<Rightarrow> emit_results srv structure_ids c1
                | Inr JobFailed \<Rightarrow> (ErrorOccurred ''Search job failed'', c1)
                | Inr PollAgain \<Rightarrow> search_poll srv queue_name job_id (attempt + 1) (msleep2 c1))
             else search_poll srv queue_name job_id (attempt + 1) (msleep2 c1))
      else (ErrorOccurred ''Search timed out waiting for completion'', c))"
  by pat_completeness auto
termination
  by (relation "measure (\<lambda>(srv, queue_name, job_id, attempt, c). max_attempts_search - attempt)")
     auto

declare search_poll.simps [simp del]

text \<open>
  The older loop at the end of \<^verbatim>\<open>run\<close>, for a job that reports \<^verbatim>\<open>status\<close> and
  \<^verbatim>\<open>result\<close>.
\<close>

definition legacy_decision :: "json \<Rightarrow> exn + decision" where
  "legacy_decision result =
     (if truthy result then
        (case py_get result ''status'' of
           Inl e \<Rightarrow> Inl e
         | Inr st \<Rightarrow>
             if st = JStr ''completed'' then
               (case py_get_default result ''result'' (JList []) of
                  Inl e \<Rightarrow> Inl e
                | Inr structure_ids \<Rightarrow> Inr (Finish structure_ids))
             else Inr (if st = JStr ''failed'' then JobFailed else PollAgain))
      else Inr PollAgain)"

definition max_attempts_legacy :: nat where
  "max_attempts_legacy = 30"

function legacy_poll :: "server \<Rightarrow> json \<Rightarrow> json \<Rightarrow> nat \<Rightarrow> client \<Rightarrow> signal \<times> client" where
  "legacy_poll srv queue_name job_id attempt c =
     (if attempt < max_attempts_legacy then
        (case get_job_status srv queue_name job_id c of
           (Inl e, c1) \<Rightarrow> legacy_poll srv queue_name job_id (attempt + 1) (msleep2 c1)
         | (Inr result, c1) \<Rightarrow>
             (case legacy_decision (case result of None \<Rightarrow> JNull | Some d \<Rightarrow> d) of
                Inl e \<Rightarrow> legacy_poll srv queue_name job_id (attempt + 1) (msleep2 c1)
              | Inr (Finish structure_ids) \<Rightarrow> emit_results srv structure_ids c1
              | Inr JobFailed \<Rightarrow> (ErrorOccurred ''Search job failed'', c1)
              | Inr PollAgain \<Rightarrow> legacy_poll srv queue_name job_id (attempt + 1) (msleep2 c1)))
      else (ErrorOccurred ''Search timed out'', c))"
  by pat_completeness auto
termination
  by (relation "measure (\<lambda>(srv, queue_name, job_id, attempt, c). max_attempts_legacy - attempt)")
     auto

declare legacy_poll.simps [simp del]

text \<open>
  \<^verbatim>\<open>SearchThread.run\<close> after \<^verbatim>\<open>submit_search\<close> returned a truthy \<^verbatim>\<open>job_response\<close>. An
  exception that reaches the outer handler is reported as \<^verbatim>\<open>Search error\<close>; the
  \<^verbatim>\<open>results_ready\<close> signal carries a list and raises on anything else.
\<close>

definition run_dispatch :: "server \<Rightarrow> json \<Rightarrow> client \<Rightarrow> (exn + signal) \<times> client" where
  "run_dispatch srv job_response c =
     (case py_in ''structures_info'' job_response of
        Inl e \<Rightarrow> (Inl e, c)
      | Inr True \<Rightarrow>
          (case py_index_key job_response ''structures_info'' of
             Inl e \<Rightarrow> (Inl e, c)
           | Inr (JList structures) \<Rightarrow> (Inr (ResultsReady structures), c)
           | Inr _ \<Rightarrow> (Inl TypeError, c))
      | Inr False \<Rightarrow>
          (case py_get job_response ''polling_needed'' of
             Inl e \<Rightarrow> (Inl e, c)
           | Inr polling_needed \<Rightarrow>
               (case py_get job_response ''id'' of
                  Inl e \<Rightarrow> (Inl e, c)
                | Inr job_id \<Rightarrow>
                    (case py_get_default job_response ''queue'' (JStr ''basicSearch'') of
                       Inl e \<Rightarrow> (Inl e, c)
                     | Inr queue_name \<Rightarrow>
                         if \<not> truthy job_id
                         then (Inr (ErrorOccurred ''No job ID received from search''), c)
                         else if truthy polling_needed then
                           (case search_poll srv queue_name job_id 0 c of
                              (s, c1) \<Rightarrow> (Inr s, c1))
                         else
                           (case py_get job_response ''status'' of
                              Inl e \<Rightarrow> (Inl e, c)
                            | Inr st \<Rightarrow>
                                if st = JStr ''completed'' then
                                  (case py_get_default job_response ''result'' (JList []) of
                                     Inl e \<Rightarrow> (Inl e, c)
                                   | Inr structure_ids \<Rightarrow>
                                       (case emit_results srv structure_ids c of
                                          (s, c1) \<Rightarrow> (Inr s, c1)))
                                else if job_id = JStr ''direct'' then (Inr NoSignal, c)
                                else
                                  (case legacy_poll srv queue_name job_id 0 c of
                                     (s, c1) \<Rightarrow> (Inr s, c1)))))))"

definition run :: "server \<Rightarrow> string \<Rightarrow> client \<Rightarrow> signal \<times> client" where
  "run srv search_query c =
     (case submit_search srv search_query c of
        (Inl e, c1) \<Rightarrow> (ErrorOccurred ''Search error'', c1)
      | (Inr None, c1) \<Rightarrow> (ErrorOccurred ''Failed to submit search'', c1)
      | (Inr (Some job_response), c1) \<Rightarrow>
          if \<not> truthy job_response then (ErrorOccurred ''Failed to submit search'', c1)
          else
            (case run_dispatch srv job_response c1 of
               (Inl e, c2) \<Rightarrow> (ErrorOccurred ''Search error'', c2)
             | (Inr s, c2) \<Rightarrow> (s, c2)))"

section \<open>Exports\<close>

text \<open>
  \<^verbatim>\<open>int(x)\<close>: a number is truncated towards zero; a str is stripped and read as an
  optional sign and decimal digits, single underscores allowed between digits.
\<close>

definition is_digit :: "char \<Rightarrow> bool" where
  "is_digit ch = (48 \<le> (of_char ch :: nat) \<and> (of_char ch :: nat) \<le> 57)"

fun parse_digits :: "string \<Rightarrow> bool \<Rightarrow> nat \<Rightarrow> nat option" where
  "parse_digits [] after_digit acc = (if after_digit then Some acc else None)"
| "parse_digits (ch # cs) after_digit acc =
     (if is_digit ch then parse_digits cs True (10 * acc + (of_char ch - 48))
      else if ch = CHR ''_'' \<and> after_digit then parse_digits cs False acc
      else None)"

definition parse_int :: "string \<Rightarrow> exn + int" where
  "parse_int s =
     (case str_strip s of
        [] \<Rightarrow> Inl ValueError
      | ch # cs \<Rightarrow>
          if ch = CHR ''-'' then
            (case parse_digits cs False 0 of None \<Rightarrow> Inl ValueError | Some n \<Rightarrow> Inr (- int n))
          else if ch = CHR ''+'' then
            (case parse_digits cs False 0 of None \<Rightarrow> Inl ValueError | Some n \<Rightarrow> Inr (int n))
          else
            (case parse_digits (ch # cs) False 0 of None \<Rightarrow> Inl ValueError | Some n \<Rightarrow> Inr (int n)))"

fun py_int :: "json \<Rightarrow> exn + int" where
  "py_int (JNum r) = Inr (if 0 \<le> r then \<lfloor>r\<rfloor> else \<lceil>r\<rceil>)"
| "py_int (JBool b) = Inr (if b then 1 else 0)"
| "py_int (JStr s) = parse_int s"
| "py_int _ = Inl TypeError"

subsection \<open>Reading a domain event\<close>

text \<open>
  \<^verbatim>\<open>content = domain_data.get('content', {})\<close>, \<^verbatim>\<open>errors = content.get('errors', {})\<close>,
  \<^verbatim>\<open>not_exported = errors.get('not_exported', [])\<close>: the content and the list of
  structures that were not exported.
\<close>

definition export_errors :: "json \<Rightarrow> exn + json \<times> json" where
  "export_errors domain_data =
     (case py_get_default domain_data ''content'' (JObj []) of
        Inl e \<Rightarrow> Inl e
      | Inr content \<Rightarrow>
          (case py_get_default content ''errors'' (JObj []) of
             Inl e \<Rightarrow> Inl e
           | Inr errors \<Rightarrow>
               (case py_get_default errors ''not_exported'' (JList []) of
                  Inl e \<Rightarrow> Inl e
                | Inr not_exported \<Rightarrow> Inr (content, not_exported))))"

text \<open>\<^verbatim>\<open>filename.rsplit('.', 1)[0]\<close> when \<^verbatim>\<open>'.' in filename\<close>.\<close>

definition strip_extension :: "json \<Rightarrow> exn + json" where
  "strip_extension filename =
     (case py_in ''.'' filename of
        Inl e \<Rightarrow> Inl e
      | Inr False \<Rightarrow> Inr filename
      | Inr True \<Rightarrow>
          (case filename of
             JStr s \<Rightarrow> Inr (JStr (rsplit_head CHR ''.'' s))
           | _ \<Rightarrow> Inl AttributeError))"

text \<open>
  The file name for the download, without its extension, read off the first entry of
  \<^verbatim>\<open>content['file_names']\<close>; \<open>None\<close> where the code returns \<^verbatim>\<open>None\<close>.
\<close>

definition export_file_name :: "json \<Rightarrow> exn + json option" where
  "export_file_name content =
     (case py_get_default content ''file_names'' (JList []) of
        Inl e \<Rightarrow> Inl e
      | Inr file_names \<Rightarrow>
          if truthy file_names then
            (case py_len file_names of
               Inl e \<Rightarrow> Inl e
             | Inr n \<Rightarrow>
                 if 0 < n then
                   (case py_index0 file_names of
                      Inl e \<Rightarrow> Inl e
                    | Inr first_file \<Rightarrow>
                        (case first_file of
                           JObj kv \<Rightarrow>
                             (case py_get first_file ''file_name'' of
                                Inl e \<Rightarrow> Inl e
                              | Inr filename \<Rightarrow>
                                  if \<not> truthy filename then Inr None
                                  else
                                    (case strip_extension filename of
                                       Inl e \<Rightarrow> Inl e
                                     | Inr filename_without_ext \<Rightarrow> Inr (Some filename_without_ext)))
                         | _ \<Rightarrow> Inr None))
                 else Inr None)
          else Inr None)"

definition export_url :: "client \<Rightarrow> fstring" where
  "export_url c = [S (fstr (base_url c)), S ''/exports/structure'']"

definition domain_events_url :: "client \<Rightarrow> string \<Rightarrow> fstring" where
  "domain_events_url c domain_event_id =
     [S (fstr (base_url c)), S ''/domain-events/'', S domain_event_id]"

definition download_url :: "client \<Rightarrow> string \<Rightarrow> json \<Rightarrow> fstring" where
  "download_url c domain_event_id filename_without_ext =
     [S (fstr (base_url c)), S ''/exports/structure/'', S domain_event_id,
      S ''?filename='', V filename_without_ext, S ''&download=true'']"

subsection \<open>Single export and ZIP export\<close>

text \<open>
  \<^verbatim>\<open>export_structure_pdb\<close> and \<^verbatim>\<open>download_structures_zip\<close> handle a domain event in
  state \<^verbatim>\<open>success\<close> in the same way, up to what they return of the download:
  \<^verbatim>\<open>response.text\<close> or \<^verbatim>\<open>response.content\<close> (the test of the \<^verbatim>\<open>PK\<close> signature only
  chooses a log line).
\<close>

definition export_success ::
  "server \<Rightarrow> (response \<Rightarrow> string) \<Rightarrow> string \<Rightarrow> json \<Rightarrow> client \<Rightarrow> (exn + string option) \<times> client" where
  "export_success srv payload_of domain_event_id domain_data c =
     (case export_errors domain_data of
        Inl e \<Rightarrow> (Inl e, c)
      | Inr (content, not_exported) \<Rightarrow>
          if truthy not_exported then
            (case py_index0 not_exported of
               Inl e \<Rightarrow> (Inl e, c)
             | Inr err \<Rightarrow>
                 (case py_get_default err ''error_message'' (JStr ''Unknown export error'') of
                    Inl e \<Rightarrow> (Inl e, c)
                  | Inr error_msg \<Rightarrow> (Inr None, c)))
          else
            (case export_file_name content of
               Inl e \<Rightarrow> (Inl e, c)
             | Inr None \<Rightarrow> (Inr None, c)
             | Inr (Some filename_without_ext) \<Rightarrow>
                 (case request_with_retry srv GET
                         (download_url c domain_event_id filename_without_ext) None None [] c of
                    (Inl e, c1) \<Rightarrow> (Inl e, c1)
                  | (Inr None, c1) \<Rightarrow> (Inr None, c1)
                  | (Inr (Some r), c1) \<Rightarrow>
                      if ok_status r then (Inr (Some (payload_of r)), c1)
                      else (Inr None, c1))))"

definition max_attempts :: nat where
  "max_attempts = 30"

definition sleep2 :: "client \<Rightarrow> client" where
  "sleep2 c = c\<lparr>slept := slept c + 2\<rparr>"

text \<open>
  The polling loop of both operations. A response that does not decode gives \<^verbatim>\<open>None\<close>
  (\<^verbatim>\<open>except json.JSONDecodeError\<close>); any other exception leaves the loop.
\<close>

function export_poll ::
  "server \<Rightarrow> (response \<Rightarrow> string) \<Rightarrow> string \<Rightarrow> fstring \<Rightarrow> nat \<Rightarrow> client
     \<Rightarrow> (exn + string option) \<times> client" where
  "export_poll srv payload_of domain_event_id poll_url attempt c =
     (if attempt < max_attempts then
        (case request_with_retry srv GET poll_url None None [] c of
           (Inl e, c1) \<Rightarrow> (Inl e, c1)
         | (Inr None, c1) \<Rightarrow> (Inr None, c1)
         | (Inr (Some r), c1) \<Rightarrow>
             if ok_status r then
               (case resp_json r of
                  None \<Rightarrow> (Inr None, c1)
                | Some domain_data \<Rightarrow>
                    (case py_get domain_data ''state'' of
                       Inl e \<Rightarrow> (Inl e, c1)
                     | Inr state \<Rightarrow>
                         if state = JStr ''success''
                         then export_success srv payload_of domain_event_id domain_data c1
                         else if state = JStr ''failed'' then (Inr None, c1)
                         else export_poll srv payload_of domain_event_id poll_url
                                (attempt + 1) (sleep2 c1)))
             else (Inr None, c1))
      else (Inr None, c))"
  by pat_completeness auto
termination
  by (relation "measure (\<lambda>(srv, payload_of, domain_event_id, poll_url, attempt, c).
                           max_attempts - attempt)")
     auto

declare export_poll.simps [simp del]

text \<open>What both operations do with the response to the export request.\<close>

definition export_submitted ::
  "server \<Rightarrow> (response \<Rightarrow> string) \<Rightarrow> (exn + response option) \<times> client
     \<Rightarrow> (exn + string option) \<times> client" where
  "export_submitted srv payload_of rc =
     (case rc of
        (Inl e, c1) \<Rightarrow> (Inl e, c1)
      | (Inr None, c1) \<Rightarrow> (Inr None, c1)
      | (Inr (Some r), c1) \<Rightarrow>
          if ok_status r then
            (let domain_event_id = str_strip (resp_text r) in
             if domain_event_id \<noteq> []
             then export_poll srv payload_of domain_event_id
                    (domain_events_url c1 domain_event_id) 0 c1
             else (Inr None, c1))
          else (Inr None, c1))"

definition export_structure_pdb_body ::
  "server \<Rightarrow> json \<Rightarrow> client \<Rightarrow> (exn + string option) \<times> client" where
  "export_structure_pdb_body srv structure_id c =
     (case py_int structure_id of
        Inl e \<Rightarrow> (Inl e, c)
      | Inr n \<Rightarrow>
          export_submitted srv resp_text
            (request_with_retry srv POST (export_url c) None
               (Some (JObj [(''structures_id'', JList [JNum (of_int n)])]))
               [(''output_format'', JStr ''structures-pdb-txt'')] c))"

definition export_structure_pdb ::
  "server \<Rightarrow> json \<Rightarrow> client \<Rightarrow> (exn + string option) \<times> client" where
  "export_structure_pdb srv structure_id c =
     (case test_connection srv c of
        (False, c1) \<Rightarrow> (Inr None, c1)
      | (True, c1) \<Rightarrow> except_return None (export_structure_pdb_body srv structure_id c1))"

text \<open>
  \<^verbatim>\<open>download_structures_zip\<close>: the test of \<^verbatim>\<open>is_authenticated\<close> stands before the
  \<^verbatim>\<open>try\<close>, and its exception reaches the caller.
\<close>

definition zip_payload :: "json \<Rightarrow> json \<Rightarrow> json" where
  "zip_payload structure_ids matrices =
     JObj ((''structures_id'', structure_ids) #
           (if truthy matrices then [(''matrix'', matrices)] else []))"

definition download_structures_zip_body ::
  "server \<Rightarrow> json \<Rightarrow> json \<Rightarrow> client \<Rightarrow> (exn + string option) \<times> client" where
  "download_structures_zip_body srv structure_ids matrices c =
     export_submitted srv resp_content
       (request_with_retry srv POST (export_url c) (Some (Bearer (token c)))
          (Some (zip_payload structure_ids matrices))
          [(''output_format'', JStr ''structures-pdb-zip'')] c)"

definition download_structures_zip ::
  "server \<Rightarrow> json \<Rightarrow> json \<Rightarrow> client \<Rightarrow> (exn + string option) \<times> client" where
  "download_structures_zip srv structure_ids matrices c =
     (case is_authenticated srv c of
        (False, c1) \<Rightarrow> (Inl (Exn ''Not authenticated''), c1)
      | (True, c1) \<Rightarrow>
          except_return None (download_structures_zip_body srv structure_ids matrices c1))"

subsection \<open>Export with transforms\<close>

text \<open>
  A list comprehension over the requests: the first element that raises ends it.
\<close>

fun map_exn :: "('a \<Rightarrow> exn + 'b) \<Rightarrow> 'a list \<Rightarrow> exn + 'b list" where
  "map_exn f [] = Inr []"
| "map_exn f (x # xs) =
     (case f x of
        Inl e \<Rightarrow> Inl e
      | Inr y \<Rightarrow> (case map_exn f xs of Inl e \<Rightarrow> Inl e | Inr ys \<Rightarrow> Inr (y # ys)))"

definition matrix_entry :: "json \<Rightarrow> exn + json" where
  "matrix_entry item =
     (case py_index_key item ''external_code'' of
        Inl e \<Rightarrow> Inl e
      | Inr external_code \<Rightarrow>
          (case py_index_key item ''structure_id'' of
             Inl e \<Rightarrow> Inl e
           | Inr structure_id \<Rightarrow>
               (case py_index_key item ''transform'' of
                  Inl e \<Rightarrow> Inl e
                | Inr transform \<Rightarrow>
                    Inr (JObj [(''external_code'', external_code),
                               (''structure_id'', structure_id),
                               (''transform'', transform)]))))"

text \<open>
  The ZIP archive is read by Python's \<^verbatim>\<open>zipfile\<close> and decoded by \<^verbatim>\<open>bytes.decode\<close>, which
  are no code of this repository: opening the bytes gives the names of the entries, in
  order, and a function reading the entry of a name, or raises; decoding gives text or
  raises. Both are parameters of the model.
\<close>

record archive =
  namelist :: "string list"
  zread :: "string \<Rightarrow> exn + string"

type_synonym unzip = "string \<Rightarrow> exn + archive"

type_synonym decoder = "string \<Rightarrow> exn + string"

text \<open>The returned dict, from file name to PDB text, in insertion order.\<close>

type_synonym pdb_files = "(fstring \<times> string) list"

fun extract_entries :: "archive \<Rightarrow> decoder \<Rightarrow> string list \<Rightarrow> pdb_files \<Rightarrow> exn + pdb_files" where
  "extract_entries ar decode [] pdb_files_dict = Inr pdb_files_dict"
| "extract_entries ar decode (pdb_filename # rest) pdb_files_dict =
     (case zread ar pdb_filename of
        Inl e \<Rightarrow> Inl e
      | Inr raw \<Rightarrow>
          (case decode raw of
             Inl e \<Rightarrow> Inl e
           | Inr pdb_content \<Rightarrow>
               extract_entries ar decode rest
                 (AList.update [S (split_last CHR ''/'' pdb_filename)] pdb_content
                    pdb_files_dict)))"

definition pdb_names :: "archive \<Rightarrow> string list" where
  "pdb_names ar = filter (\<lambda>f. endswith f ''.pdb'') (namelist ar)"

definition extract_pdb_files :: "unzip \<Rightarrow> decoder \<Rightarrow> string \<Rightarrow> pdb_files option" where
  "extract_pdb_files open_zip decode zip_content =
     (case open_zip zip_content of
        Inl e \<Rightarrow> None
      | Inr ar \<Rightarrow>
          (case extract_entries ar decode (pdb_names ar) [] of
             Inl e \<Rightarrow> None
           | Inr pdb_files_dict \<Rightarrow>
               if pdb_files_dict \<noteq> [] then Some pdb_files_dict else None))"

text \<open>
  The single-structure path. One poll response with a success status: the body of the
  inner \<^verbatim>\<open>try\<close>, which returns from the operation or falls through to the next
  attempt. The download must have status 200.
\<close>

datatype 'a step = Return 'a | Continue

definition batch_step ::
  "server \<Rightarrow> json list \<Rightarrow> string \<Rightarrow> response \<Rightarrow> client
     \<Rightarrow> (exn + pdb_files option step) \<times> client" where
  "batch_step srv items domain_event_id r c =
     (case resp_json r of
        None \<Rightarrow> (Inl JSONDecodeError, c)
      | Some domain_data \<Rightarrow>
          (case py_get domain_data ''state'' of
             Inl e \<Rightarrow> (Inl e, c)
           | Inr state \<Rightarrow>
               if state = JStr ''success'' then
                 (case export_errors domain_data of
                    Inl e \<Rightarrow> (Inl e, c)
                  | Inr (content, not_exported) \<Rightarrow>
                      if truthy not_exported then (Inr (Return None), c)
                      else
                        (case export_file_name content of
                           Inl e \<Rightarrow> (Inl e, c)
                         | Inr None \<Rightarrow> (Inr (Return None), c)
                         | Inr (Some filename_without_ext) \<Rightarrow>
                             (case request_with_retry srv GET
                                     (download_url c domain_event_id filename_without_ext)
                                     None None [] c of
                                (Inl e, c1) \<Rightarrow> (Inl e, c1)
                              | (Inr None, c1) \<Rightarrow> (Inr (Return None), c1)
                              | (Inr (Some dr), c1) \<Rightarrow>
                                  if status_code dr = 200 then
                                    (case py_index0 (JList items) of
                                       Inl e \<Rightarrow> (Inl e, c1)
                                     | Inr item \<Rightarrow>
                                         (case py_index_key item ''external_code'' of
                                            Inl e \<Rightarrow> (Inl e, c1)
                                          | Inr external_code \<Rightarrow>
                                              (Inr (Return (Some [([V external_code, S ''.pdb''],
                                                                   resp_text dr)])), c1)))
                                  else (Inr (Return None), c1))))
               else if state = JStr ''failed'' then (Inr (Return None), c)
               else (Inr Continue, c)))"

text \<open>
  Its polling loop: a response with another status, and any exception of the inner
  \<^verbatim>\<open>try\<close>, lead to the next attempt; the loop sleeps unless the attempts are used up.
\<close>

definition next_attempt :: "nat \<Rightarrow> client \<Rightarrow> client" where
  "next_attempt attempt c = (if attempt + 1 < max_attempts then sleep2 c else c)"

function batch_poll ::
  "server \<Rightarrow> json list \<Rightarrow> string \<Rightarrow> fstring \<Rightarrow> nat \<Rightarrow> client
     \<Rightarrow> (exn + pdb_files option) \<times> client" where
  "batch_poll srv items domain_event_id poll_url attempt c =
     (if attempt < max_attempts then
        (case request_with_retry srv GET poll_url None None [] c of
           (Inl e, c1) \<Rightarrow> (Inl e, c1)
         | (Inr None, c1) \<Rightarrow> (Inr None, c1)
         | (Inr (Some r), c1) \<Rightarrow>
             (case (if ok_status r then batch_step srv items domain_event_id r c1
                    else (Inr Continue, c1)) of
                (Inr (Return v), c2) \<Rightarrow> (Inr v, c2)
              | (Inr Continue, c2) \<Rightarrow>
                  batch_poll srv items domain_event_id poll_url (attempt + 1)
                    (next_attempt attempt c2)
              | (Inl e, c2) \<Rightarrow>
                  batch_poll srv items domain_event_id poll_url (attempt + 1)
                    (next_attempt attempt c2)))
      else (Inr None, c))"
  by pat_completeness auto
termination
  by (relation "measure (\<lambda>(srv, items, domain_event_id, poll_url, attempt, c).
                           max_attempts - attempt)")
     auto

declare batch_poll.simps [simp del]

definition single_payload :: "json list \<Rightarrow> exn + json" where
  "single_payload items =
     (case map_exn (\<lambda>item. py_index_key item ''external_code'') items of
        Inl e \<Rightarrow> Inl e
      | Inr external_codes \<Rightarrow>
          (case map_exn matrix_entry items of
             Inl e \<Rightarrow> Inl e
           | Inr matrix \<Rightarrow>
               Inr (JObj [(''external_codes'', JList external_codes),
                          (''matrix'', JList matrix)])))"

definition export_single ::
  "server \<Rightarrow> json list \<Rightarrow> client \<Rightarrow> (exn + pdb_files option) \<times> client" where
  "export_single srv items c =
     (case single_payload items of
        Inl e \<Rightarrow> (Inl e, c)
      | Inr matrix_payload \<Rightarrow>
          (case request_with_retry srv POST (export_url c) None (Some matrix_payload)
                  [(''output_format'', JStr ''structures-pdb-txt'')] c of
             (Inl e, c1) \<Rightarrow> (Inl e, c1)
           | (Inr None, c1) \<Rightarrow> (Inr None, c1)
           | (Inr (Some r), c1) \<Rightarrow>
               if ok_status r then
                 (let domain_event_id = str_strip (resp_text r) in
                  if domain_event_id \<noteq> []
                  then batch_poll srv items domain_event_id
                         (domain_events_url c1 domain_event_id) 0 c1
                  else (Inr None, c1))
               else (Inr None, c1)))"

text \<open>The path for two or more requests: one ZIP export, then the archive is unpacked.\<close>

definition export_zip ::
  "server \<Rightarrow> unzip \<Rightarrow> decoder \<Rightarrow> json list \<Rightarrow> client \<Rightarrow> (exn + pdb_files option) \<times> client" where
  "export_zip srv open_zip decode items c =
     (case map_exn matrix_entry items of
        Inl e \<Rightarrow> (Inl e, c)
      | Inr matrix_payload \<Rightarrow>
          (case map_exn (\<lambda>item. py_index_key item ''structure_id'') items of
             Inl e \<Rightarrow> (Inl e, c)
           | Inr structure_ids \<Rightarrow>
               (case download_structures_zip srv (JList structure_ids) (JList matrix_payload) c of
                  (Inl e, c1) \<Rightarrow> (Inl e, c1)
                | (Inr None, c1) \<Rightarrow> (Inr None, c1)
                | (Inr (Some zip_content), c1) \<Rightarrow>
                    if zip_content = [] then (Inr None, c1)
                    else (Inr (extract_pdb_files open_zip decode zip_content), c1))))"

definition export_structures_with_transforms ::
  "server \<Rightarrow> unzip \<Rightarrow> decoder \<Rightarrow> json list \<Rightarrow> client \<Rightarrow> (exn + pdb_files option) \<times> client" where
  "export_structures_with_transforms srv open_zip decode structures_with_transforms c =
     (case test_connection srv c of
        (False, c1) \<Rightarrow> (Inr None, c1)
      | (True, c1) \<Rightarrow>
          except_return None
            (if length structures_with_transforms > 1
             then export_zip srv open_zip decode structures_with_transforms c1
             else export_single srv structures_with_transforms c1))"

subsection \<open>Notions used to state the properties of the polling loops\<close>

text \<open>
  A poll response in a state that is not terminal: a success status and a JSON object
  whose \<^verbatim>\<open>state\<close> is neither \<^verbatim>\<open>success\<close> nor \<^verbatim>\<open>failed\<close>.
\<close>

definition pending_response :: "response \<Rightarrow> bool" where
  "pending_response r =
     (ok_status r \<and>
      (case resp_json r of
         None \<Rightarrow> False
       | Some domain_data \<Rightarrow>
           (case py_get domain_data ''state'' of
              Inl e \<Rightarrow> False
            | Inr state \<Rightarrow> state \<noteq> JStr ''success'' \<and> state \<noteq> JStr ''failed'')))"

text \<open>
  The export request was answered with a success status and the domain event id \<open>ev\<close>,
  leaving the client as \<open>c2\<close>.
\<close>

definition export_accepted :: "(exn + response option) \<times> client \<Rightarrow> string \<Rightarrow> client \<Rightarrow> bool" where
  "export_accepted rc ev c2 =
     (case rc of
        (Inr (Some r), c') \<Rightarrow> c' = c2 \<and> ok_status r \<and> str_strip (resp_text r) = ev \<and> ev \<noteq> []
      | _ \<Rightarrow> False)"

text \<open>The request of one poll, and the client after \<open>k\<close> polls and \<open>s\<close> seconds of sleep.\<close>

definition poll_request :: "client \<Rightarrow> fstring \<Rightarrow> request" where
  "poll_request c poll_url = first_request c GET poll_url None None []"

definition polled :: "nat \<Rightarrow> nat \<Rightarrow> fstring \<Rightarrow> client \<Rightarrow> client" where
  "polled k s poll_url c =
     c\<lparr>sent := sent c @ replicate k (poll_request c poll_url), slept := slept c + s\<rparr>"

text \<open>
  A poll response of an export that succeeded in part: a success status, state
  \<^verbatim>\<open>success\<close>, and a non-empty list \<^verbatim>\<open>content.errors.not_exported\<close>.
\<close>

definition partial_failure_response :: "response \<Rightarrow> bool" where
  "partial_failure_response r =
     (ok_status r \<and>
      (case resp_json r of
         None \<Rightarrow> False
       | Some domain_data \<Rightarrow>
           py_get domain_data ''state'' = Inr (JStr ''success'') \<and>
           (case export_errors domain_data of
              Inr (content, JList not_exported) \<Rightarrow> not_exported \<noteq> []
            | _ \<Rightarrow> False)))"

text \<open>
  To state what the unpacking returns: the text of an entry, when it can be read and
  decoded, and the key under which it is stored.
\<close>

definition entry_text :: "archive \<Rightarrow> decoder \<Rightarrow> string \<Rightarrow> exn + string" where
  "entry_text ar decode f = (case zread ar f of Inl e \<Rightarrow> Inl e | Inr raw \<Rightarrow> decode raw)"

definition the_text :: "archive \<Rightarrow> decoder \<Rightarrow> string \<Rightarrow> string" where
  "the_text ar decode f = (case entry_text ar decode f of Inl e \<Rightarrow> [] | Inr t \<Rightarrow> t)"

definition base_key :: "string \<Rightarrow> fstring" where
  "base_key f = [S (split_last CHR ''/'' f)]"
section \<open>Projects, associated files and annotations\<close>




subsection \<open>The project catalog\<close>









subsection \<open>Associated files and downloads\<close>










subsection \<open>The internal id of a structure\<close>






subsection \<open>Notions used to state how failures reach the caller\<close>




section \<open>The dialog: project structures merged with their details\<close>

text \<open>
  \<^verbatim>\<open>load_project_structures_in_tab\<close>. The details come from \<^verbatim>\<open>get_structures_info\<close>;
  \<^verbatim>\<open>details_map\<close> is a dict from \<^verbatim>\<open>int(sid)\<close> to the detail record, a later record of
  an id replacing an earlier one.
\<close>

fun details_map_of :: "json list \<Rightarrow> (int \<times> json) list \<Rightarrow> exn + (int \<times> json) list" where
  "details_map_of [] details_map = Inr details_map"
| "details_map_of (detail # rest) details_map =
     (case py_get detail ''structure_id'' of
        Inl e \<Rightarrow> Inl e
      | Inr a \<Rightarrow>
          (case (if truthy a then Inr a
                 else (case py_get_default detail ''general'' (JObj []) of
                         Inl e \<Rightarrow> Inl e
                       | Inr general \<Rightarrow> py_get general ''structure_id'')) of
             Inl e \<Rightarrow> Inl e
           | Inr sid \<Rightarrow>
               if truthy sid then
                 (case py_int sid of
                    Inl e \<Rightarrow> Inl e
                  | Inr n \<Rightarrow> details_map_of rest (AList.update n detail details_map))
               else details_map_of rest details_map))"

text \<open>
  The value of \<^verbatim>\<open>matrix\<close> for a project structure \<^verbatim>\<open>s\<close>: \<^verbatim>\<open>None\<close> unless
  \<^verbatim>\<open>ReferenceTransforms\<close> is a non-empty dict whose \<^verbatim>\<open>transform\<close> is a list of 16 values.
  It is computed in the guarded branch of the merge only.
\<close>

definition reference_matrix :: "json \<Rightarrow> exn + json" where
  "reference_matrix s =
     (case py_get s ''ReferenceTransforms'' of
        Inl e \<Rightarrow> Inl e
      | Inr ref_transforms \<Rightarrow>
          (case ref_transforms of
             JObj kv \<Rightarrow>
               if truthy ref_transforms then
                 (case py_get ref_transforms ''transform'' of
                    Inl e \<Rightarrow> Inl e
                  | Inr transform \<Rightarrow> Inr (reshape_transform transform))
               else Inr JNull
           | _ \<Rightarrow> Inr JNull))"

text \<open>\<^verbatim>\<open>x.copy()\<close>: dicts and lists have it.\<close>

fun py_copy :: "json \<Rightarrow> exn + json" where
  "py_copy (JObj kv) = Inr (JObj kv)"
| "py_copy (JList xs) = Inr (JList xs)"
| "py_copy _ = Inl AttributeError"

text \<open>
  One round of the merge loop: a structure with an id that has a detail record becomes
  that record with the key \<^verbatim>\<open>TRANSFORM_MATRIX\<close> set; every other structure is kept as
  it is, and no matrix is built for it.
\<close>

definition merge_structure :: "(int \<times> json) list \<Rightarrow> json \<Rightarrow> exn + json" where
  "merge_structure details_map s =
     (case get_or s [''STRUCTURE_ID'', ''structure_id''] of
        Inl e \<Rightarrow> Inl e
      | Inr structure_id \<Rightarrow>
          if truthy structure_id then
            (case py_int structure_id of
               Inl e \<Rightarrow> Inl e
             | Inr n \<Rightarrow>
                 (case map_of details_map n of
                    Some detail \<Rightarrow>
                      (case py_copy detail of
                         Inl e \<Rightarrow> Inl e
                       | Inr enriched \<Rightarrow>
                           (case reference_matrix s of
                              Inl e \<Rightarrow> Inl e
                            | Inr matrix \<Rightarrow> dict_set enriched ''TRANSFORM_MATRIX'' matrix))
                  | None \<Rightarrow> Inr s))
          else Inr s)"

definition merge_structures :: "json list \<Rightarrow> json list \<Rightarrow> exn + json list" where
  "merge_structures detailed_structures structures =
     (case details_map_of detailed_structures [] of
        Inl e \<Rightarrow> Inl e
      | Inr details_map \<Rightarrow> map_exn (merge_structure details_map) structures)"


section \<open>Example clients and servers\<close>

text \<open>
  A configured client holding a stale token, and a server that rejects the first request
  with 401, accepts the login that follows, and answers 200 from then on.
\<close>

definition client0 :: client where
  "client0 = \<lparr> base_url = Some ''http://h'', api_key = Some ''k'', token = JStr ''old'',
       session_auth = Some (Bearer (JStr ''old'')), session_api_key = None,
       sent = [], slept = 0 \<rparr>"

definition resp :: "int \<Rightarrow> string \<Rightarrow> json option \<Rightarrow> response" where
  "resp st txt js = \<lparr> status_code = st, resp_text = txt, resp_content = txt, resp_json = js \<rparr>"

definition srv_expired :: server where
  "srv_expired n rq =
     (if n = 0 then Reply (resp 401 ''expired'' None)
      else if n = 1 then Reply (resp 200 [] (Some (JObj [(''access_token'', JStr ''new'')])))
      else Reply (resp 200 ''ok'' None))"

text \<open>A server that rejects every request, the login too.\<close>

definition srv_401 :: server where
  "srv_401 n rq = Reply (resp 401 ''Unauthorized'' None)"

text \<open>
  A server whose GraphQL answer lists structure 7 twice (two states), one entry with id
  0, one entry without an id, and structure 8.
\<close>

definition entry :: "rat \<Rightarrow> json" where
  "entry n = JObj [(''structure_id'', JNum n)]"

definition srv_states :: server where
  "srv_states n rq =
     Reply (resp 200 []
       (Some (JObj [(''data'', JObj [(''getStructuresInfo'',
          JList [entry 7, entry 0, JObj [(''general'', JObj [])], entry 7, entry 8])])])))"

text \<open>
  A server that answers a GraphQL query with one record per requested id, in the order
  of the request, and everything else with 404.
\<close>

definition requested_ids :: "request \<Rightarrow> json list option" where
  "requested_ids rq =
     (case req_json rq of
        None \<Rightarrow> None
      | Some p \<Rightarrow>
          (case py_index_key p ''variables'' of
             Inl e \<Rightarrow> None
           | Inr v \<Rightarrow>
               (case py_index_key v ''ids'' of
                  Inr (JList ids) \<Rightarrow> Some ids
                | _ \<Rightarrow> None)))"

definition record_of :: "json \<Rightarrow> json" where
  "record_of i = JObj [(''structure_id'', i)]"

definition srv_echo :: server where
  "srv_echo n rq =
     (case requested_ids rq of
        None \<Rightarrow> Reply (resp 404 [] None)
      | Some ids \<Rightarrow>
          Reply (resp 200 []
            (Some (JObj [(''data'', JObj [(''getStructuresInfo'', JList (map record_of ids))])]))))"

definition ids_7 :: "json list" where
  "ids_7 = replicate 501 (JNum 7)"

definition ids_upto :: "json list" where
  "ids_upto = map (\<lambda>i. JNum (of_nat i)) [1..<502]"

text \<open>Projects as the server lists them.\<close>

definition project :: "string \<Rightarrow> json" where
  "project l = JObj [(''project_label'', JStr l)]"

definition named_project :: "string \<Rightarrow> string \<Rightarrow> json" where
  "named_project l n = JObj [(''project_label'', JStr l), (''project_name'', JStr n)]"

text \<open>
  A search server: the submission returns job 42, and every poll of the queue reports
  the given job.
\<close>

definition srv_job :: "json \<Rightarrow> server" where
  "srv_job job n rq =
     (if req_url rq = [S ''http://h'', S ''/search/'', S ''ABL1'']
      then Reply (resp 200 [] (Some (JObj [(''id'', JNum 42)])))
      else Reply (resp 200 [] (Some job)))"

definition job_running :: json where
  "job_running = JObj [(''progress'', JNum 40), (''status'', JStr ''active'')]"

definition job_done_empty :: json where
  "job_done_empty =
     JObj [(''progress'', JNum 100), (''returnvalue'', JObj [(''STRUCTURE_ID'', JList [])])]"

text \<open>
  An export server that accepts every export request with the domain event \<^verbatim>\<open>ev1\<close> and
  answers every other request, the polls among them, with the given domain event.
\<close>

definition srv_export :: "json \<Rightarrow> server" where
  "srv_export domain_event n rq =
     (if req_url rq = [S ''http://h'', S ''/exports/structure'']
      then Reply (resp 200 ''ev1'' None)
      else Reply (resp 200 [] (Some domain_event)))"

definition event_pending :: json where
  "event_pending = JObj [(''state'', JStr ''pending'')]"

definition pdb_request :: request where
  "pdb_request =
     first_request client0 POST (export_url client0) None
       (Some (JObj [(''structures_id'', JList [JNum 101])]))
       [(''output_format'', JStr ''structures-pdb-txt'')]"

text \<open>
  A domain event of an export that succeeded for one structure and failed for another,
  and a server that reports it at the second poll.
\<close>

definition event_partial :: json where
  "event_partial =
     JObj [(''state'', JStr ''success''),
           (''content'',
              JObj [(''file_names'', JList [JObj [(''file_name'', JStr ''101.pdb'')]]),
                    (''errors'',
                       JObj [(''not_exported'',
                                JList [JObj [(''error_message'', JStr ''no coordinates'')]])])])]"

definition srv_partial :: server where
  "srv_partial n rq =
     (if n = 1 then Reply (resp 200 [] (Some event_pending))
      else srv_export event_partial n rq)"

definition poll_ev1 :: request where
  "poll_ev1 = poll_request client0 [S ''http://h'', S ''/domain-events/'', S ''ev1'']"

text \<open>
  A server whose ZIP export is ready at the first poll, and two archives: one with two
  structure files of different names, one with two files \<^verbatim>\<open>x.pdb\<close> in two folders.
\<close>

definition event_zip_ready :: json where
  "event_zip_ready =
     JObj [(''state'', JStr ''success''),
           (''content'', JObj [(''file_names'', JList [JObj [(''file_name'', JStr ''export.zip'')]])])]"

definition srv_zip :: server where
  "srv_zip n rq =
     (if req_url rq = [S ''http://h'', S ''/exports/structure''] then Reply (resp 200 ''ev1'' None)
      else if req_url rq = [S ''http://h'', S ''/domain-events/'', S ''ev1'']
      then Reply (resp 200 [] (Some event_zip_ready))
      else Reply (resp 200 ''PKzip'' None))"

definition item :: "string \<Rightarrow> rat \<Rightarrow> json" where
  "item code n =
     JObj [(''structure_id'', JNum n), (''external_code'', JStr code),
           (''transform'', JList identity_matrix)]"

definition two_items :: "json list" where
  "two_items = [item ''1abc'' 101, item ''2xyz'' 102]"

definition archive_of :: "(string \<times> string) list \<Rightarrow> archive" where
  "archive_of entries =
     \<lparr> namelist = map fst entries,
       zread = (\<lambda>f. case map_of (rev entries) f of None \<Rightarrow> Inl KeyError | Some raw \<Rightarrow> Inr raw) \<rparr>"

definition unzip_distinct :: unzip where
  "unzip_distinct z =
     Inr (archive_of [(''out/1abc.pdb'', ''ATOM 1''), (''out/readme.txt'', ''hello''),
                      (''out/2xyz.pdb'', ''ATOM 2'')])"

definition unzip_same_name :: unzip where
  "unzip_same_name z = Inr (archive_of [(''a/x.pdb'', ''ATOM 1''), (''b/x.pdb'', ''ATOM 2'')])"

definition decode_ascii :: decoder where
  "decode_ascii raw = Inr raw"




text \<open>A server that answers every query with records of the structures 1 to 501.\<close>

definition srv_flood :: server where
  "srv_flood n rq =
     Reply (resp 200 []
       (Some (JObj [(''data'', JObj [(''getStructuresInfo'', JList (map record_of ids_upto))])])))"

section \<open>Properties of the transport\<close>

lemma login_sent:
  "sent (snd (login srv c)) = sent c @ (if is_configured c then [login_request c] else [])"
  by (simp add: login_def send_def split: reply.splits option.splits sum.splits)

lemma login_ok:
  "fst (login srv c) \<Longrightarrow>
     truthy (token (snd (login srv c))) \<and>
     session_auth (snd (login srv c)) = Some (Bearer (token (snd (login srv c)))) \<and>
     session_api_key (snd (login srv c)) = None"
  by (auto simp add: login_def send_def split: reply.splits option.splits sum.splits if_splits)

lemma login_keeps:
  "base_url (snd (login srv c)) = base_url c"
  "api_key (snd (login srv c)) = api_key c"
  "slept (snd (login srv c)) = slept c"
  by (simp_all add: login_def send_def split: reply.splits option.splits sum.splits)

lemma login_failed:
  "\<not> fst (login srv c) \<Longrightarrow>
     session_auth (snd (login srv c)) = session_auth c \<and>
     (\<not> truthy (token c) \<longrightarrow> \<not> truthy (token (snd (login srv c))))"
  by (auto simp add: login_def send_def split: reply.splits option.splits sum.splits if_splits)

lemma rwr_other:
  "request_with_retry srv (OtherMethod s) url hauth json_data params c = (Inr None, c)"
  by (simp add: request_with_retry_def)

lemma rwr_send:
  "m = GET \<or> m = POST \<Longrightarrow>
   request_with_retry srv m url hauth json_data params c =
     (let rq0 = first_request c m url hauth json_data params; c1 = c\<lparr>sent := sent c @ [rq0]\<rparr> in
      case srv (length (sent c)) rq0 of
        NetError \<Rightarrow> (Inl NetworkError, c1)
      | Reply r \<Rightarrow>
          if status_code r = 401 \<or> status_code r = 403 then
            (case login srv (clear_token c1) of
               (True, c2) \<Rightarrow> lift_reply (send srv (retry_request c2 m url json_data params) c2)
             | (False, c2) \<Rightarrow> (Inr None, c2))
          else (Inr (Some r), c1))"
  by (auto simp add: request_with_retry_def send_def Let_def split: reply.splits)

lemma retry_request_eq:
  "session_api_key c2 = None \<Longrightarrow>
   retry_request c2 m url json_data params =
     (first_request c m url hauth json_data params)
        \<lparr>req_auth := Some (Bearer (token c2)), req_api_key := None\<rparr>"
  by (simp add: retry_request_def first_request_def mk_request_def)

text \<open>
  C1. For every call of \<^verbatim>\<open>_request_with_retry\<close>, the requests it sends are none (an
  unsupported method), the original request alone, the original and one login, or the
  original, one login and one retry. When the first response has status 401 or 403, the
  token and the session's \<^verbatim>\<open>Authorization\<close> header are cleared and \<^verbatim>\<open>login\<close> runs once
  from that state; if it succeeds the original request is sent once more, with the
  bearer header of the new token, and the reply to that second request is the result; if
  it fails the result is \<^verbatim>\<open>None\<close>, and the client is left without a usable token
  and without an \<^verbatim>\<open>Authorization\<close> header.
\<close>

theorem request_with_retry_auth_failure:
  fixes srv :: server
  shows
  "(let rq0 = first_request c m url hauth json_data params;
        c1 = clear_token (c\<lparr>sent := sent c @ [rq0]\<rparr>);
        lg = login srv c1;
        rq1 = retry_request (snd lg) m url json_data params;
        out = request_with_retry srv m url hauth json_data params c
    in (\<exists>new. sent (snd out) = sent c @ new \<and>
          (new = [] \<or> new = [rq0] \<or> new = [rq0, login_request c1]
             \<or> new = [rq0, login_request c1, rq1])) \<and>
       ((m = GET \<or> m = POST) \<and>
        (\<exists>r. srv (length (sent c)) rq0 = Reply r \<and> (status_code r = 401 \<or> status_code r = 403))
        \<longrightarrow>
          token c1 = JNull \<and> session_auth c1 = None \<and>
          sent (snd out) = sent c @ rq0 # (if is_configured c then [login_request c1] else [])
                              @ (if fst lg then [rq1] else []) \<and>
          (fst lg \<longrightarrow>
             fst out = (case srv (length (sent c) + 2) rq1 of
                          NetError \<Rightarrow> Inl NetworkError | Reply r2 \<Rightarrow> Inr (Some r2)) \<and>
             req_auth rq1 = Some (Bearer (token (snd lg))) \<and> truthy (token (snd lg)) \<and>
             rq1 = rq0\<lparr>req_auth := Some (Bearer (token (snd lg))), req_api_key := None\<rparr>) \<and>
          (\<not> fst lg \<longrightarrow>
             fst out = Inr None \<and> snd out = snd lg \<and>
             \<not> truthy (token (snd out)) \<and> session_auth (snd out) = None)))"
proof -
  define rq0 where "rq0 = first_request c m url hauth json_data params"
  define c1 where "c1 = clear_token (c\<lparr>sent := sent c @ [rq0]\<rparr>)"
  define rq1 where "rq1 = retry_request (snd (login srv c1)) m url json_data params"
  define out where "out = request_with_retry srv m url hauth json_data params c"
  obtain ok c2 where lg: "login srv c1 = (ok, c2)"
    by (cases "login srv c1")
  have conf: "is_configured c1 = is_configured c"
    by (simp add: c1_def clear_token_def is_configured_def)
  have s2: "sent c2 = sent c @ rq0 # (if is_configured c then [login_request c1] else [])"
    using login_sent [of srv c1] lg conf by (simp add: c1_def clear_token_def)
  have okf: "ok \<Longrightarrow> truthy (token c2) \<and> session_api_key c2 = None"
    using login_ok [of srv c1] lg by simp
  have notconf: "\<not> is_configured c \<Longrightarrow> \<not> ok"
    using lg conf by (simp add: login_def)
  have ct: "token c1 = JNull" "session_auth c1 = None"
    by (simp_all add: c1_def clear_token_def)
  have fl: "\<not> ok \<Longrightarrow> \<not> truthy (token c2) \<and> session_auth c2 = None"
    using login_failed [of srv c1] lg ct by simp
  have auth_case: "token c1 = JNull \<and> session_auth c1 = None \<and>
          sent (snd out) = sent c @ rq0 # (if is_configured c then [login_request c1] else [])
                              @ (if ok then [rq1] else []) \<and>
          (ok \<longrightarrow>
             fst out = (case srv (length (sent c) + 2) rq1 of
                          NetError \<Rightarrow> Inl NetworkError | Reply r2 \<Rightarrow> Inr (Some r2)) \<and>
             req_auth rq1 = Some (Bearer (token c2)) \<and> truthy (token c2) \<and>
             rq1 = rq0\<lparr>req_auth := Some (Bearer (token c2)), req_api_key := None\<rparr>) \<and>
          (\<not> ok \<longrightarrow>
             fst out = Inr None \<and> snd out = c2 \<and>
             \<not> truthy (token (snd out)) \<and> session_auth (snd out) = None)"
    if m: "m = GET \<or> m = POST" and r: "srv (length (sent c)) rq0 = Reply r"
      and st: "status_code r = 401 \<or> status_code r = 403" for r
  proof (cases ok)
    case False
    have "out = (Inr None, c2)"
      unfolding out_def using rwr_send [OF m, of srv url hauth json_data params c] r st lg False
      by (simp add: Let_def rq0_def [symmetric] c1_def [symmetric])
    then show ?thesis using False s2 ct fl by simp
  next
    case True
    have o: "out = lift_reply (send srv rq1 c2)"
      unfolding out_def using rwr_send [OF m, of srv url hauth json_data params c] r st lg True
      by (simp add: Let_def rq0_def [symmetric] c1_def [symmetric] rq1_def)
    have c: "is_configured c" using notconf True by blast
    have len: "length (sent c2) = length (sent c) + 2" using s2 c by simp
    have rq1: "rq1 = rq0\<lparr>req_auth := Some (Bearer (token c2)), req_api_key := None\<rparr>"
      using retry_request_eq [of c2 m url json_data params c hauth] okf True lg
      by (simp add: rq1_def rq0_def)
    show ?thesis
      using True o okf s2 c len rq1 ct
      by (simp add: lift_reply_def send_def split: reply.splits)
  qed
  have shape: "\<exists>new. sent (snd out) = sent c @ new \<and>
          (new = [] \<or> new = [rq0] \<or> new = [rq0, login_request c1]
             \<or> new = [rq0, login_request c1, rq1])"
  proof (cases m)
    case (OtherMethod s)
    then show ?thesis by (simp add: out_def rwr_other)
  next
    case GET
    then have m: "m = GET \<or> m = POST" by simp
    show ?thesis
    proof (cases "srv (length (sent c)) rq0")
      case NetError
      then show ?thesis
        unfolding out_def using rwr_send [OF m, of srv url hauth json_data params c]
        by (simp add: Let_def rq0_def [symmetric])
    next
      case (Reply r)
      show ?thesis
      proof (cases "status_code r = 401 \<or> status_code r = 403")
        case True
        from auth_case [OF m Reply True] notconf show ?thesis by (cases ok; cases "is_configured c"; simp)
      next
        case False
        then show ?thesis
          unfolding out_def using rwr_send [OF m, of srv url hauth json_data params c] Reply
          by (simp add: Let_def rq0_def [symmetric])
      qed
    qed
  next
    case POST
    then have m: "m = GET \<or> m = POST" by simp
    show ?thesis
    proof (cases "srv (length (sent c)) rq0")
      case NetError
      then show ?thesis
        unfolding out_def using rwr_send [OF m, of srv url hauth json_data params c]
        by (simp add: Let_def rq0_def [symmetric])
    next
      case (Reply r)
      show ?thesis
      proof (cases "status_code r = 401 \<or> status_code r = 403")
        case True
        from auth_case [OF m Reply True] notconf show ?thesis by (cases ok; cases "is_configured c"; simp)
      next
        case False
        then show ?thesis
          unfolding out_def using rwr_send [OF m, of srv url hauth json_data params c] Reply
          by (simp add: Let_def rq0_def [symmetric])
      qed
    qed
  qed
  show ?thesis
    unfolding Let_def
    unfolding rq0_def [symmetric]
    unfolding c1_def [symmetric]
    unfolding rq1_def [symmetric] out_def [symmetric]
    unfolding lg fst_conv snd_conv
    using shape auth_case by blast
qed


theorem request_with_retry_auth_failure_witness:
  "(\<exists>r. srv_expired (length (sent client0)) (first_request client0 GET [S ''u''] None None [])
          = Reply r \<and> (status_code r = 401 \<or> status_code r = 403)) \<and>
   fst (login srv_expired
          (clear_token (client0\<lparr>sent := [first_request client0 GET [S ''u''] None None []]\<rparr>))) \<and>
   fst (request_with_retry srv_expired GET [S ''u''] None None [] client0)
     = Inr (Some (resp 200 ''ok'' None)) \<and>
   map req_auth (sent (snd (request_with_retry srv_expired GET [S ''u''] None None [] client0)))
     = [Some (Bearer (JStr ''old'')), None, Some (Bearer (JStr ''new''))] \<and>
   token client0 = JStr ''old'' \<and>
   token (clear_token (client0\<lparr>sent := [first_request client0 GET [S ''u''] None None []]\<rparr>))
     = JNull \<and>
   token (snd (request_with_retry srv_expired GET [S ''u''] None None [] client0)) = JStr ''new'' \<and>
   fst (request_with_retry srv_401 GET [S ''u''] None None [] client0) = Inr None \<and>
   token (snd (request_with_retry srv_401 GET [S ''u''] None None [] client0)) = JNull \<and>
   session_auth (snd (request_with_retry srv_401 GET [S ''u''] None None [] client0)) = None \<and>
   map req_auth (sent (snd (request_with_retry srv_401 GET [S ''u''] None None [] client0)))
     = [Some (Bearer (JStr ''old'')), None]"
proof -
  have a: "request_with_retry srv_401 GET [S ''u''] None None [] client0
             = (Inr None, (clear_token client0)
                  \<lparr>sent := [first_request client0 GET [S ''u''] None None [],
                            login_request (clear_token client0)]\<rparr>)"
    by (simp add: request_with_retry_def send_def srv_401_def resp_def login_def clear_token_def
        is_configured_def truthy_str_def client0_def login_request_def login_url_def
        mk_request_def)
  have b: "fst (request_with_retry srv_401 GET [S ''u''] None None [] client0) = Inr None \<and>
     token (snd (request_with_retry srv_401 GET [S ''u''] None None [] client0)) = JNull \<and>
     session_auth (snd (request_with_retry srv_401 GET [S ''u''] None None [] client0)) = None \<and>
     map req_auth (sent (snd (request_with_retry srv_401 GET [S ''u''] None None [] client0)))
       = [Some (Bearer (JStr ''old'')), None]"
    unfolding a
    by (simp add: clear_token_def first_request_def mk_request_def login_request_def client0_def)
  have c: "token (snd (request_with_retry srv_expired GET [S ''u''] None None [] client0))
             = JStr ''new''"
    by (simp add: request_with_retry_def send_def srv_expired_def resp_def login_def
        clear_token_def is_configured_def truthy_str_def client0_def login_request_def
        mk_request_def py_get_def first_request_def retry_request_def lift_reply_def)
  show ?thesis
    using request_with_retry_auth_failure [of client0 GET "[S ''u'']" None None "[]" srv_expired]
      b c
    by (simp add: Let_def client0_def srv_expired_def first_request_def mk_request_def
      clear_token_def login_def login_request_def login_url_def is_configured_def
      truthy_str_def send_def py_get_def resp_def retry_request_def fstr_def)
qed

section \<open>Properties of the structure info resolver\<close>

lemma sid_key_Some:
  "sid_key s = Some k \<Longrightarrow> \<exists>v. py_get s ''structure_id'' = Inr v \<and> truthy v \<and> py_key v = Some k"
  by (simp add: sid_key_def split: sum.splits if_splits)

lemma unique_structures_inv:
  "unique_structures xs seen acc = Inr r \<Longrightarrow>
   distinct (map sid_key acc) \<Longrightarrow> set (map sid_key acc) = Some ` seen \<Longrightarrow>
   distinct (map sid_key r) \<and> None \<notin> set (map sid_key r) \<and>
   set (map sid_key r) \<subseteq> Some ` seen \<union> sid_key ` set xs \<and>
   (\<exists>new. r = acc @ new \<and> set new \<subseteq> set xs)"
proof (induction xs arbitrary: seen acc)
  case Nil
  then show ?case by auto
next
  case (Cons x xs)
  show ?case
  proof (cases "py_get x ''structure_id''")
    case (Inl e)
    with Cons.prems show ?thesis by simp
  next
    case (Inr v)
    show ?thesis
    proof (cases "truthy v")
      case False
      with Inr Cons.prems have "unique_structures xs seen acc = Inr r" by simp
      from Cons.IH [OF this Cons.prems(2,3)] show ?thesis by auto
    next
      case True
      show ?thesis
      proof (cases "py_key v")
        case None
        with Inr True Cons.prems show ?thesis by simp
      next
        case (Some k)
        have kx: "sid_key x = Some k" using Inr True Some by (simp add: sid_key_def)
        show ?thesis
        proof (cases "k \<in> seen")
          case True
          with Inr \<open>truthy v\<close> Some Cons.prems have "unique_structures xs seen acc = Inr r" by simp
          from Cons.IH [OF this Cons.prems(2,3)] show ?thesis by auto
        next
          case False
          with Inr \<open>truthy v\<close> Some Cons.prems
          have u: "unique_structures xs (insert k seen) (acc @ [x]) = Inr r" by simp
          have d: "distinct (map sid_key (acc @ [x]))"
            using Cons.prems(2,3) False kx by auto
          have s: "set (map sid_key (acc @ [x])) = Some ` insert k seen"
            using Cons.prems(3) kx by auto
          from Cons.IH [OF u d s] kx show ?thesis by auto
        qed
      qed
    qed
  qed
qed

lemma batch_results_inv:
  assumes "batch_results data = Inr u"
  shows "distinct (map sid_key u) \<and> None \<notin> set (map sid_key u)"
proof -
  have "u = [] \<or> (\<exists>entries. unique_structures entries {} [] = Inr u)"
    using assms
    by (auto simp add: batch_results_def split: sum.splits bool.splits)
  then show ?thesis
  proof
    assume "u = []"
    then show ?thesis by simp
  next
    assume "\<exists>entries. unique_structures entries {} [] = Inr u"
    then obtain entries where "unique_structures entries {} [] = Inr u" ..
    from unique_structures_inv [OF this] show ?thesis by simp
  qed
qed

lemma fetch_structures_batch_cases:
  "fst (fetch_structures_batch srv ids c) = [] \<or>
   (\<exists>r c1 data. request_with_retry srv POST (graphql_url c) None (Some (graphql_payload ids)) [] c
        = (Inr (Some r), c1) \<and> resp_json r = Some data \<and>
      batch_results data = Inr (fst (fetch_structures_batch srv ids c)))"
  by (simp add: fetch_structures_batch_def
      split: sum.splits prod.splits option.splits)

lemma fetch_structures_batch_inv:
  "distinct (map sid_key (fst (fetch_structures_batch srv ids c))) \<and>
   None \<notin> set (map sid_key (fst (fetch_structures_batch srv ids c)))"
  using fetch_structures_batch_cases [of srv ids c] batch_results_inv
  by (metis distinct.simps(1) list.simps(8) empty_iff list.set(1))

lemma batch_loop_keys:
  "None \<notin> set (map sid_key acc) \<Longrightarrow>
   None \<notin> set (map sid_key (fst (batch_loop srv ids n i acc c)))"
proof (induction srv ids n i acc c rule: batch_loop.induct)
  case (1 srv ids n i acc c)
  show ?case
  proof (cases "i < n")
    case False
    then show ?thesis using "1.prems" by (simp add: batch_loop.simps)
  next
    case True
    show ?thesis
    proof (cases "py_slice ids i (i + batch_size)")
      case (Inl e)
      then show ?thesis using True by (simp add: batch_loop.simps)
    next
      case (Inr b)
      obtain r c1 where f: "fetch_structures_batch srv b c = (r, c1)"
        by (cases "fetch_structures_batch srv b c")
      have rk: "None \<notin> set (map sid_key r)"
        using fetch_structures_batch_inv [of srv b c] f by simp
      have "None \<notin> set (map sid_key (if r \<noteq> [] then acc @ r else acc))"
        using rk "1.prems" by auto
      from "1.IH" [OF True Inr f [symmetric] this]
      show ?thesis using True Inr f by (simp add: batch_loop.simps)
    qed
  qed
qed

text \<open>
  C10. An entry of the server whose \<^verbatim>\<open>structure_id\<close> is missing, \<^verbatim>\<open>None\<close> or otherwise
  falsy (the number 0, an empty string) is in no result of the resolver: every record
  that \<^verbatim>\<open>_fetch_structures_batch\<close> or \<^verbatim>\<open>get_structures_info\<close> returns is a dict with a
  truthy \<^verbatim>\<open>structure_id\<close>; an entry without one is dropped even when it stands alone.
\<close>

theorem falsy_structure_id_dropped:
  "(\<forall>s \<in> set (fst (fetch_structures_batch srv ids c)).
      \<exists>v. py_get s ''structure_id'' = Inr v \<and> truthy v) \<and>
   (\<forall>s \<in> set (fst (get_structures_info srv ids c)).
      \<exists>v. py_get s ''structure_id'' = Inr v \<and> truthy v) \<and>
   (\<forall>e. (\<exists>v. py_get e ''structure_id'' = Inr v \<and> \<not> truthy v) \<longrightarrow>
      unique_structures [e] {} [] = Inr [])"
proof (intro conjI)
  have key: "\<And>xs s. None \<notin> set (map sid_key xs) \<Longrightarrow> s \<in> set xs \<Longrightarrow>
      \<exists>v. py_get s ''structure_id'' = Inr v \<and> truthy v"
  proof -
    fix xs s
    assume a: "None \<notin> set (map sid_key xs)" and s: "s \<in> set xs"
    then have "sid_key s \<noteq> None" by force
    then obtain k where "sid_key s = Some k" by blast
    from sid_key_Some [OF this] show "\<exists>v. py_get s ''structure_id'' = Inr v \<and> truthy v"
      by blast
  qed
  show "\<forall>s \<in> set (fst (fetch_structures_batch srv ids c)).
      \<exists>v. py_get s ''structure_id'' = Inr v \<and> truthy v"
    using key fetch_structures_batch_inv [of srv ids c] by blast
  have g: "None \<notin> set (map sid_key (fst (get_structures_info srv ids c)))"
  proof (cases "test_connection srv c")
    case (Pair ok c1)
    show ?thesis
    proof (cases ok)
      case False
      with Pair show ?thesis by (simp add: get_structures_info_def)
    next
      case True
      show ?thesis
      proof (cases "py_len ids")
        case (Inl e)
        with Pair True show ?thesis by (simp add: get_structures_info_def)
      next
        case (Inr n)
        show ?thesis
          using Pair True Inr batch_loop_keys [of "[]" srv ids n 0 c1]
            fetch_structures_batch_inv [of srv ids c1]
          by (simp add: get_structures_info_def)
      qed
    qed
  qed
  show "\<forall>s \<in> set (fst (get_structures_info srv ids c)).
      \<exists>v. py_get s ''structure_id'' = Inr v \<and> truthy v"
    using key g by blast
  show "\<forall>e. (\<exists>v. py_get e ''structure_id'' = Inr v \<and> \<not> truthy v) \<longrightarrow>
      unique_structures [e] {} [] = Inr []"
    by auto
qed

theorem falsy_structure_id_dropped_witness:
  "fst (fetch_structures_batch srv_states (JList [JNum 7, JNum 8]) client0) = [entry 7, entry 8] \<and>
   (\<exists>v. py_get (entry 7) ''structure_id'' = Inr v \<and> truthy v) \<and>
   (\<exists>v. py_get (entry 0) ''structure_id'' = Inr v \<and> \<not> truthy v) \<and>
   unique_structures [entry 0] {} [] = Inr []"
  using falsy_structure_id_dropped [of srv_states "JList [JNum 7, JNum 8]" client0]
  by (simp add: fetch_structures_batch_def request_with_retry_def first_request_def
      mk_request_def send_def srv_states_def resp_def ok_status_def batch_results_def
      entry_def py_get_def client0_def)

subsection \<open>Chunking\<close>

lemma chunks_from_done: "length xs \<le> i \<Longrightarrow> chunks_from xs i = []"
  by (simp add: chunks_from_def batch_size_def)

lemma chunk_count_step_gen:
  assumes "0 < (b::nat)" "0 < d"
  shows "(d + b - 1) div b = Suc ((d - b + b - 1) div b)"
proof (cases "d \<le> b")
  case True
  then have "d - b + b - 1 < b" using assms by simp
  then have z: "(d - b + b - 1) div b = 0" by simp
  have "b \<le> d + b - 1" "d + b - 1 < b + b" using assms True by simp_all
  then have "(d + b - 1) div b = 1"
    by (metis div_nat_eqI mult.right_neutral mult_Suc_right One_nat_def)
  with z show ?thesis by simp
next
  case False
  then have "d + b - 1 = (d - b + b - 1) + b" by simp
  then have "(d + b - 1) div b = ((d - b + b - 1) + b) div b" by simp
  also have "\<dots> = (d - b + b - 1) div b + 1"
    by (rule div_add_self2) (use assms in simp)
  finally show ?thesis by simp
qed

lemma chunk_count_step:
  "i < n \<Longrightarrow> (n - i + batch_size - 1) div batch_size
             = Suc ((n - (i + batch_size) + batch_size - 1) div batch_size)"
  using chunk_count_step_gen [of batch_size "n - i"]
  by (simp add: batch_size_def)

lemma map_upt_Suc_shift: "map f [0..<Suc m] = f 0 # map (\<lambda>k. f (Suc k)) [0..<m]"
  by (simp only: map_upt_Suc)

lemma chunks_from_step:
  assumes "i < length xs"
  shows "chunks_from xs i = slice xs i (i + batch_size) # chunks_from xs (i + batch_size)"
proof -
  let ?m = "(length xs - (i + batch_size) + batch_size - 1) div batch_size"
  let ?f = "\<lambda>k. slice xs (i + k * batch_size) (i + k * batch_size + batch_size)"
  have "chunks_from xs i = map ?f [0..<Suc ?m]"
    unfolding chunks_from_def chunk_count_step [OF assms] ..
  also have "\<dots> = ?f 0 # map (\<lambda>k. ?f (Suc k)) [0..<?m]"
    by (rule map_upt_Suc_shift)
  also have "map (\<lambda>k. ?f (Suc k)) [0..<?m] = chunks_from xs (i + batch_size)"
    unfolding chunks_from_def by (simp add: ac_simps)
  finally show ?thesis by simp
qed

lemma slice_append_drop: "slice xs i (i + b) @ drop (i + b) xs = drop i xs"
proof -
  have "take b (drop i xs) @ drop b (drop i xs) = drop i xs" by (rule append_take_drop_id)
  then show ?thesis by (simp add: slice_def add.commute)
qed

lemma concat_chunks_from: "concat (chunks_from xs i) = drop i xs"
proof (induction "length xs - i" arbitrary: i rule: less_induct)
  case less
  show ?case
  proof (cases "i < length xs")
    case False
    then show ?thesis by (simp add: chunks_from_done)
  next
    case True
    have "length xs - (i + batch_size) < length xs - i"
      using True by (simp add: batch_size_def)
    from less [OF this] have "concat (chunks_from xs (i + batch_size)) = drop (i + batch_size) xs" .
    then show ?thesis
      by (simp only: chunks_from_step [OF True] concat.simps slice_append_drop)
  qed
qed

lemma length_chunks: "length (chunks xs) = (length xs + batch_size - 1) div batch_size"
  by (simp add: chunks_def chunks_from_def)

lemma batch_loop_chunks:
  "batch_loop srv (JList ids) (length ids) i acc c =
     (acc @ concat (fst (fetch_chunks srv (chunks_from ids i) c)),
      snd (fetch_chunks srv (chunks_from ids i) c))"
proof (induction srv "JList ids" "length ids" i acc c rule: batch_loop.induct)
  case (1 srv i acc c)
  show ?case
  proof (cases "i < length ids")
    case False
    then show ?thesis by (simp add: batch_loop.simps chunks_from_done)
  next
    case True
    obtain r c1 where f: "fetch_structures_batch srv (JList (slice ids i (i + batch_size))) c = (r, c1)"
      by (cases "fetch_structures_batch srv (JList (slice ids i (i + batch_size))) c")
    have s: "py_slice (JList ids) i (i + batch_size) = Inr (JList (slice ids i (i + batch_size)))"
      by simp
    note IH = "1.hyps" [OF True s f [symmetric]]
    have "batch_loop srv (JList ids) (length ids) i acc c =
            batch_loop srv (JList ids) (length ids) (i + batch_size)
              (if r \<noteq> [] then acc @ r else acc) c1"
      using True f by (subst batch_loop.simps) simp
    also note IH
    finally show ?thesis
      using f by (simp add: chunks_from_step [OF True] split: prod.splits)
  qed
qed


subsection \<open>What a chunk contributes\<close>

lemma rwr_response_origin:
  assumes "request_with_retry srv POST url hauth (Some p) params c = (Inr (Some r), c1)"
  shows "\<exists>i rq. srv i rq = Reply r \<and> req_json rq = Some p"
proof -
  let ?rq0 = "first_request c POST url hauth (Some p) params"
  let ?c0 = "c\<lparr>sent := sent c @ [?rq0]\<rparr>"
  have j0: "req_json ?rq0 = Some p" by (simp add: first_request_def mk_request_def)
  note eq = rwr_send [of POST srv url hauth "Some p" params c, simplified Let_def]
  show ?thesis
  proof (cases "srv (length (sent c)) ?rq0")
    case NetError
    with eq assms show ?thesis by simp
  next
    case (Reply r0)
    show ?thesis
    proof (cases "status_code r0 = 401 \<or> status_code r0 = 403")
      case False
      with eq assms Reply have "r = r0" by auto
      with Reply j0 show ?thesis by blast
    next
      case True
      obtain ok c2 where lg: "login srv (clear_token ?c0) = (ok, c2)"
        by (cases "login srv (clear_token ?c0)")
      let ?rq1 = "retry_request c2 POST url (Some p) params"
      have j1: "req_json ?rq1 = Some p" by (simp add: retry_request_def mk_request_def)
      show ?thesis
      proof (cases ok)
        case False
        with eq assms Reply True lg show ?thesis by simp
      next
        case ok: True
        with eq assms Reply True lg
        have "lift_reply (send srv ?rq1 c2) = (Inr (Some r), c1)" by simp
        then have "srv (length (sent c2)) ?rq1 = Reply r"
          by (simp add: lift_reply_def send_def split: reply.splits)
        with j1 show ?thesis by blast
      qed
    qed
  qed
qed

lemma fetch_structures_batch_requested:
  assumes "answers_requested srv"
  shows "sid_key ` set (fst (fetch_structures_batch srv (JList ch) c)) \<subseteq> py_key ` set ch"
proof -
  from fetch_structures_batch_cases [of srv "JList ch" c]
  show ?thesis
  proof
    assume "fst (fetch_structures_batch srv (JList ch) c) = []"
    then show ?thesis by simp
  next
    assume "\<exists>r c1 data. request_with_retry srv POST (graphql_url c) None
              (Some (graphql_payload (JList ch))) [] c = (Inr (Some r), c1) \<and>
            resp_json r = Some data \<and>
            batch_results data = Inr (fst (fetch_structures_batch srv (JList ch) c))"
    then obtain r c1 data where
      rw: "request_with_retry srv POST (graphql_url c) None
              (Some (graphql_payload (JList ch))) [] c = (Inr (Some r), c1)"
      and js: "resp_json r = Some data"
      and br: "batch_results data = Inr (fst (fetch_structures_batch srv (JList ch) c))"
      by blast
    from rwr_response_origin [OF rw] obtain i rq where
      "srv i rq = Reply r" "req_json rq = Some (graphql_payload (JList ch))" by blast
    with assms js br show ?thesis
      unfolding answers_requested_def by blast
  qed
qed

lemma keys_bound_length:
  assumes "distinct (map sid_key u)" "sid_key ` set u \<subseteq> py_key ` set ch"
  shows "length u \<le> length ch"
proof -
  have "length u = card (set (map sid_key u))"
    using assms(1) by (metis distinct_card length_map)
  also have "\<dots> \<le> card (py_key ` set ch)"
    using assms(2) by (simp add: card_mono)
  also have "\<dots> \<le> card (set ch)" by (rule card_image_le) simp
  also have "\<dots> \<le> length ch" by (rule card_length)
  finally show ?thesis .
qed


lemma fetch_chunks_each:
  "fetch_chunks srv chs c = (rs, c') \<Longrightarrow>
   length rs = length chs \<and>
   (\<forall>r \<in> set rs. distinct (map sid_key r) \<and> None \<notin> set (map sid_key r))"
proof (induction chs arbitrary: c rs c')
  case Nil
  then show ?case by simp
next
  case (Cons ch chs)
  obtain r c1 where f: "fetch_structures_batch srv (JList ch) c = (r, c1)"
    by (cases "fetch_structures_batch srv (JList ch) c")
  obtain rs1 c2 where g: "fetch_chunks srv chs c1 = (rs1, c2)"
    by (cases "fetch_chunks srv chs c1")
  have rs: "rs = r # rs1" using Cons.prems f g by simp
  have "distinct (map sid_key r) \<and> None \<notin> set (map sid_key r)"
    using fetch_structures_batch_inv [of srv "JList ch" c] f by simp
  with Cons.IH [OF g] rs show ?case by simp
qed

lemma fetch_chunks_requested:
  assumes "answers_requested srv"
  shows "fetch_chunks srv chs c = (rs, c') \<Longrightarrow>
   length (concat rs) \<le> length (concat chs) \<and>
   sid_key ` set (concat rs) \<subseteq> py_key ` set (concat chs) \<and>
   (distinct (map py_key (concat chs)) \<longrightarrow> distinct (map sid_key (concat rs)))"
proof (induction chs arbitrary: c rs c')
  case Nil
  then show ?case by simp
next
  case (Cons ch chs)
  obtain r c1 where f: "fetch_structures_batch srv (JList ch) c = (r, c1)"
    by (cases "fetch_structures_batch srv (JList ch) c")
  obtain rs1 c2 where g: "fetch_chunks srv chs c1 = (rs1, c2)"
    by (cases "fetch_chunks srv chs c1")
  have rs: "rs = r # rs1" using Cons.prems f g by simp
  have d: "distinct (map sid_key r)"
    using fetch_structures_batch_inv [of srv "JList ch" c] f by simp
  have k: "sid_key ` set r \<subseteq> py_key ` set ch"
    using fetch_structures_batch_requested [OF assms, of ch c] f by simp
  have l: "length r \<le> length ch" using keys_bound_length [OF d k] .
  note IH = Cons.IH [OF g]
  have len: "length (concat rs) \<le> length (concat (ch # chs))"
    using rs l IH by simp
  have k1: "sid_key ` set (concat rs1) \<subseteq> py_key ` set (concat chs)"
    using IH by blast
  have "set (concat rs) = set r \<union> set (concat rs1)" using rs by simp
  moreover have "set (concat (ch # chs)) = set ch \<union> set (concat chs)" by simp
  ultimately have sub: "sid_key ` set (concat rs) \<subseteq> py_key ` set (concat (ch # chs))"
    using k k1 by (simp only: image_Un) blast
  have dis: "distinct (map sid_key (concat rs))"
    if dd: "distinct (map py_key (concat (ch # chs)))"
  proof -
    from dd have d1: "distinct (map py_key (concat chs))"
      and dj: "py_key ` set ch \<inter> py_key ` set (concat chs) = {}"
      by auto
    from IH d1 have d2: "distinct (map sid_key (concat rs1))" by blast
    from IH have k2: "sid_key ` set (concat rs1) \<subseteq> py_key ` set (concat chs)" by blast
    have "sid_key ` set r \<inter> sid_key ` set (concat rs1) = {}"
      using k k2 dj by blast
    with d d2 rs show ?thesis by simp
  qed
  from len sub dis show ?case by blast
qed


subsection \<open>The batched resolver\<close>

lemma test_connection_token:
  "is_configured c \<Longrightarrow> truthy (token c) \<Longrightarrow> session_auth c \<noteq> None \<Longrightarrow>
   test_connection srv c = (True, c)"
  by (simp add: test_connection_def)

lemma fetch_structures_batch_client:
  "snd (fetch_structures_batch srv (JList ch) c)
     = snd (request_with_retry srv POST (graphql_url c) None
              (Some (graphql_payload (JList ch))) [] c)"
  by (simp add: fetch_structures_batch_def split: prod.splits sum.splits option.splits)

lemma login_request_fields:
  "req_method (login_request c) = GET" "req_url (login_request c) = login_url c"
  "req_json (login_request c) = None"
  by (simp_all add: login_request_def mk_request_def)

lemma post_request_fields:
  "is_post u payload (first_request c POST u hauth (Some payload) params)"
  "is_post u payload (retry_request c POST u (Some payload) params)"
  by (simp_all add: is_post_def first_request_def retry_request_def mk_request_def)

lemma login_fst_configured: "fst (login srv c) \<Longrightarrow> is_configured c"
  by (simp add: login_def split: if_splits)

lemma rwr_post_trace:
  "\<exists>seg. sent (snd (request_with_retry srv POST u hauth (Some payload) params c)) = sent c @ seg \<and>
         transport_segment u (login_url c) payload seg \<and>
         base_url (snd (request_with_retry srv POST u hauth (Some payload) params c)) = base_url c"
proof -
  let ?rq0 = "first_request c POST u hauth (Some payload) params"
  let ?c1 = "c\<lparr>sent := sent c @ [?rq0]\<rparr>"
  let ?out = "request_with_retry srv POST u hauth (Some payload) params c"
  note s = rwr_send [of POST srv u hauth "Some payload" params c, simplified Let_def]
  show ?thesis
  proof (cases "srv (length (sent c)) ?rq0")
    case NetError
    then have "?out = (Inl NetworkError, ?c1)" using s by simp
    then have "sent (snd ?out) = sent c @ [?rq0] \<and> base_url (snd ?out) = base_url c" by simp
    moreover have "transport_segment u (login_url c) payload [?rq0]"
      by (simp add: transport_segment_def post_request_fields)
    ultimately show ?thesis by blast
  next
    case (Reply r)
    show ?thesis
    proof (cases "status_code r = 401 \<or> status_code r = 403")
      case False
      then have "?out = (Inr (Some r), ?c1)" using s Reply by simp
      then have "sent (snd ?out) = sent c @ [?rq0] \<and> base_url (snd ?out) = base_url c" by simp
      moreover have "transport_segment u (login_url c) payload [?rq0]"
        by (simp add: transport_segment_def post_request_fields)
      ultimately show ?thesis by blast
    next
      case True
      let ?c2 = "clear_token ?c1"
      obtain ok c3 where lg: "login srv ?c2 = (ok, c3)" by (cases "login srv ?c2")
      have lu: "login_url ?c2 = login_url c" by (simp add: login_url_def clear_token_def)
      have conf: "is_configured ?c2 = is_configured c"
        by (simp add: clear_token_def is_configured_def)
      have s3: "sent c3 = sent c @ ?rq0 # (if is_configured c then [login_request ?c2] else [])"
        using login_sent [of srv ?c2] lg conf by (simp add: clear_token_def)
      have b3: "base_url c3 = base_url c"
        using login_keeps(1) [of srv ?c2] lg by (simp add: clear_token_def)
      have il: "is_login (login_url c) (login_request ?c2)"
        by (simp add: is_login_def login_request_fields lu)
      show ?thesis
      proof (cases ok)
        case False
        then have "?out = (Inr None, c3)" using s Reply True lg by simp
        then have "sent (snd ?out)
                     = sent c @ ?rq0 # (if is_configured c then [login_request ?c2] else []) \<and>
                   base_url (snd ?out) = base_url c"
          using s3 b3 by simp
        moreover have "transport_segment u (login_url c) payload
                         (?rq0 # (if is_configured c then [login_request ?c2] else []))"
          using il by (simp add: transport_segment_def post_request_fields)
        ultimately show ?thesis by blast
      next
        case ok: True
        let ?rq1 = "retry_request c3 POST u (Some payload) params"
        have c: "is_configured c" using login_fst_configured [of srv ?c2] lg ok conf by simp
        have "?out = lift_reply (send srv ?rq1 c3)" using s Reply True lg ok by simp
        then have "sent (snd ?out) = sent c @ [?rq0, login_request ?c2, ?rq1] \<and>
                   base_url (snd ?out) = base_url c"
          using s3 b3 c by (simp add: lift_reply_def send_def split: reply.splits)
        moreover have "transport_segment u (login_url c) payload [?rq0, login_request ?c2, ?rq1]"
          using il by (simp add: transport_segment_def post_request_fields)
        ultimately show ?thesis by blast
      qed
    qed
  qed
qed

lemma fetch_chunks_trace:
  "fetch_chunks srv chs c = (rs, c') \<Longrightarrow>
   base_url c' = base_url c \<and>
   (\<exists>segs. sent c' = sent c @ concat segs \<and> list_all2 (chunk_segment c) segs chs)"
proof (induction chs arbitrary: c rs c')
  case Nil
  then show ?case by simp
next
  case (Cons ch chs)
  obtain r c1 where f: "fetch_structures_batch srv (JList ch) c = (r, c1)"
    by (cases "fetch_structures_batch srv (JList ch) c")
  obtain rs1 c2 where g: "fetch_chunks srv chs c1 = (rs1, c2)"
    by (cases "fetch_chunks srv chs c1")
  from Cons.prems f g have c': "c' = c2" by simp
  have c1: "c1 = snd (request_with_retry srv POST (graphql_url c) None
                        (Some (graphql_payload (JList ch))) [] c)"
    using fetch_structures_batch_client [of srv ch c] f by simp
  from rwr_post_trace [of srv "graphql_url c" None "graphql_payload (JList ch)" "[]" c]
  obtain seg where seg: "sent c1 = sent c @ seg" "chunk_segment c seg ch"
    and b1: "base_url c1 = base_url c"
    unfolding c1 chunk_segment_def by blast
  from Cons.IH [OF g] obtain segs where b2: "base_url c2 = base_url c1"
    and segs: "sent c2 = sent c1 @ concat segs" "list_all2 (chunk_segment c1) segs chs"
    by blast
  have e: "chunk_segment c1 = chunk_segment c"
    using b1 by (simp add: chunk_segment_def graphql_url_def login_url_def fun_eq_iff)
  have "sent c' = sent c @ concat (seg # segs)" using c' seg segs by simp
  moreover have "list_all2 (chunk_segment c) (seg # segs) (ch # chs)"
    using seg segs e by simp
  ultimately show ?case using c' b1 b2 by metis
qed

lemma rwr_post_plain:
  assumes "never_unauthorized srv"
  shows "snd (request_with_retry srv POST u hauth payload params c)
           = c\<lparr>sent := sent c @ [first_request c POST u hauth payload params]\<rparr>"
proof -
  let ?rq0 = "first_request c POST u hauth payload params"
  note s = rwr_send [of POST srv u hauth payload params c, simplified Let_def]
  show ?thesis
  proof (cases "srv (length (sent c)) ?rq0")
    case NetError
    then show ?thesis using s by simp
  next
    case (Reply r)
    from assms have "case srv (length (sent c)) ?rq0 of NetError \<Rightarrow> True
                   | Reply r \<Rightarrow> status_code r \<noteq> 401 \<and> status_code r \<noteq> 403"
      unfolding never_unauthorized_def by blast
    with Reply have "\<not> (status_code r = 401 \<or> status_code r = 403)" by simp
    then show ?thesis using s Reply by simp
  qed
qed

lemma graphql_request_sent: "graphql_request (c\<lparr>sent := xs\<rparr>) ch = graphql_request c ch"
  by (simp add: graphql_request_def graphql_url_def first_request_def mk_request_def)

lemma fetch_chunks_plain:
  assumes "never_unauthorized srv"
  shows "snd (fetch_chunks srv chs c) = c\<lparr>sent := sent c @ map (graphql_request c) chs\<rparr>"
proof (induction chs arbitrary: c)
  case Nil
  then show ?case by simp
next
  case (Cons ch chs)
  obtain r c1 where f: "fetch_structures_batch srv (JList ch) c = (r, c1)"
    by (cases "fetch_structures_batch srv (JList ch) c")
  obtain rs1 c2 where g: "fetch_chunks srv chs c1 = (rs1, c2)"
    by (cases "fetch_chunks srv chs c1")
  have c1: "c1 = c\<lparr>sent := sent c @ [graphql_request c ch]\<rparr>"
    using fetch_structures_batch_client [of srv ch c] f
      rwr_post_plain [OF assms, of "graphql_url c" None "Some (graphql_payload (JList ch))" "[]" c]
    by (simp add: graphql_request_def)
  have "c2 = c1\<lparr>sent := sent c1 @ map (graphql_request c1) chs\<rparr>"
    using Cons.IH [of c1] g by simp
  then have "c2 = c\<lparr>sent := sent c @ graphql_request c ch # map (graphql_request c) chs\<rparr>"
    unfolding c1 by (simp add: graphql_request_sent)
  then show ?case using f g by simp
qed


text \<open>
  C2, as the code has it. For a list of \<open>n\<close> ids, \<open>n > 500\<close>, once the connection test has
  passed, \<^verbatim>\<open>get_structures_info\<close> issues one GraphQL call per consecutive chunk of 500
  ids, in order: \<open>ceil(n/500)\<close> calls, whose results are concatenated. The requests sent
  are, chunk after chunk, those of the chunk's call: the POST of the chunk's ids to
  \<^verbatim>\<open>/graphql\<close>, followed only when it was refused by a login and at most one repetition of
  that POST; when no response has status 401 or 403 they are exactly the \<open>ceil(n/500)\<close>
  POSTs. The records a single chunk contributes have pairwise different structure ids.
  When the server answers a query with records of the requested ids only, the result has
  at most \<open>n\<close> records, and it has no two records of one structure id when the ids of the
  input are pairwise different. Duplicates are removed within a chunk only.
\<close>

theorem get_structures_info_batches:
  assumes n: "batch_size < length ids" and conn: "test_connection srv c = (True, c1)"
  shows "\<exists>rs c2.
     fetch_chunks srv (chunks ids) c1 = (rs, c2) \<and>
     get_structures_info srv (JList ids) c = (concat rs, c2) \<and>
     chunks ids = map (\<lambda>k. slice ids (k * batch_size) (k * batch_size + batch_size))
                    [0..<(length ids + batch_size - 1) div batch_size] \<and>
     length rs = (length ids + batch_size - 1) div batch_size \<and>
     (\<exists>segs. sent c2 = sent c1 @ concat segs \<and>
             list_all2 (chunk_segment c1) segs (chunks ids)) \<and>
     (never_unauthorized srv \<longrightarrow> sent c2 = sent c1 @ map (graphql_request c1) (chunks ids)) \<and>
     (\<forall>r \<in> set rs. distinct (map sid_key r) \<and> None \<notin> set (map sid_key r)) \<and>
     (answers_requested srv \<longrightarrow>
        length (concat rs) \<le> length ids \<and>
        (distinct (map py_key ids) \<longrightarrow> distinct (map sid_key (concat rs))))"
proof -
  obtain rs c2 where f: "fetch_chunks srv (chunks ids) c1 = (rs, c2)"
    by (cases "fetch_chunks srv (chunks ids) c1")
  have g: "get_structures_info srv (JList ids) c = (concat rs, c2)"
    using n conn f batch_loop_chunks [of srv ids 0 "[]" c1]
    by (simp add: get_structures_info_def chunks_def)
  have ch: "chunks ids = map (\<lambda>k. slice ids (k * batch_size) (k * batch_size + batch_size))
                    [0..<(length ids + batch_size - 1) div batch_size]"
    by (simp add: chunks_def chunks_from_def)
  have cc: "concat (chunks ids) = ids"
    using concat_chunks_from [of ids 0] by (simp add: chunks_def)
  from fetch_chunks_each [OF f]
  have e: "length rs = (length ids + batch_size - 1) div batch_size"
    and d: "\<forall>r \<in> set rs. distinct (map sid_key r) \<and> None \<notin> set (map sid_key r)"
    by (simp_all add: length_chunks)
  have a: "length (concat rs) \<le> length ids \<and>
        (distinct (map py_key ids) \<longrightarrow> distinct (map sid_key (concat rs)))"
    if "answers_requested srv"
    using fetch_chunks_requested [OF that f] cc by simp
  from fetch_chunks_trace [OF f]
  have t: "\<exists>segs. sent c2 = sent c1 @ concat segs \<and>
             list_all2 (chunk_segment c1) segs (chunks ids)"
    by blast
  have p: "sent c2 = sent c1 @ map (graphql_request c1) (chunks ids)"
    if "never_unauthorized srv"
    using fetch_chunks_plain [OF that, of "chunks ids" c1] f by simp
  from f g ch e t p d a show ?thesis by blast
qed

lemma fetch_echo:
  "fst (fetch_structures_batch srv_echo (JList ch) c) =
     (case unique_structures (map record_of ch) {} [] of Inl e \<Rightarrow> [] | Inr u \<Rightarrow> u)"
  by (simp add: fetch_structures_batch_def request_with_retry_def send_def srv_echo_def
      requested_ids_def first_request_def mk_request_def graphql_payload_def ok_status_def
      resp_def batch_results_def split: sum.splits)

lemma unique_replicate_seen:
  "truthy v \<Longrightarrow> py_key v = Some k \<Longrightarrow> k \<in> seen \<Longrightarrow>
   unique_structures (replicate m (record_of v)) seen acc = Inr acc"
  by (induction m) (simp_all add: record_of_def py_get_def)

lemma unique_replicate:
  "truthy v \<Longrightarrow> py_key v = Some k \<Longrightarrow>
   unique_structures (replicate (Suc m) (record_of v)) {} [] = Inr [record_of v]"
  using unique_replicate_seen [of v k "{k}" m "[record_of v]"]
  by (simp add: record_of_def py_get_def)


lemma unique_replicate_pos:
  "0 < m \<Longrightarrow> truthy v \<Longrightarrow> py_key v = Some k \<Longrightarrow>
   unique_structures (replicate m (record_of v)) {} [] = Inr [record_of v]"
  using unique_replicate [of v k "m - 1"] by simp

lemma fetch_chunks_echo:
  "fst (fetch_chunks srv_echo chs c) =
     map (\<lambda>ch. case unique_structures (map record_of ch) {} [] of Inl e \<Rightarrow> [] | Inr u \<Rightarrow> u) chs"
proof (induction chs arbitrary: c)
  case Nil
  then show ?case by simp
next
  case (Cons ch chs)
  obtain r c1 where f: "fetch_structures_batch srv_echo (JList ch) c = (r, c1)"
    by (cases "fetch_structures_batch srv_echo (JList ch) c")
  obtain rs c2 where g: "fetch_chunks srv_echo chs c1 = (rs, c2)"
    by (cases "fetch_chunks srv_echo chs c1")
  show ?case
    using f g fetch_echo [of ch c] Cons.IH [of c1]
    by simp
qed

lemma chunks_ids_7: "chunks ids_7 = [replicate 500 (JNum 7), [JNum 7]]"
proof -
  have l: "length ids_7 = 501" by (simp add: ids_7_def)
  have a: "chunks_from ids_7 0 = slice ids_7 0 (0 + batch_size) # chunks_from ids_7 (0 + batch_size)"
    by (rule chunks_from_step) (simp add: l)
  have b: "chunks_from ids_7 batch_size
             = slice ids_7 batch_size (batch_size + batch_size) # chunks_from ids_7 (batch_size + batch_size)"
    by (rule chunks_from_step) (simp add: l batch_size_def)
  have c: "chunks_from ids_7 (batch_size + batch_size) = []"
    by (rule chunks_from_done) (simp add: l batch_size_def)
  show ?thesis
    using a b c by (simp add: chunks_def slice_def ids_7_def batch_size_def)
qed

lemma client0_connected: "test_connection srv client0 = (True, client0)"
  by (rule test_connection_token)
     (simp_all add: client0_def is_configured_def truthy_str_def)

lemma sid_key_record_of: "sid_key (record_of v) = (if truthy v then py_key v else None)"
  by (simp add: sid_key_def record_of_def py_get_def)

lemma srv_echo_answers_requested: "answers_requested srv_echo"
  unfolding answers_requested_def
proof (intro allI impI)
  fix i rq ids r data u
  assume rq: "req_json rq = Some (graphql_payload (JList ids))"
    and rep: "srv_echo i rq = Reply r"
    and js: "resp_json r = Some data"
    and br: "batch_results data = Inr u"
  have "requested_ids rq = Some ids"
    using rq by (simp add: requested_ids_def graphql_payload_def)
  with rep js have data:
    "data = JObj [(''data'', JObj [(''getStructuresInfo'', JList (map record_of ids))])]"
    by (auto simp add: srv_echo_def resp_def)
  with br have u: "unique_structures (map record_of ids) {} [] = Inr u"
    by (simp add: batch_results_def)
  from unique_structures_inv [OF u]
  have none: "None \<notin> set (map sid_key u)"
    and sub: "set (map sid_key u) \<subseteq> sid_key ` set (map record_of ids)"
    by simp_all
  show "sid_key ` set u \<subseteq> py_key ` set ids"
  proof
    fix k assume k: "k \<in> sid_key ` set u"
    with none have kn: "k \<noteq> None" by force
    from k sub obtain v where v: "v \<in> set ids" "k = sid_key (record_of v)" by auto
    with kn have "k = py_key v" by (simp add: sid_key_record_of split: if_splits)
    with v show "k \<in> py_key ` set ids" by blast
  qed
qed

lemma ids_upto_distinct: "distinct (map py_key ids_upto)"
  by (simp add: ids_upto_def distinct_map inj_on_def comp_def)

lemma unique_structures_fresh:
  "\<forall>v \<in> set ids. truthy v \<and> (\<exists>k. py_key v = Some k \<and> k \<notin> seen) \<Longrightarrow>
   distinct (map py_key ids) \<Longrightarrow>
   unique_structures (map record_of ids) seen acc = Inr (acc @ map record_of ids)"
proof (induction ids arbitrary: seen acc)
  case Nil
  then show ?case by simp
next
  case (Cons v ids)
  from Cons.prems(1) obtain k where k: "truthy v" "py_key v = Some k" "k \<notin> seen" by auto
  have a: "\<forall>w \<in> set ids. truthy w \<and> (\<exists>k'. py_key w = Some k' \<and> k' \<notin> insert k seen)"
  proof
    fix w assume w: "w \<in> set ids"
    with Cons.prems(1) obtain k' where k': "truthy w" "py_key w = Some k'" "k' \<notin> seen" by auto
    from Cons.prems(2) have "py_key v \<notin> py_key ` set ids" by simp
    with w have "py_key w \<noteq> py_key v" by (metis imageI)
    with k k' have "k' \<noteq> k" by simp
    with k' show "truthy w \<and> (\<exists>k'. py_key w = Some k' \<and> k' \<notin> insert k seen)" by simp
  qed
  have d: "distinct (map py_key ids)" using Cons.prems(2) by simp
  show ?case
    using Cons.IH [OF a d, of "acc @ [record_of v]"] k
    by (simp add: record_of_def py_get_def)
qed

lemma ids_upto_records:
  "unique_structures (map record_of ids_upto) {} [] = Inr (map record_of ids_upto)"
proof -
  have "\<forall>v \<in> set ids_upto. truthy v \<and> (\<exists>k. py_key v = Some k \<and> k \<notin> {})"
    by (auto simp add: ids_upto_def)
  from unique_structures_fresh [OF this ids_upto_distinct, of "[]"] show ?thesis by simp
qed

lemma fetch_flood:
  "fst (fetch_structures_batch srv_flood (JList ch) c) = map record_of ids_upto"
  by (simp add: fetch_structures_batch_def request_with_retry_def send_def srv_flood_def
      ok_status_def resp_def batch_results_def ids_upto_records
      del: unique_structures.simps)

lemma fetch_chunks_flood:
  "fst (fetch_chunks srv_flood chs c) = map (\<lambda>ch. map record_of ids_upto) chs"
proof (induction chs arbitrary: c)
  case Nil
  then show ?case by simp
next
  case (Cons ch chs)
  obtain r c1 where f: "fetch_structures_batch srv_flood (JList ch) c = (r, c1)"
    by (cases "fetch_structures_batch srv_flood (JList ch) c")
  obtain rs c2 where g: "fetch_chunks srv_flood chs c1 = (rs, c2)"
    by (cases "fetch_chunks srv_flood chs c1")
  show ?case
    using f g fetch_flood [of ch c] Cons.IH [of c1]
    by simp
qed

theorem cross_chunk_duplicates_counterexample:
  "batch_size < length ids_7 \<and>
   fst (get_structures_info srv_echo (JList ids_7) client0)
     = [record_of (JNum 7), record_of (JNum 7)] \<and>
   length ids_7 = 501 \<and>
   length (fst (get_structures_info srv_flood (JList ids_7) client0)) = 1002"
proof -
  have l: "length ids_7 = 501" by (simp add: ids_7_def)
  have u1: "unique_structures (replicate 500 (record_of (JNum 7))) {} [] = Inr [record_of (JNum 7)]"
    by (rule unique_replicate_pos [of _ _ "KNum 7"]) simp_all
  have u2: "unique_structures [record_of (JNum 7)] {} [] = Inr [record_of (JNum 7)]"
    by (simp add: record_of_def py_get_def)
  have g: "fst (get_structures_info srv (JList ids_7) client0)
          = concat (fst (fetch_chunks srv (chunks ids_7) client0))" for srv
    using batch_loop_chunks [of srv ids_7 0 "[]" client0]
    by (simp add: get_structures_info_def client0_connected l batch_size_def chunks_def)
  have "concat (fst (fetch_chunks srv_echo (chunks ids_7) client0))
          = [record_of (JNum 7), record_of (JNum 7)]"
    by (simp only: fetch_chunks_echo chunks_ids_7) (simp add: u1 u2 del: unique_structures.simps)
  then have a: "fst (get_structures_info srv_echo (JList ids_7) client0)
                  = [record_of (JNum 7), record_of (JNum 7)]"
    by (simp only: g)
  have lu: "length ids_upto = 501" by (simp add: ids_upto_def)
  have "length (concat (fst (fetch_chunks srv_flood (chunks ids_7) client0))) = 1002"
    by (simp only: fetch_chunks_flood chunks_ids_7) (simp add: lu)
  then have b: "length (fst (get_structures_info srv_flood (JList ids_7) client0)) = 1002"
    by (simp only: g)
  from a b l show ?thesis by (simp add: batch_size_def)
qed

lemma srv_echo_never_unauthorized: "never_unauthorized srv_echo"
  by (simp add: never_unauthorized_def srv_echo_def resp_def split: option.splits)

theorem get_structures_info_batches_witness:
  "batch_size < length ids_upto \<and>
   test_connection srv_echo client0 = (True, client0) \<and>
   answers_requested srv_echo \<and>
   never_unauthorized srv_echo \<and>
   distinct (map py_key ids_upto) \<and>
   length (chunks ids_upto) = 2 \<and>
   sent (snd (get_structures_info srv_echo (JList ids_upto) client0))
     = map (graphql_request client0) (chunks ids_upto) \<and>
   length (fst (get_structures_info srv_echo (JList ids_upto) client0)) \<le> length ids_upto \<and>
   distinct (map sid_key (fst (get_structures_info srv_echo (JList ids_upto) client0)))"
proof -
  have n: "batch_size < length ids_upto" by (simp add: ids_upto_def batch_size_def)
  have l: "length (chunks ids_upto) = 2"
    by (simp add: length_chunks ids_upto_def batch_size_def)
  have s0: "sent client0 = []" by (simp add: client0_def)
  from get_structures_info_batches [OF n client0_connected [of srv_echo]]
  obtain rs c2 where
    g: "get_structures_info srv_echo (JList ids_upto) client0 = (concat rs, c2)"
    and p: "never_unauthorized srv_echo \<longrightarrow>
              sent c2 = sent client0 @ map (graphql_request client0) (chunks ids_upto)"
    and a: "answers_requested srv_echo \<longrightarrow>
        length (concat rs) \<le> length ids_upto \<and>
        (distinct (map py_key ids_upto) \<longrightarrow> distinct (map sid_key (concat rs)))"
    by blast
  show ?thesis
    using n l g p a s0 client0_connected [of srv_echo] srv_echo_answers_requested
      srv_echo_never_unauthorized ids_upto_distinct
    by simp
qed

section \<open>Properties of the dialog\<close>

lemma four_slices:
  assumes "length t = 16"
  shows "slice t 0 4 @ slice t 4 8 @ slice t 8 12 @ slice t 12 16 = t"
proof -
  have a: "take 4 t @ drop 4 t = t" by (rule append_take_drop_id)
  have b: "take 4 (drop 4 t) @ drop 4 (drop 4 t) = drop 4 t" by (rule append_take_drop_id)
  have c: "take 4 (drop 8 t) @ drop 4 (drop 8 t) = drop 8 t" by (rule append_take_drop_id)
  have d: "take 4 (drop 12 t) = drop 12 t" using assms by simp
  have "slice t 0 4 @ slice t 4 8 @ slice t 8 12 @ slice t 12 16
          = take 4 t @ take 4 (drop 4 t) @ take 4 (drop 8 t) @ take 4 (drop 12 t)"
    by (simp add: slice_def)
  also have "\<dots> = take 4 t @ take 4 (drop 4 t) @ drop 8 t"
    using c d by simp
  also have "\<dots> = take 4 t @ drop 4 t" using b by simp
  also have "\<dots> = t" by (rule a)
  finally show ?thesis .
qed

text \<open>
  C8. For every flat list \<open>t\<close> of 16 values, the reshape of the project-structure merge
  makes of it the matrix of the four rows \<open>t[0:4]\<close>, \<open>t[4:8]\<close>, \<open>t[8:12]\<close>, \<open>t[12:16]\<close>,
  and the structure-loading path flattens that matrix back to \<open>t\<close>: reshaping, then
  flattening, is the identity. The merge applies this reshape to a project structure whose
  id has a detail record: the record is returned with \<^verbatim>\<open>TRANSFORM_MATRIX\<close> set to the
  reshaped \<^verbatim>\<open>ReferenceTransforms.transform\<close>. A structure without an id, or whose id has
  no detail record, is passed on unchanged.
\<close>

theorem transform_round_trip:
  assumes "length t = 16"
  shows "reshape_transform (JList t)
           = JList [JList (slice t 0 4), JList (slice t 4 8),
                    JList (slice t 8 12), JList (slice t 12 16)] \<and>
         export_transform (reshape_transform (JList t)) = t \<and>
         (get_or s [''STRUCTURE_ID'', ''structure_id''] = Inr structure_id \<and>
          truthy structure_id \<and> py_int structure_id = Inr n \<and>
          map_of details_map n = Some (JObj detail) \<and>
          py_get s ''ReferenceTransforms'' = Inr (JObj ref_transforms) \<and>
          map_of ref_transforms ''transform'' = Some (JList t)
          \<longrightarrow> merge_structure details_map s
                = Inr (JObj (AList.update ''TRANSFORM_MATRIX'' (reshape_transform (JList t))
                               detail))) \<and>
         (get_or s [''STRUCTURE_ID'', ''structure_id''] = Inr structure_id \<and>
          (\<not> truthy structure_id \<or> py_int structure_id = Inr n \<and> map_of details_map n = None)
          \<longrightarrow> merge_structure details_map s = Inr s)"
proof -
  have ne: "t \<noteq> []" using assms by auto
  have r: "reshape_transform (JList t)
           = JList [JList (slice t 0 4), JList (slice t 4 8),
                    JList (slice t 8 12), JList (slice t 12 16)]"
    using assms ne by (simp add: reshape_transform_def)
  have l: "length (slice t 0 4) = 4" "length (slice t 4 8) = 4"
          "length (slice t 8 12) = 4" "length (slice t 12 16) = 4"
    using assms by (simp_all add: slice_def)
  have f: "flatten_rows [JList (slice t 0 4), JList (slice t 4 8),
                    JList (slice t 8 12), JList (slice t 12 16)] []
             = Some (slice t 0 4 @ slice t 4 8 @ slice t 8 12 @ slice t 12 16)"
    using l by simp
  have e: "export_transform (reshape_transform (JList t)) = t"
    unfolding r export_transform_def
    using f four_slices [OF assms] assms ne by simp
  have m: "merge_structure details_map s
             = Inr (JObj (AList.update ''TRANSFORM_MATRIX'' (reshape_transform (JList t)) detail))"
    if h: "get_or s [''STRUCTURE_ID'', ''structure_id''] = Inr structure_id \<and>
          truthy structure_id \<and> py_int structure_id = Inr n \<and>
          map_of details_map n = Some (JObj detail) \<and>
          py_get s ''ReferenceTransforms'' = Inr (JObj ref_transforms) \<and>
          map_of ref_transforms ''transform'' = Some (JList t)"
  proof -
    from h have rt: "ref_transforms \<noteq> []" by auto
    from h have g: "py_get (JObj ref_transforms) ''transform'' = Inr (JList t)"
      by (simp add: py_get_def)
    have "reference_matrix s = Inr (reshape_transform (JList t))"
      using h rt g by (simp add: reference_matrix_def)
    with h show ?thesis by (simp add: merge_structure_def dict_set_def)
  qed
  have k: "merge_structure details_map s = Inr s"
    if h: "get_or s [''STRUCTURE_ID'', ''structure_id''] = Inr structure_id \<and>
          (\<not> truthy structure_id \<or> py_int structure_id = Inr n \<and> map_of details_map n = None)"
    using h by (auto simp add: merge_structure_def)
  from r e m k show ?thesis by blast
qed

theorem transform_round_trip_witness:
  "length identity_matrix = 16 \<and>
   reshape_transform (JList identity_matrix)
     = JList [JList (map JNum [1, 0, 0, 0]), JList (map JNum [0, 1, 0, 0]),
              JList (map JNum [0, 0, 1, 0]), JList (map JNum [0, 0, 0, 1])] \<and>
   export_transform (reshape_transform (JList identity_matrix)) = identity_matrix \<and>
   merge_structure [(101, JObj [(''structure_id'', JNum 101)])]
     (JObj [(''STRUCTURE_ID'', JNum 101),
            (''ReferenceTransforms'', JObj [(''transform'', JList identity_matrix)])])
     = Inr (JObj [(''structure_id'', JNum 101),
                  (''TRANSFORM_MATRIX'',
                   JList [JList (map JNum [1, 0, 0, 0]), JList (map JNum [0, 1, 0, 0]),
                          JList (map JNum [0, 0, 1, 0]), JList (map JNum [0, 0, 0, 1])])]) \<and>
   merge_structure [(101, JObj [(''structure_id'', JNum 101)])]
     (JObj [(''STRUCTURE_ID'', JNum 102),
            (''ReferenceTransforms'', JObj [(''transform'', JList identity_matrix)])])
     = Inr (JObj [(''STRUCTURE_ID'', JNum 102),
                  (''ReferenceTransforms'', JObj [(''transform'', JList identity_matrix)])])"
proof -
  let ?dm = "[(101::int, JObj [(''structure_id'', JNum 101)])]"
  let ?rt = "[(''transform'', JList identity_matrix)]"
  let ?s = "\<lambda>i. JObj [(''STRUCTURE_ID'', JNum i), (''ReferenceTransforms'', JObj ?rt)]"
  have l: "length identity_matrix = 16" by (simp add: identity_matrix_def)
  have s: "slice identity_matrix 0 4 = map JNum [1, 0, 0, 0]"
          "slice identity_matrix 4 8 = map JNum [0, 1, 0, 0]"
          "slice identity_matrix 8 12 = map JNum [0, 0, 1, 0]"
          "slice identity_matrix 12 16 = map JNum [0, 0, 0, 1]"
    by (simp_all add: identity_matrix_def slice_def)
  have g: "get_or (?s 101) [''STRUCTURE_ID'', ''structure_id''] = Inr (JNum 101)"
          "get_or (?s 102) [''STRUCTURE_ID'', ''structure_id''] = Inr (JNum 102)"
    by (simp_all add: get_or_def py_get_def)
  have a: "get_or (?s 101) [''STRUCTURE_ID'', ''structure_id''] = Inr (JNum 101) \<and>
          truthy (JNum 101) \<and> py_int (JNum 101) = Inr 101 \<and>
          map_of ?dm 101 = Some (JObj [(''structure_id'', JNum 101)]) \<and>
          py_get (?s 101) ''ReferenceTransforms'' = Inr (JObj ?rt) \<and>
          map_of ?rt ''transform'' = Some (JList identity_matrix)"
    by (simp add: g py_get_def)
  have b: "get_or (?s 102) [''STRUCTURE_ID'', ''structure_id''] = Inr (JNum 102) \<and>
          (\<not> truthy (JNum 102) \<or> py_int (JNum 102) = Inr 102 \<and> map_of ?dm 102 = None)"
    by (simp add: g)
  from transform_round_trip [OF l, of "?s 101" "JNum 101" 101 ?dm
      "[(''structure_id'', JNum 101)]" ?rt] a
  have c: "reshape_transform (JList identity_matrix)
           = JList [JList (slice identity_matrix 0 4), JList (slice identity_matrix 4 8),
                    JList (slice identity_matrix 8 12), JList (slice identity_matrix 12 16)]"
    "export_transform (reshape_transform (JList identity_matrix)) = identity_matrix"
    "merge_structure ?dm (?s 101)
       = Inr (JObj (AList.update ''TRANSFORM_MATRIX'' (reshape_transform (JList identity_matrix))
                      [(''structure_id'', JNum 101)]))"
    by blast+
  from transform_round_trip [OF l, of "?s 102" "JNum 102" 102 ?dm] b
  have d: "merge_structure ?dm (?s 102) = Inr (?s 102)" by blast
  show ?thesis
    using l c d unfolding s by simp
qed

lemma lower_3Decision: "str_lower ''3Decision'' = ''3decision''"
  by (simp add: str_lower_def lower_char_def char_of_eq_iff)

lemma lower_3decision: "str_lower ''3decision'' = ''3decision''"
  by (simp add: str_lower_def lower_char_def)

lemma lower_3DECISION: "str_lower ''3DECISION'' = ''3decision''"
  by (simp add: str_lower_def lower_char_def char_of_eq_iff)

lemma lower_Kinases: "str_lower ''Kinases'' = ''kinases''"
  by (simp add: str_lower_def lower_char_def char_of_eq_iff)

theorem filter_projects_literal_label_counterexample:
  "''3Decision'' \<noteq> ''3decision'' \<and>
   filter_projects [project ''3Decision''] [] = Inr [] \<and>
   filter_projects [named_project ''Kinases'' ''3decision''] [] = Inr []"
  by (simp add: project_def named_project_def lower_3Decision lower_3decision lower_Kinases)

lemma filter_projects_step:
  assumes "well_formed_project p"
  shows "filter_projects (p # rest) acc
           = filter_projects rest (if is_system_project p then acc else acc @ [p])"
proof -
  from assms obtain l n where
    l: "py_get_default p ''project_label'' (JStr []) = Inr (JStr l)" and
    n: "py_get_default p ''project_name'' (JStr []) = Inr (JStr n)"
    by (auto simp add: well_formed_project_def text_field_def split: sum.splits json.splits)
  have "is_system_project p = (str_lower l = ''3decision'' \<or> str_lower n = ''3decision'')"
    using l n by (simp add: is_system_project_def text_field_def)
  then show ?thesis using l n by simp
qed

text \<open>
  C9, as the code has it. The dialog filters the list that \<^verbatim>\<open>get_projects\<close> returned: of
  a list of projects whose label and name are strings or absent, it drops exactly those
  whose \<^verbatim>\<open>project_label\<close> or \<^verbatim>\<open>project_name\<close> is \<^verbatim>\<open>3decision\<close> once lower-cased, and
  keeps all others in their order.
\<close>

theorem filter_projects_keeps:
  assumes "\<forall>p \<in> set ps. well_formed_project p"
  shows "filter_projects ps acc = Inr (acc @ filter (\<lambda>p. \<not> is_system_project p) ps)"
  using assms
proof (induction ps arbitrary: acc)
  case Nil
  then show ?case by simp
next
  case (Cons p ps)
  then have w: "well_formed_project p" and r: "\<forall>q \<in> set ps. well_formed_project q"
    by simp_all
  show ?case
    unfolding filter_projects_step [OF w] Cons.IH [OF r]
    by simp
qed


theorem filter_projects_keeps_witness:
  "well_formed_project (project ''3decision'') \<and>
   well_formed_project (project ''Kinases'') \<and>
   well_formed_project (project ''3Decision'') \<and>
   is_system_project (project ''3decision'') \<and>
   filter_projects [project ''3decision'', project ''Kinases'', project ''3Decision''] []
     = Inr [project ''Kinases'']"
proof -
  have e: "str_lower [] = []" by (simp add: str_lower_def)
  have w: "well_formed_project (project l)" for l
    by (simp add: project_def well_formed_project_def text_field_def)
  have s: "is_system_project (project l) = (str_lower l = ''3decision'')" for l
    by (simp add: project_def is_system_project_def text_field_def e)
  have k: "\<not> is_system_project (project ''Kinases'')"
    by (simp add: s lower_Kinases)
  have "\<forall>p \<in> set [project ''3decision'', project ''Kinases'', project ''3Decision''].
          well_formed_project p"
    by (simp add: w)
  from filter_projects_keeps [OF this, of "[]"]
  have "filter_projects [project ''3decision'', project ''Kinases'', project ''3Decision''] []
          = Inr [project ''Kinases'']"
    by (simp add: s lower_Kinases lower_3Decision lower_3decision del: filter_projects.simps)
  then show ?thesis
    by (simp add: w s lower_3decision del: filter_projects.simps)
qed

section \<open>Properties of search polling\<close>

lemma rwr_plain:
  assumes "m = GET \<or> m = POST"
    and "srv (length (sent c)) (first_request c m url hauth jd params) = Reply r"
    and "status_code r \<noteq> 401" "status_code r \<noteq> 403"
  shows "request_with_retry srv m url hauth jd params c
           = (Inr (Some r), c\<lparr>sent := sent c @ [first_request c m url hauth jd params]\<rparr>)"
  using rwr_send [OF assms(1), of srv url hauth jd params c] assms(2-4)
  by (simp add: Let_def)

lemma connected_sent:
  "test_connection srv (c\<lparr>sent := xs\<rparr>) = (True, c\<lparr>sent := xs\<rparr>)"
  if "test_connection srv c = (True, c)" "truthy (token c)" "session_auth c \<noteq> None"
  using that by (simp add: test_connection_def is_configured_def split: if_splits)

lemma poll_decision_running: "poll_decision job_running = Inr (Finish (JList []))"
  by (simp add: poll_decision_def job_running_def extract_structure_ids_def py_eq_int_def
      py_gt_int_def is_empty_list_def)

lemma poll_decision_done_empty: "poll_decision job_done_empty = Inr (Finish (JList []))"
  by (simp add: poll_decision_def job_done_empty_def extract_structure_ids_def py_eq_int_def
      py_gt_int_def is_empty_list_def)

lemma srv_job_poll:
  "url \<noteq> [S ''http://h'', S ''/search/'', S ''ABL1''] \<Longrightarrow>
   srv_job job n (first_request c GET url None None []) = Reply (resp 200 [] (Some job))"
  by (simp add: srv_job_def first_request_def mk_request_def)

lemma get_job_status_srv_job:
  assumes "test_connection (srv_job job) c = (True, c)" "base_url c = Some ''http://h''"
  shows "get_job_status (srv_job job) q j c
           = (Inr (Some job), c\<lparr>sent := sent c @ [first_request c GET (job_url c q j) None None []]\<rparr>)"
proof -
  have u: "job_url c q j \<noteq> [S ''http://h'', S ''/search/'', S ''ABL1'']"
    by (simp add: job_url_def)
  have "request_with_retry (srv_job job) GET (job_url c q j) None None [] c
          = (Inr (Some (resp 200 [] (Some job))),
             c\<lparr>sent := sent c @ [first_request c GET (job_url c q j) None None []]\<rparr>)"
    by (rule rwr_plain) (simp_all add: srv_job_poll [OF u] resp_def)
  then show ?thesis
    using assms(1)
    by (simp add: get_job_status_def get_job_status_body_def ok_status_def resp_def
        except_return_def)
qed


lemma client0_sent_connected:
  "test_connection srv (client0\<lparr>sent := xs\<rparr>) = (True, client0\<lparr>sent := xs\<rparr>)"
  by (rule connected_sent) (simp_all add: client0_connected, simp_all add: client0_def)

lemma search_poll_srv_job_running:
  assumes "test_connection (srv_job job_running) c = (True, c)" "base_url c = Some ''http://h''"
  shows "search_poll (srv_job job_running) q j 0 c
           = (ResultsReady [],
              c\<lparr>sent := sent c @ [first_request c GET (job_url c q j) None None []]\<rparr>)"
  by (subst search_poll.simps)
     (simp add: max_attempts_search_def get_job_status_srv_job [OF assms]
        poll_decision_running emit_results_def, simp add: job_running_def)

lemma submit_search_srv_job_running:
  "\<exists>xs. submit_search (srv_job job_running) ''ABL1'' client0
     = (Inr (Some (JObj [(''id'', JNum 42), (''queue'', JStr ''basicSearch''),
                         (''status'', JStr ''running''), (''progress'', JNum 40),
                         (''polling_needed'', JBool True)])),
        client0\<lparr>sent := xs\<rparr>)"
proof -
  let ?u = "[S ''http://h'', S ''/search/'', S ''ABL1'']"
  let ?rq = "first_request client0 GET ?u None None []"
  let ?c1 = "client0\<lparr>sent := sent client0 @ [?rq]\<rparr>"
  have b: "fstr (base_url client0) = ''http://h''" by (simp add: client0_def fstr_def)
  have ok: "ok_status (resp 200 [] js)" for js by (simp add: ok_status_def resp_def)
  have j: "resp_json (resp 200 [] js) = js" for js by (simp add: resp_def)
  have r1: "request_with_retry (srv_job job_running) GET ?u None None [] client0
          = (Inr (Some (resp 200 [] (Some (JObj [(''id'', JNum 42)])))), ?c1)"
    by (rule rwr_plain) (simp_all add: srv_job_def first_request_def mk_request_def resp_def)
  let ?q = "job_url ?c1 (JStr ''basicSearch'') (JNum 42)"
  let ?rq2 = "first_request ?c1 GET ?q None None []"
  let ?c2 = "?c1\<lparr>sent := sent ?c1 @ [?rq2]\<rparr>"
  have u: "?q \<noteq> ?u" by (simp add: job_url_def)
  have r2: "request_with_retry (srv_job job_running) GET ?q None None [] ?c1
          = (Inr (Some (resp 200 [] (Some job_running))), ?c2)"
    by (rule rwr_plain) (simp_all add: srv_job_poll [OF u] resp_def)
  have q: "search_queue_result (srv_job job_running) (JNum 42) job_running c
             = (Inr (Some (JObj [(''id'', JNum 42), (''queue'', JStr ''basicSearch''),
                         (''status'', JStr ''running''), (''progress'', JNum 40),
                         (''polling_needed'', JBool True)])), c)" for c
    by (simp add: search_queue_result_def job_running_def py_get_def py_eq_int_def)
  have "submit_search (srv_job job_running) ''ABL1'' client0
     = (Inr (Some (JObj [(''id'', JNum 42), (''queue'', JStr ''basicSearch''),
                         (''status'', JStr ''running''), (''progress'', JNum 40),
                         (''polling_needed'', JBool True)])),
        client0\<lparr>sent := sent client0 @ [?rq, ?rq2]\<rparr>)"
    unfolding submit_search_def client0_connected submit_search_body_def b
    by (simp add: b r1 r2 q ok j py_get_def except_return_def)
  then show ?thesis by blast
qed

lemma poll_decision_complete_empty:
  assumes "py_get_default result ''progress'' (JNum 0) = Inr p" "py_eq_int p 100"
    and "extract_structure_ids result = Inr (JList [])"
  shows "poll_decision result = Inr (Finish (JList []))"
    and "emit_results srv (JList []) c = (ResultsReady [], c)"
  using assms by (simp_all add: poll_decision_def emit_results_def)

text \<open>
  C3. The claim takes a poll response for terminal when \<^verbatim>\<open>progress == 100\<close>, or when the
  \<^verbatim>\<open>STRUCTURE_ID\<close> list is present and empty while \<^verbatim>\<open>progress > 0\<close>. The loop of
  \<^verbatim>\<open>SearchThread.run\<close> starts from \<^verbatim>\<open>structure_ids = []\<close>, so a response without any
  \<^verbatim>\<open>returnvalue\<close> passes for an empty list: against a server whose job stays at
  progress 40 with no results yet, the search ends at the first poll of the loop and
  emits an empty result list.
\<close>

theorem search_ends_on_running_job:
  "fst (run (srv_job job_running) ''ABL1'' client0) = ResultsReady []"
proof -
  from submit_search_srv_job_running obtain xs where
    s: "submit_search (srv_job job_running) ''ABL1'' client0
     = (Inr (Some (JObj [(''id'', JNum 42), (''queue'', JStr ''basicSearch''),
                         (''status'', JStr ''running''), (''progress'', JNum 40),
                         (''polling_needed'', JBool True)])),
        client0\<lparr>sent := xs\<rparr>)" ..
  have p: "fst (search_poll (srv_job job_running) (JStr ''basicSearch'') (JNum 42) 0
                 (client0\<lparr>sent := xs\<rparr>)) = ResultsReady []"
    by (subst search_poll_srv_job_running)
       (simp_all add: client0_sent_connected, simp add: client0_def)
  obtain sg c3 where sp: "search_poll (srv_job job_running) (JStr ''basicSearch'') (JNum 42) 0
                 (client0\<lparr>sent := xs\<rparr>) = (sg, c3)"
    by (cases "search_poll (srv_job job_running) (JStr ''basicSearch'') (JNum 42) 0
                 (client0\<lparr>sent := xs\<rparr>)")
  with p have sg: "sg = ResultsReady []" by simp
  show ?thesis
    unfolding run_def s
    by (simp add: run_dispatch_def py_get_def sp sg)
qed


section \<open>Properties of the export polling loops\<close>

lemma poll_request_upd [simp]:
  "poll_request (c\<lparr>sent := xs\<rparr>) u = poll_request c u"
  "poll_request (c\<lparr>slept := n\<rparr>) u = poll_request c u"
  by (simp_all add: poll_request_def first_request_def mk_request_def)

lemma pending_not_auth:
  "pending_response r \<Longrightarrow> status_code r \<noteq> 401 \<and> status_code r \<noteq> 403 \<and> ok_status r"
  by (auto simp add: pending_response_def ok_status_def)

lemma poll_pending:
  assumes "\<forall>n rq. req_url rq = u \<longrightarrow> (\<exists>r. srv n rq = Reply r \<and> pending_response r)"
  shows "\<exists>r. request_with_retry srv GET u None None [] c
               = (Inr (Some r), c\<lparr>sent := sent c @ [poll_request c u]\<rparr>) \<and> pending_response r"
proof -
  have "req_url (poll_request c u) = u"
    by (simp add: poll_request_def first_request_def mk_request_def)
  with assms obtain r where r: "srv (length (sent c)) (poll_request c u) = Reply r"
    and p: "pending_response r" by blast
  have "request_with_retry srv GET u None None [] c
          = (Inr (Some r), c\<lparr>sent := sent c @ [first_request c GET u None None []]\<rparr>)"
    by (rule rwr_plain) (use r p pending_not_auth in \<open>simp_all add: poll_request_def\<close>)
  with p show ?thesis by (simp add: poll_request_def)
qed

lemma export_poll_pending:
  assumes pend: "\<forall>n rq. req_url rq = u \<longrightarrow> (\<exists>r. srv n rq = Reply r \<and> pending_response r)"
  shows "k = max_attempts - attempt \<Longrightarrow> attempt \<le> max_attempts \<Longrightarrow>
         export_poll srv p ev u attempt c = (Inr None, polled k (2 * k) u c)"
proof (induction k arbitrary: attempt c)
  case 0
  then have "\<not> attempt < max_attempts" by simp
  then show ?case
    by (subst export_poll.simps) (simp add: polled_def)
next
  case (Suc k)
  then have lt: "attempt < max_attempts" and k: "k = max_attempts - (attempt + 1)"
    and le: "attempt + 1 \<le> max_attempts" by simp_all
  from poll_pending [OF pend, of c] obtain r where
    rw: "request_with_retry srv GET u None None [] c
               = (Inr (Some r), c\<lparr>sent := sent c @ [poll_request c u]\<rparr>)"
    and pr: "pending_response r" by blast
  from pr obtain dd st where ok: "ok_status r" and js: "resp_json r = Some dd"
    and st: "py_get dd ''state'' = Inr st" "st \<noteq> JStr ''success''" "st \<noteq> JStr ''failed''"
    by (auto simp add: pending_response_def split: option.splits sum.splits)
  have "export_poll srv p ev u attempt c
          = export_poll srv p ev u (attempt + 1) (sleep2 (c\<lparr>sent := sent c @ [poll_request c u]\<rparr>))"
    by (subst export_poll.simps) (simp add: lt rw ok js st)
  also have "\<dots> = (Inr None, polled k (2 * k) u (sleep2 (c\<lparr>sent := sent c @ [poll_request c u]\<rparr>)))"
    by (rule Suc.IH [OF k le])
  also have "polled k (2 * k) u (sleep2 (c\<lparr>sent := sent c @ [poll_request c u]\<rparr>))
               = polled (Suc k) (2 * Suc k) u c"
    by (simp add: polled_def sleep2_def)
  finally show ?case .
qed


lemma batch_poll_pending:
  assumes pend: "\<forall>n rq. req_url rq = u \<longrightarrow> (\<exists>r. srv n rq = Reply r \<and> pending_response r)"
  shows "k = max_attempts - attempt \<Longrightarrow> attempt \<le> max_attempts \<Longrightarrow>
         batch_poll srv items ev u attempt c = (Inr None, polled k (2 * (k - 1)) u c)"
proof (induction k arbitrary: attempt c)
  case 0
  then have "\<not> attempt < max_attempts" by simp
  then show ?case
    by (subst batch_poll.simps) (simp add: polled_def)
next
  case (Suc k)
  then have lt: "attempt < max_attempts" and k: "k = max_attempts - (attempt + 1)"
    and le: "attempt + 1 \<le> max_attempts" by simp_all
  let ?c1 = "c\<lparr>sent := sent c @ [poll_request c u]\<rparr>"
  from poll_pending [OF pend, of c] obtain r where
    rw: "request_with_retry srv GET u None None [] c = (Inr (Some r), ?c1)"
    and pr: "pending_response r" by blast
  from pr obtain dd st where ok: "ok_status r" and js: "resp_json r = Some dd"
    and st: "py_get dd ''state'' = Inr st" "st \<noteq> JStr ''success''" "st \<noteq> JStr ''failed''"
    by (auto simp add: pending_response_def split: option.splits sum.splits)
  have bs: "batch_step srv items ev r ?c1 = (Inr Continue, ?c1)"
    by (simp add: batch_step_def js st)
  have "batch_poll srv items ev u attempt c
          = batch_poll srv items ev u (attempt + 1) (next_attempt attempt ?c1)"
    by (subst batch_poll.simps) (simp add: lt rw ok bs)
  also have "\<dots> = (Inr None, polled k (2 * (k - 1)) u (next_attempt attempt ?c1))"
    by (rule Suc.IH [OF k le])
  also have "polled k (2 * (k - 1)) u (next_attempt attempt ?c1)
               = polled (Suc k) (2 * (Suc k - 1)) u c"
  proof (cases k)
    case 0
    with k have "\<not> attempt + 1 < max_attempts" by simp
    with 0 show ?thesis by (simp add: polled_def next_attempt_def)
  next
    case (Suc j)
    with k have "attempt + 1 < max_attempts" by simp
    with Suc show ?thesis by (simp add: polled_def next_attempt_def sleep2_def)
  qed
  finally show ?case .
qed

lemma connected_again:
  assumes "test_connection srv c = (True, c1)"
  shows "test_connection srv c1 = (True, c1)" "is_authenticated srv c1 = (True, c1)"
        "is_configured c1"
proof -
  have conf: "is_configured c" using assms by (simp add: test_connection_def split: if_splits)
  have "is_configured c1 \<and> truthy (token c1) \<and> session_auth c1 \<noteq> None"
  proof (cases "truthy (token c) \<and> session_auth c \<noteq> None")
    case True
    with assms conf show ?thesis by (simp add: test_connection_def)
  next
    case False
    with assms conf have l: "login srv c = (True, c1)"
      by (simp add: test_connection_def split: if_splits)
    from login_ok [of srv c] login_keeps [of srv c] l conf
    show ?thesis by (simp add: is_configured_def)
  qed
  then show "test_connection srv c1 = (True, c1)" "is_authenticated srv c1 = (True, c1)"
        "is_configured c1"
    by (simp_all add: test_connection_def is_authenticated_def)
qed


lemma export_accepted_D:
  "export_accepted rc ev c2 \<Longrightarrow>
   \<exists>r. rc = (Inr (Some r), c2) \<and> ok_status r \<and> str_strip (resp_text r) = ev \<and> ev \<noteq> []"
  by (auto simp add: export_accepted_def split: prod.splits sum.splits option.splits)

lemma export_submitted_pending:
  assumes pend: "\<forall>n rq. req_url rq = domain_events_url c2 ev \<longrightarrow>
                   (\<exists>r. srv n rq = Reply r \<and> pending_response r)"
    and acc: "export_accepted rc ev c2"
  shows "export_submitted srv p rc = (Inr None, polled 30 60 (domain_events_url c2 ev) c2)"
proof -
  from export_accepted_D [OF acc] obtain r where
    rc: "rc = (Inr (Some r), c2)" and ok: "ok_status r"
    and ev: "str_strip (resp_text r) = ev" "ev \<noteq> []" by blast
  have "export_poll srv p ev (domain_events_url c2 ev) 0 c2
          = (Inr None, polled 30 (2 * 30) (domain_events_url c2 ev) c2)"
    by (rule export_poll_pending [OF pend]) (simp_all add: max_attempts_def)
  then show ?thesis
    by (simp add: export_submitted_def rc ok ev Let_def)
qed

text \<open>
  C4. When every poll of the domain-event resource is answered in a state that is
  neither \<^verbatim>\<open>success\<close> nor \<^verbatim>\<open>failed\<close>, each export flow, once its export request has been
  accepted, polls exactly 30 times and returns \<^verbatim>\<open>None\<close>: there is no 31st poll.
  \<^verbatim>\<open>export_structure_pdb\<close> and \<^verbatim>\<open>download_structures_zip\<close> (and so the ZIP path of
  \<^verbatim>\<open>export_structures_with_transforms\<close>) sleep 2 seconds after each of the 30 polls; the
  single-structure path of \<^verbatim>\<open>export_structures_with_transforms\<close> sleeps 2 seconds
  between polls, 29 times.
\<close>

theorem export_polling_times_out:
  assumes pend: "\<forall>n rq. req_url rq = domain_events_url c2 ev \<longrightarrow>
                   (\<exists>r. srv n rq = Reply r \<and> pending_response r)"
  shows
   "(test_connection srv c = (True, c1) \<and> py_int structure_id = Inr n \<and>
     export_accepted
       (request_with_retry srv POST (export_url c1) None
          (Some (JObj [(''structures_id'', JList [JNum (of_int n)])]))
          [(''output_format'', JStr ''structures-pdb-txt'')] c1) ev c2
     \<longrightarrow> export_structure_pdb srv structure_id c
           = (Inr None, polled 30 60 (domain_events_url c2 ev) c2)) \<and>
    (is_authenticated srv c = (True, c1) \<and>
     export_accepted
       (request_with_retry srv POST (export_url c1) (Some (Bearer (token c1)))
          (Some (zip_payload structure_ids matrices))
          [(''output_format'', JStr ''structures-pdb-zip'')] c1) ev c2
     \<longrightarrow> download_structures_zip srv structure_ids matrices c
           = (Inr None, polled 30 60 (domain_events_url c2 ev) c2)) \<and>
    (test_connection srv c = (True, c1) \<and> length items \<le> 1 \<and>
     single_payload items = Inr payload \<and>
     export_accepted
       (request_with_retry srv POST (export_url c1) None (Some payload)
          [(''output_format'', JStr ''structures-pdb-txt'')] c1) ev c2
     \<longrightarrow> export_structures_with_transforms srv open_zip decode items c
           = (Inr None, polled 30 58 (domain_events_url c2 ev) c2)) \<and>
    (test_connection srv c = (True, c1) \<and> 1 < length items \<and>
     map_exn matrix_entry items = Inr ms \<and>
     map_exn (\<lambda>item. py_index_key item ''structure_id'') items = Inr ids \<and>
     export_accepted
       (request_with_retry srv POST (export_url c1) (Some (Bearer (token c1)))
          (Some (zip_payload (JList ids) (JList ms)))
          [(''output_format'', JStr ''structures-pdb-zip'')] c1) ev c2
     \<longrightarrow> export_structures_with_transforms srv open_zip decode items c
           = (Inr None, polled 30 60 (domain_events_url c2 ev) c2))"
proof (intro conjI impI)
  assume a: "test_connection srv c = (True, c1) \<and> py_int structure_id = Inr n \<and>
     export_accepted
       (request_with_retry srv POST (export_url c1) None
          (Some (JObj [(''structures_id'', JList [JNum (of_int n)])]))
          [(''output_format'', JStr ''structures-pdb-txt'')] c1) ev c2"
  then show "export_structure_pdb srv structure_id c
           = (Inr None, polled 30 60 (domain_events_url c2 ev) c2)"
    using export_submitted_pending [OF pend, of _ resp_text]
    by (simp add: export_structure_pdb_def export_structure_pdb_body_def except_return_def)
next
  assume a: "is_authenticated srv c = (True, c1) \<and>
     export_accepted
       (request_with_retry srv POST (export_url c1) (Some (Bearer (token c1)))
          (Some (zip_payload structure_ids matrices))
          [(''output_format'', JStr ''structures-pdb-zip'')] c1) ev c2"
  then show "download_structures_zip srv structure_ids matrices c
           = (Inr None, polled 30 60 (domain_events_url c2 ev) c2)"
    using export_submitted_pending [OF pend, of _ resp_content]
    by (simp add: download_structures_zip_def download_structures_zip_body_def except_return_def)
next
  assume a: "test_connection srv c = (True, c1) \<and> length items \<le> 1 \<and>
     single_payload items = Inr payload \<and>
     export_accepted
       (request_with_retry srv POST (export_url c1) None (Some payload)
          [(''output_format'', JStr ''structures-pdb-txt'')] c1) ev c2"
  from a export_accepted_D obtain r where
    rc: "request_with_retry srv POST (export_url c1) None (Some payload)
          [(''output_format'', JStr ''structures-pdb-txt'')] c1 = (Inr (Some r), c2)"
    and ok: "ok_status r" and ev: "str_strip (resp_text r) = ev" "ev \<noteq> []" by blast
  have bp: "batch_poll srv items ev (domain_events_url c2 ev) 0 c2
          = (Inr None, polled 30 (2 * (30 - 1)) (domain_events_url c2 ev) c2)"
    by (rule batch_poll_pending [OF pend]) (simp_all add: max_attempts_def)
  have "export_single srv items c1 = (Inr None, polled 30 58 (domain_events_url c2 ev) c2)"
    using a bp by (simp add: export_single_def rc ok ev Let_def)
  with a show "export_structures_with_transforms srv open_zip decode items c
           = (Inr None, polled 30 58 (domain_events_url c2 ev) c2)"
    by (simp add: export_structures_with_transforms_def except_return_def)
next
  assume a: "test_connection srv c = (True, c1) \<and> 1 < length items \<and>
     map_exn matrix_entry items = Inr ms \<and>
     map_exn (\<lambda>item. py_index_key item ''structure_id'') items = Inr ids \<and>
     export_accepted
       (request_with_retry srv POST (export_url c1) (Some (Bearer (token c1)))
          (Some (zip_payload (JList ids) (JList ms)))
          [(''output_format'', JStr ''structures-pdb-zip'')] c1) ev c2"
  then have auth: "is_authenticated srv c1 = (True, c1)"
    using connected_again(2) by blast
  have "download_structures_zip srv (JList ids) (JList ms) c1
          = (Inr None, polled 30 60 (domain_events_url c2 ev) c2)"
    using a auth export_submitted_pending [OF pend, of _ resp_content]
    by (simp add: download_structures_zip_def download_structures_zip_body_def except_return_def)
  then have "export_zip srv open_zip decode items c1
          = (Inr None, polled 30 60 (domain_events_url c2 ev) c2)"
    using a by (simp add: export_zip_def)
  with a show "export_structures_with_transforms srv open_zip decode items c
           = (Inr None, polled 30 60 (domain_events_url c2 ev) c2)"
    by (simp add: export_structures_with_transforms_def except_return_def)
qed


lemma strip_ev1: "str_strip ''ev1'' = ''ev1''"
  by (simp add: str_strip_def is_space_def)

lemma srv_export_accepts:
  "export_accepted
     (request_with_retry (srv_export ev) POST (export_url client0) None
        (Some (JObj [(''structures_id'', JList [JNum 101])]))
        [(''output_format'', JStr ''structures-pdb-txt'')] client0)
     ''ev1'' (client0\<lparr>sent := [pdb_request]\<rparr>)"
proof -
  have "request_with_retry (srv_export ev) POST (export_url client0) None
        (Some (JObj [(''structures_id'', JList [JNum 101])]))
        [(''output_format'', JStr ''structures-pdb-txt'')] client0
      = (Inr (Some (resp 200 ''ev1'' None)), client0\<lparr>sent := sent client0 @ [pdb_request]\<rparr>)"
    unfolding pdb_request_def
    by (rule rwr_plain)
       (simp_all add: srv_export_def first_request_def mk_request_def export_url_def
          client0_def fstr_def resp_def)
  moreover have "sent client0 = []" by (simp add: client0_def)
  ultimately show ?thesis
    by (simp add: export_accepted_def ok_status_def resp_def strip_ev1)
qed

lemma srv_export_pending:
  "\<forall>n rq. req_url rq = domain_events_url (client0\<lparr>sent := [pdb_request]\<rparr>) ''ev1'' \<longrightarrow>
     (\<exists>r. srv_export event_pending n rq = Reply r \<and> pending_response r)"
  by (simp add: srv_export_def domain_events_url_def client0_def fstr_def pending_response_def
      ok_status_def resp_def event_pending_def py_get_def)

theorem export_polling_times_out_witness:
  "test_connection (srv_export event_pending) client0 = (True, client0) \<and>
   py_int (JNum 101) = Inr 101 \<and>
   fst (export_structure_pdb (srv_export event_pending) (JNum 101) client0) = Inr None \<and>
   length (sent (snd (export_structure_pdb (srv_export event_pending) (JNum 101) client0))) = 31 \<and>
   slept (snd (export_structure_pdb (srv_export event_pending) (JNum 101) client0)) = 60"
proof -
  have i: "py_int (JNum 101) = Inr 101" by simp
  from export_polling_times_out [OF srv_export_pending,
      of client0 client0 "JNum 101" 101]
  have "export_structure_pdb (srv_export event_pending) (JNum 101) client0
          = (Inr None, polled 30 60
               (domain_events_url (client0\<lparr>sent := [pdb_request]\<rparr>) ''ev1'')
               (client0\<lparr>sent := [pdb_request]\<rparr>))"
    using client0_connected [of "srv_export event_pending"] i
      srv_export_accepts [of event_pending]
    by simp
  then show ?thesis
    using client0_connected [of "srv_export event_pending"]
    by (simp add: polled_def client0_def)
qed


subsection \<open>Exports that succeed in part\<close>

lemma poll_at:
  assumes "srv (length (sent c)) (poll_request c u) = Reply r" "ok_status r"
  shows "request_with_retry srv GET u None None [] c
           = (Inr (Some r), c\<lparr>sent := sent c @ [poll_request c u]\<rparr>)"
  unfolding poll_request_def
  by (rule rwr_plain) (use assms in \<open>auto simp add: poll_request_def ok_status_def\<close>)

lemma partial_failure_D:
  assumes "partial_failure_response r"
  shows "\<exists>dd content x xs. ok_status r \<and> resp_json r = Some dd \<and>
           py_get dd ''state'' = Inr (JStr ''success'') \<and>
           export_errors dd = Inr (content, JList (x # xs))"
proof -
  from assms obtain dd where ok: "ok_status r" and js: "resp_json r = Some dd"
    and st: "py_get dd ''state'' = Inr (JStr ''success'')"
    and e: "(case export_errors dd of Inr (content, JList ne) \<Rightarrow> ne \<noteq> [] | _ \<Rightarrow> False)"
    by (auto simp add: partial_failure_response_def split: option.splits)
  from e obtain content ne where "export_errors dd = Inr (content, JList ne)" "ne \<noteq> []"
    by (auto split: sum.splits prod.splits json.splits)
  then obtain x xs where "export_errors dd = Inr (content, JList (x # xs))"
    by (cases ne) auto
  with ok js st show ?thesis by blast
qed

lemma export_success_partial:
  assumes "export_errors dd = Inr (content, JList (x # xs))"
  shows "\<exists>res. export_success srv p ev dd c = (res, c) \<and> (res = Inr None \<or> (\<exists>e. res = Inl e))"
  using assms by (simp add: export_success_def split: sum.splits)

lemma export_poll_partial:
  assumes fail: "partial_failure_response rf"
  shows "attempt + k < max_attempts \<Longrightarrow>
         \<forall>i<k. \<exists>r. srv (length (sent c) + i) (poll_request c u) = Reply r \<and> pending_response r \<Longrightarrow>
         srv (length (sent c) + k) (poll_request c u) = Reply rf \<Longrightarrow>
         \<exists>res. export_poll srv p ev u attempt c = (res, polled (Suc k) (2 * k) u c) \<and>
               (res = Inr None \<or> (\<exists>e. res = Inl e))"
proof (induction k arbitrary: attempt c)
  case 0
  from partial_failure_D [OF fail] obtain dd content x xs where
    ok: "ok_status rf" and js: "resp_json rf = Some dd"
    and st: "py_get dd ''state'' = Inr (JStr ''success'')"
    and e: "export_errors dd = Inr (content, JList (x # xs))" by blast
  let ?c1 = "c\<lparr>sent := sent c @ [poll_request c u]\<rparr>"
  have rw: "request_with_retry srv GET u None None [] c = (Inr (Some rf), ?c1)"
    by (rule poll_at) (use 0 ok in simp_all)
  from export_success_partial [OF e, of srv p ev ?c1] obtain res where
    s: "export_success srv p ev dd ?c1 = (res, ?c1)" and r: "res = Inr None \<or> (\<exists>e. res = Inl e)"
    by blast
  have "export_poll srv p ev u attempt c = (res, ?c1)"
    using 0 by (subst export_poll.simps) (simp add: rw ok js st s)
  moreover have "?c1 = polled (Suc 0) (2 * 0) u c" by (simp add: polled_def)
  ultimately show ?case using r by simp
next
  case (Suc k)
  let ?c1 = "c\<lparr>sent := sent c @ [poll_request c u]\<rparr>"
  from Suc.prems(2) obtain r where r: "srv (length (sent c)) (poll_request c u) = Reply r"
    and pr: "pending_response r" by force
  from pr obtain dd st where ok: "ok_status r" and js: "resp_json r = Some dd"
    and st: "py_get dd ''state'' = Inr st" "st \<noteq> JStr ''success''" "st \<noteq> JStr ''failed''"
    by (auto simp add: pending_response_def split: option.splits sum.splits)
  have rw: "request_with_retry srv GET u None None [] c = (Inr (Some r), ?c1)"
    by (rule poll_at) (use r ok in simp_all)
  have step: "export_poll srv p ev u attempt c = export_poll srv p ev u (attempt + 1) (sleep2 ?c1)"
    using Suc.prems(1) by (subst export_poll.simps) (simp add: rw ok js st)
  have a: "attempt + 1 + k < max_attempts" using Suc.prems(1) by simp
  have b: "\<forall>i<k. \<exists>r. srv (length (sent (sleep2 ?c1)) + i) (poll_request (sleep2 ?c1) u) = Reply r
              \<and> pending_response r"
  proof (intro allI impI)
    fix i assume "i < k"
    then have "Suc i < Suc k" by simp
    with Suc.prems(2) obtain r where
      "srv (length (sent c) + Suc i) (poll_request c u) = Reply r \<and> pending_response r" by blast
    then show "\<exists>r. srv (length (sent (sleep2 ?c1)) + i) (poll_request (sleep2 ?c1) u) = Reply r
              \<and> pending_response r"
      by (simp add: sleep2_def)
  qed
  have c: "srv (length (sent (sleep2 ?c1)) + k) (poll_request (sleep2 ?c1) u) = Reply rf"
    using Suc.prems(3) by (simp add: sleep2_def)
  from Suc.IH [OF a b c] obtain res where
    "export_poll srv p ev u (attempt + 1) (sleep2 ?c1) = (res, polled (Suc k) (2 * k) u (sleep2 ?c1))"
    and res: "res = Inr None \<or> (\<exists>e. res = Inl e)" by blast
  moreover have "polled (Suc k) (2 * k) u (sleep2 ?c1) = polled (Suc (Suc k)) (2 * Suc k) u c"
    by (simp add: polled_def sleep2_def)
  ultimately show ?case using step by simp
qed


lemma batch_poll_partial:
  assumes fail: "partial_failure_response rf"
  shows "attempt + k < max_attempts \<Longrightarrow>
         \<forall>i<k. \<exists>r. srv (length (sent c) + i) (poll_request c u) = Reply r \<and> pending_response r \<Longrightarrow>
         srv (length (sent c) + k) (poll_request c u) = Reply rf \<Longrightarrow>
         batch_poll srv items ev u attempt c = (Inr None, polled (Suc k) (2 * k) u c)"
proof (induction k arbitrary: attempt c)
  case 0
  from partial_failure_D [OF fail] obtain dd content x xs where
    ok: "ok_status rf" and js: "resp_json rf = Some dd"
    and st: "py_get dd ''state'' = Inr (JStr ''success'')"
    and e: "export_errors dd = Inr (content, JList (x # xs))" by blast
  let ?c1 = "c\<lparr>sent := sent c @ [poll_request c u]\<rparr>"
  have rw: "request_with_retry srv GET u None None [] c = (Inr (Some rf), ?c1)"
    by (rule poll_at) (use 0 ok in simp_all)
  have bs: "batch_step srv items ev rf ?c1 = (Inr (Return None), ?c1)"
    by (simp add: batch_step_def js st e)
  have "batch_poll srv items ev u attempt c = (Inr None, ?c1)"
    using 0 by (subst batch_poll.simps) (simp add: rw ok bs)
  moreover have "?c1 = polled (Suc 0) (2 * 0) u c" by (simp add: polled_def)
  ultimately show ?case by simp
next
  case (Suc k)
  let ?c1 = "c\<lparr>sent := sent c @ [poll_request c u]\<rparr>"
  from Suc.prems(2) obtain r where r: "srv (length (sent c)) (poll_request c u) = Reply r"
    and pr: "pending_response r" by force
  from pr obtain dd st where ok: "ok_status r" and js: "resp_json r = Some dd"
    and st: "py_get dd ''state'' = Inr st" "st \<noteq> JStr ''success''" "st \<noteq> JStr ''failed''"
    by (auto simp add: pending_response_def split: option.splits sum.splits)
  have rw: "request_with_retry srv GET u None None [] c = (Inr (Some r), ?c1)"
    by (rule poll_at) (use r ok in simp_all)
  have bs: "batch_step srv items ev r ?c1 = (Inr Continue, ?c1)"
    by (simp add: batch_step_def js st)
  have na: "next_attempt attempt ?c1 = sleep2 ?c1"
    using Suc.prems(1) by (simp add: next_attempt_def)
  have step: "batch_poll srv items ev u attempt c
                = batch_poll srv items ev u (attempt + 1) (sleep2 ?c1)"
    using Suc.prems(1) by (subst batch_poll.simps) (simp add: rw ok bs na)
  have a: "attempt + 1 + k < max_attempts" using Suc.prems(1) by simp
  have b: "\<forall>i<k. \<exists>r. srv (length (sent (sleep2 ?c1)) + i) (poll_request (sleep2 ?c1) u) = Reply r
              \<and> pending_response r"
  proof (intro allI impI)
    fix i assume "i < k"
    then have "Suc i < Suc k" by simp
    with Suc.prems(2) obtain r where
      "srv (length (sent c) + Suc i) (poll_request c u) = Reply r \<and> pending_response r" by blast
    then show "\<exists>r. srv (length (sent (sleep2 ?c1)) + i) (poll_request (sleep2 ?c1) u) = Reply r
              \<and> pending_response r"
      by (simp add: sleep2_def)
  qed
  have c: "srv (length (sent (sleep2 ?c1)) + k) (poll_request (sleep2 ?c1) u) = Reply rf"
    using Suc.prems(3) by (simp add: sleep2_def)
  have "polled (Suc k) (2 * k) u (sleep2 ?c1) = polled (Suc (Suc k)) (2 * Suc k) u c"
    by (simp add: polled_def sleep2_def)
  with Suc.IH [OF a b c] step show ?case by simp
qed

lemma export_submitted_partial:
  assumes fail: "partial_failure_response rf" and k: "k < 30"
    and pend: "\<forall>i<k. \<exists>r. srv (length (sent c2) + i) (poll_request c2 (domain_events_url c2 ev))
                            = Reply r \<and> pending_response r"
    and at: "srv (length (sent c2) + k) (poll_request c2 (domain_events_url c2 ev)) = Reply rf"
    and acc: "export_accepted rc ev c2"
  shows "except_return None (export_submitted srv p rc)
           = (Inr None, polled (Suc k) (2 * k) (domain_events_url c2 ev) c2)"
proof -
  from export_accepted_D [OF acc] obtain r where
    rc: "rc = (Inr (Some r), c2)" and ok: "ok_status r"
    and ev: "str_strip (resp_text r) = ev" "ev \<noteq> []" by blast
  have "0 + k < max_attempts" using k by (simp add: max_attempts_def)
  from export_poll_partial [where srv = srv and c = c2 and u = "domain_events_url c2 ev"
      and k = k and attempt = 0 and p = p and ev = ev, OF fail this pend at] obtain res where
    "export_poll srv p ev (domain_events_url c2 ev) 0 c2
       = (res, polled (Suc k) (2 * k) (domain_events_url c2 ev) c2)"
    and "res = Inr None \<or> (\<exists>e. res = Inl e)" by blast
  then show ?thesis
    by (auto simp add: export_submitted_def rc ok ev Let_def except_return_def)
qed


text \<open>
  C5. When a poll within the 30 attempts, after polls in non-terminal states, finds the
  domain event in state \<^verbatim>\<open>success\<close> with a non-empty list
  \<^verbatim>\<open>content.errors.not_exported\<close>, each export flow returns \<^verbatim>\<open>None\<close>, and the polls are
  the last requests it sends: nothing is downloaded, whatever else the export produced.
\<close>

theorem partial_export_fails:
  assumes fail: "partial_failure_response rf" and k: "k < 30"
    and pend: "\<forall>i<k. \<exists>r. srv (length (sent c2) + i) (poll_request c2 (domain_events_url c2 ev))
                            = Reply r \<and> pending_response r"
    and at: "srv (length (sent c2) + k) (poll_request c2 (domain_events_url c2 ev)) = Reply rf"
  shows
   "(test_connection srv c = (True, c1) \<and> py_int structure_id = Inr n \<and>
     export_accepted
       (request_with_retry srv POST (export_url c1) None
          (Some (JObj [(''structures_id'', JList [JNum (of_int n)])]))
          [(''output_format'', JStr ''structures-pdb-txt'')] c1) ev c2
     \<longrightarrow> export_structure_pdb srv structure_id c
           = (Inr None, polled (Suc k) (2 * k) (domain_events_url c2 ev) c2)) \<and>
    (is_authenticated srv c = (True, c1) \<and>
     export_accepted
       (request_with_retry srv POST (export_url c1) (Some (Bearer (token c1)))
          (Some (zip_payload structure_ids matrices))
          [(''output_format'', JStr ''structures-pdb-zip'')] c1) ev c2
     \<longrightarrow> download_structures_zip srv structure_ids matrices c
           = (Inr None, polled (Suc k) (2 * k) (domain_events_url c2 ev) c2)) \<and>
    (test_connection srv c = (True, c1) \<and> length items \<le> 1 \<and>
     single_payload items = Inr payload \<and>
     export_accepted
       (request_with_retry srv POST (export_url c1) None (Some payload)
          [(''output_format'', JStr ''structures-pdb-txt'')] c1) ev c2
     \<longrightarrow> export_structures_with_transforms srv open_zip decode items c
           = (Inr None, polled (Suc k) (2 * k) (domain_events_url c2 ev) c2)) \<and>
    (test_connection srv c = (True, c1) \<and> 1 < length items \<and>
     map_exn matrix_entry items = Inr ms \<and>
     map_exn (\<lambda>item. py_index_key item ''structure_id'') items = Inr ids \<and>
     export_accepted
       (request_with_retry srv POST (export_url c1) (Some (Bearer (token c1)))
          (Some (zip_payload (JList ids) (JList ms)))
          [(''output_format'', JStr ''structures-pdb-zip'')] c1) ev c2
     \<longrightarrow> export_structures_with_transforms srv open_zip decode items c
           = (Inr None, polled (Suc k) (2 * k) (domain_events_url c2 ev) c2))"
proof (intro conjI impI)
  assume a: "test_connection srv c = (True, c1) \<and> py_int structure_id = Inr n \<and>
     export_accepted
       (request_with_retry srv POST (export_url c1) None
          (Some (JObj [(''structures_id'', JList [JNum (of_int n)])]))
          [(''output_format'', JStr ''structures-pdb-txt'')] c1) ev c2"
  then show "export_structure_pdb srv structure_id c
           = (Inr None, polled (Suc k) (2 * k) (domain_events_url c2 ev) c2)"
    using export_submitted_partial [where srv = srv and ?c2.0 = c2 and ev = ev and k = k and p = resp_text, OF fail k pend at]
    by (simp add: export_structure_pdb_def export_structure_pdb_body_def)
next
  assume a: "is_authenticated srv c = (True, c1) \<and>
     export_accepted
       (request_with_retry srv POST (export_url c1) (Some (Bearer (token c1)))
          (Some (zip_payload structure_ids matrices))
          [(''output_format'', JStr ''structures-pdb-zip'')] c1) ev c2"
  then show "download_structures_zip srv structure_ids matrices c
           = (Inr None, polled (Suc k) (2 * k) (domain_events_url c2 ev) c2)"
    using export_submitted_partial [where srv = srv and ?c2.0 = c2 and ev = ev and k = k and p = resp_content, OF fail k pend at]
    by (simp add: download_structures_zip_def download_structures_zip_body_def)
next
  assume a: "test_connection srv c = (True, c1) \<and> length items \<le> 1 \<and>
     single_payload items = Inr payload \<and>
     export_accepted
       (request_with_retry srv POST (export_url c1) None (Some payload)
          [(''output_format'', JStr ''structures-pdb-txt'')] c1) ev c2"
  from a export_accepted_D obtain r where
    rc: "request_with_retry srv POST (export_url c1) None (Some payload)
          [(''output_format'', JStr ''structures-pdb-txt'')] c1 = (Inr (Some r), c2)"
    and ok: "ok_status r" and ev: "str_strip (resp_text r) = ev" "ev \<noteq> []" by blast
  have "0 + k < max_attempts" using k by (simp add: max_attempts_def)
  from batch_poll_partial [where srv = srv and c = c2 and u = "domain_events_url c2 ev"
      and k = k and attempt = 0 and items = items and ev = ev, OF fail this pend at]
  have "export_single srv items c1
          = (Inr None, polled (Suc k) (2 * k) (domain_events_url c2 ev) c2)"
    using a by (simp add: export_single_def rc ok ev Let_def)
  with a show "export_structures_with_transforms srv open_zip decode items c
           = (Inr None, polled (Suc k) (2 * k) (domain_events_url c2 ev) c2)"
    by (simp add: export_structures_with_transforms_def except_return_def)
next
  assume a: "test_connection srv c = (True, c1) \<and> 1 < length items \<and>
     map_exn matrix_entry items = Inr ms \<and>
     map_exn (\<lambda>item. py_index_key item ''structure_id'') items = Inr ids \<and>
     export_accepted
       (request_with_retry srv POST (export_url c1) (Some (Bearer (token c1)))
          (Some (zip_payload (JList ids) (JList ms)))
          [(''output_format'', JStr ''structures-pdb-zip'')] c1) ev c2"
  then have auth: "is_authenticated srv c1 = (True, c1)"
    using connected_again(2) by blast
  have "download_structures_zip srv (JList ids) (JList ms) c1
          = (Inr None, polled (Suc k) (2 * k) (domain_events_url c2 ev) c2)"
    using a auth export_submitted_partial [where srv = srv and ?c2.0 = c2 and ev = ev and k = k and p = resp_content, OF fail k pend at]
    by (simp add: download_structures_zip_def download_structures_zip_body_def)
  then have "export_zip srv open_zip decode items c1
          = (Inr None, polled (Suc k) (2 * k) (domain_events_url c2 ev) c2)"
    using a by (simp add: export_zip_def)
  with a show "export_structures_with_transforms srv open_zip decode items c
           = (Inr None, polled (Suc k) (2 * k) (domain_events_url c2 ev) c2)"
    by (simp add: export_structures_with_transforms_def except_return_def)
qed


lemma srv_partial_accepts:
  "export_accepted
     (request_with_retry srv_partial POST (export_url client0) None
        (Some (JObj [(''structures_id'', JList [JNum 101])]))
        [(''output_format'', JStr ''structures-pdb-txt'')] client0)
     ''ev1'' (client0\<lparr>sent := [pdb_request]\<rparr>)"
proof -
  have "request_with_retry srv_partial POST (export_url client0) None
        (Some (JObj [(''structures_id'', JList [JNum 101])]))
        [(''output_format'', JStr ''structures-pdb-txt'')] client0
      = (Inr (Some (resp 200 ''ev1'' None)), client0\<lparr>sent := sent client0 @ [pdb_request]\<rparr>)"
    unfolding pdb_request_def
    by (rule rwr_plain)
       (simp_all add: srv_partial_def srv_export_def first_request_def mk_request_def
          export_url_def client0_def fstr_def resp_def)
  moreover have "sent client0 = []" by (simp add: client0_def)
  ultimately show ?thesis
    by (simp add: export_accepted_def ok_status_def resp_def strip_ev1)
qed

lemma event_partial_fails: "partial_failure_response (resp 200 [] (Some event_partial))"
  by (simp add: partial_failure_response_def ok_status_def resp_def event_partial_def
      py_get_def export_errors_def)

lemma ev1_url:
  "domain_events_url (client0\<lparr>sent := [pdb_request]\<rparr>) ''ev1''
     = [S ''http://h'', S ''/domain-events/'', S ''ev1'']"
  by (simp add: domain_events_url_def client0_def fstr_def)

theorem partial_export_fails_witness:
  "partial_failure_response (resp 200 [] (Some event_partial)) \<and>
   test_connection srv_partial client0 = (True, client0) \<and>
   fst (export_structure_pdb srv_partial (JNum 101) client0) = Inr None \<and>
   sent (snd (export_structure_pdb srv_partial (JNum 101) client0))
     = [pdb_request, poll_ev1, poll_ev1]"
proof -
  let ?c2 = "client0\<lparr>sent := [pdb_request]\<rparr>"
  have pend: "\<forall>i<1. \<exists>r. srv_partial (length (sent ?c2) + i)
                (poll_request ?c2 (domain_events_url ?c2 ''ev1'')) = Reply r \<and> pending_response r"
    by (simp add: srv_partial_def pending_response_def ok_status_def resp_def event_pending_def
        py_get_def)
  have at: "srv_partial (length (sent ?c2) + 1) (poll_request ?c2 (domain_events_url ?c2 ''ev1''))
              = Reply (resp 200 [] (Some event_partial))"
    by (simp add: srv_partial_def srv_export_def ev1_url poll_request_def first_request_def
        mk_request_def)
  have i: "py_int (JNum 101) = Inr 101" by simp
  have k: "(1::nat) < 30" by simp
  from partial_export_fails [where srv = srv_partial and k = 1 and ?c2.0 = ?c2 and ev = "''ev1''"
      and c = client0 and ?c1.0 = client0 and structure_id = "JNum 101" and n = 101,
      OF event_partial_fails k pend at]
  have "export_structure_pdb srv_partial (JNum 101) client0
          = (Inr None, polled (Suc 1) (2 * 1) (domain_events_url ?c2 ''ev1'') ?c2)"
    using client0_connected [of srv_partial] i srv_partial_accepts
    by simp
  then show ?thesis
    using client0_connected [of srv_partial] event_partial_fails
    by (simp add: polled_def ev1_url poll_ev1_def numeral_2_eq_2)
qed


section \<open>Properties of the export with transforms\<close>

lemma extract_entries_distinct:
  "\<forall>f \<in> set fs. \<exists>t. entry_text ar decode f = Inr t \<Longrightarrow>
   distinct (map base_key fs) \<Longrightarrow> base_key ` set fs \<inter> fst ` set d = {} \<Longrightarrow>
   extract_entries ar decode fs d
     = Inr (d @ map (\<lambda>f. (base_key f, the_text ar decode f)) fs)"
proof (induction fs arbitrary: d)
  case Nil
  then show ?case by simp
next
  case (Cons f fs)
  from Cons.prems(1) obtain t where t: "entry_text ar decode f = Inr t" by auto
  then obtain raw where raw: "zread ar f = Inr raw" "decode raw = Inr t"
    by (auto simp add: entry_text_def split: sum.splits)
  have tt: "the_text ar decode f = t" using t by (simp add: the_text_def)
  have nf: "base_key f \<notin> fst ` set d" using Cons.prems(3) by auto
  have up: "AList.update (base_key f) t d = d @ [(base_key f, t)]"
    using nf by (induction d) auto
  have a: "\<forall>g \<in> set fs. \<exists>t. entry_text ar decode g = Inr t" using Cons.prems(1) by simp
  have b: "distinct (map base_key fs)" using Cons.prems(2) by simp
  have c: "base_key ` set fs \<inter> fst ` set (d @ [(base_key f, t)]) = {}"
    using Cons.prems(2,3) by auto
  show ?case
    using Cons.IH [OF a b c] raw up tt
    by (simp add: base_key_def)
qed

lemma extract_entries_nonempty:
  "extract_entries ar decode fs d = Inr r \<Longrightarrow> fs \<noteq> [] \<or> d \<noteq> [] \<Longrightarrow> r \<noteq> []"
proof (induction fs arbitrary: d)
  case Nil
  then show ?case by simp
next
  case (Cons f fs)
  from Cons.prems(1) obtain raw t where
    "zread ar f = Inr raw" "decode raw = Inr t"
    and e: "extract_entries ar decode fs (AList.update [S (split_last CHR ''/'' f)] t d) = Inr r"
    by (auto split: sum.splits)
  have "AList.update [S (split_last CHR ''/'' f)] t d \<noteq> []"
    by (cases d) auto
  with Cons.IH [OF e] show ?case by simp
qed


lemma extract_entries_unreadable:
  "f \<in> set fs \<Longrightarrow> entry_text ar decode f = Inl e \<Longrightarrow>
   \<exists>e'. extract_entries ar decode fs d = Inl e'"
proof (induction fs arbitrary: d)
  case Nil
  then show ?case by simp
next
  case (Cons g fs)
  show ?case
  proof (cases "entry_text ar decode g")
    case (Inl e')
    then show ?thesis by (auto simp add: entry_text_def split: sum.splits)
  next
    case (Inr t)
    with Cons.prems have "f \<in> set fs" by auto
    from Cons.IH [OF this Cons.prems(2)] Inr show ?thesis
      by (auto simp add: entry_text_def split: sum.splits)
  qed
qed

lemma extract_entries_readable:
  "\<forall>f \<in> set fs. \<exists>t. entry_text ar decode f = Inr t \<Longrightarrow>
   extract_entries ar decode fs d
     = Inr (foldl (\<lambda>d f. AList.update (base_key f) (the_text ar decode f) d) d fs)"
proof (induction fs arbitrary: d)
  case Nil
  then show ?case by simp
next
  case (Cons f fs)
  from Cons.prems obtain t where t: "entry_text ar decode f = Inr t" by auto
  then obtain raw where raw: "zread ar f = Inr raw" "decode raw = Inr t"
    by (auto simp add: entry_text_def split: sum.splits)
  have tt: "the_text ar decode f = t" using t by (simp add: the_text_def)
  have a: "\<forall>g \<in> set fs. \<exists>t. entry_text ar decode g = Inr t" using Cons.prems by simp
  show ?case
    using Cons.IH [OF a, of "AList.update (base_key f) t d"] raw tt
    by (simp add: base_key_def)
qed

lemma map_of_foldl_update:
  "map_of (foldl (\<lambda>d f. AList.update (k f) (v f) d) d fs)
     = map_of (rev (map (\<lambda>f. (k f, v f)) fs) @ d)"
proof (induction fs arbitrary: d)
  case Nil
  then show ?case by simp
next
  case (Cons f fs)
  have "map_of (foldl (\<lambda>d f. AList.update (k f) (v f) d) d (f # fs))
          = map_of (rev (map (\<lambda>f. (k f, v f)) fs) @ AList.update (k f) (v f) d)"
    using Cons.IH [of "AList.update (k f) (v f) d"] by simp
  also have "\<dots> = map_of (AList.update (k f) (v f) d) ++ map_of (rev (map (\<lambda>f. (k f, v f)) fs))"
    by (simp only: map_of_append)
  also have "map_of (AList.update (k f) (v f) d) = map_of ((k f, v f) # d)"
    by (simp add: update_conv')
  also have "map_of ((k f, v f) # d) ++ map_of (rev (map (\<lambda>f. (k f, v f)) fs))
               = map_of (rev (map (\<lambda>f. (k f, v f)) fs) @ (k f, v f) # d)"
    by (simp only: map_of_append)
  finally show ?case by simp
qed

lemma distinct_foldl_update:
  "distinct (map fst d) \<Longrightarrow>
   distinct (map fst (foldl (\<lambda>d f. AList.update (k f) (v f) d) d fs))"
  by (induction fs arbitrary: d) (simp_all add: distinct_update)

lemma keys_foldl_update:
  "fst ` set (foldl (\<lambda>d f. AList.update (k f) (v f) d) d fs) = k ` set fs \<union> fst ` set d"
proof -
  have "fst ` set (foldl (\<lambda>d f. AList.update (k f) (v f) d) d fs)
          = dom (map_of (foldl (\<lambda>d f. AList.update (k f) (v f) d) d fs))"
    by (simp only: dom_map_of_conv_image_fst)
  also have "\<dots> = dom (map_of (rev (map (\<lambda>f. (k f, v f)) fs) @ d))"
    by (simp only: map_of_foldl_update)
  also have "\<dots> = fst ` set (rev (map (\<lambda>f. (k f, v f)) fs) @ d)"
    by (simp only: dom_map_of_conv_image_fst)
  also have "\<dots> = k ` set fs \<union> fst ` set d"
    by (simp add: image_Un image_image)
  finally show ?thesis .
qed

lemma length_foldl_update:
  "length (foldl (\<lambda>d f. AList.update (k f) (v f) d) [] fs) = card (k ` set fs)"
proof -
  let ?m = "foldl (\<lambda>d f. AList.update (k f) (v f) d) [] fs"
  have "distinct (map fst ?m)" by (rule distinct_foldl_update) simp
  then have "card (set (map fst ?m)) = length (map fst ?m)" by (rule distinct_card)
  moreover have "set (map fst ?m) = k ` set fs"
    using keys_foldl_update [of k v "[]" fs] by simp
  ultimately show ?thesis by simp
qed

lemma export_zip_path:
  assumes "test_connection srv c = (True, c1)" "1 < length items"
    and "map_exn matrix_entry items = Inr ms"
    and "map_exn (\<lambda>item. py_index_key item ''structure_id'') items = Inr ids"
    and "download_structures_zip srv (JList ids) (JList ms) c1 = (Inr (Some z), c2)"
  shows "export_structures_with_transforms srv open_zip decode items c
           = (Inr (if z = [] then None else extract_pdb_files open_zip decode z), c2)"
  using assms
  by (simp add: export_structures_with_transforms_def export_zip_def except_return_def)

text \<open>
  C6. With two or more requests, once the ZIP export has been downloaded: when the archive
  opens, has at least one entry ending in \<^verbatim>\<open>.pdb\<close> and every such entry is read and
  decoded, the operation returns a mapping keyed by the path-stripped names of these
  entries, in which a name stands for the content of the last entry of that name. The
  mapping has one pair per different path-stripped name: as many pairs as entries exactly
  when these names are pairwise distinct, and then the pairs are those of the entries, in
  archive order. When the content is empty, the archive does not open, has no such entry,
  or one of them cannot be read or decoded, it returns \<^verbatim>\<open>None\<close>. It never returns an
  empty mapping.
\<close>

theorem zip_export_mapping:
  assumes "test_connection srv c = (True, c1)" "1 < length items"
    and "map_exn matrix_entry items = Inr ms"
    and "map_exn (\<lambda>item. py_index_key item ''structure_id'') items = Inr ids"
    and "download_structures_zip srv (JList ids) (JList ms) c1 = (Inr (Some z), c2)"
  shows
    "(z \<noteq> [] \<and> open_zip z = Inr ar \<and> pdb_names ar \<noteq> [] \<and>
      (\<forall>f \<in> set (pdb_names ar). \<exists>t. entry_text ar decode f = Inr t)
      \<longrightarrow> (\<exists>m. fst (export_structures_with_transforms srv open_zip decode items c)
                  = Inr (Some m) \<and>
                distinct (map fst m) \<and>
                map_of m
                  = map_of (rev (map (\<lambda>f. (base_key f, the_text ar decode f)) (pdb_names ar))) \<and>
                length m = card (base_key ` set (pdb_names ar)) \<and>
                (length m = length (pdb_names ar) \<longleftrightarrow> distinct (map base_key (pdb_names ar))) \<and>
                (distinct (map base_key (pdb_names ar)) \<longrightarrow>
                   m = map (\<lambda>f. (base_key f, the_text ar decode f)) (pdb_names ar)))) \<and>
     (z = [] \<or> (\<exists>e. open_zip z = Inl e) \<or>
      (\<exists>a. open_zip z = Inr a \<and>
           (pdb_names a = [] \<or> (\<exists>f \<in> set (pdb_names a). \<exists>e. entry_text a decode f = Inl e)))
      \<longrightarrow> fst (export_structures_with_transforms srv open_zip decode items c) = Inr None) \<and>
     fst (export_structures_with_transforms srv open_zip decode items c) \<noteq> Inr (Some [])"
proof -
  note p = export_zip_path [OF assms, of open_zip decode]
  define names where "names = pdb_names ar"
  define pairs where "pairs = map (\<lambda>f. (base_key f, the_text ar decode f)) names"
  define m where "m = foldl (\<lambda>d f. AList.update (base_key f) (the_text ar decode f) d) [] names"
  have a: "\<exists>m. fst (export_structures_with_transforms srv open_zip decode items c)
                  = Inr (Some m) \<and>
                distinct (map fst m) \<and>
                map_of m
                  = map_of (rev (map (\<lambda>f. (base_key f, the_text ar decode f)) (pdb_names ar))) \<and>
                length m = card (base_key ` set (pdb_names ar)) \<and>
                (length m = length (pdb_names ar) \<longleftrightarrow> distinct (map base_key (pdb_names ar))) \<and>
                (distinct (map base_key (pdb_names ar)) \<longrightarrow>
                   m = map (\<lambda>f. (base_key f, the_text ar decode f)) (pdb_names ar))"
    if h: "z \<noteq> [] \<and> open_zip z = Inr ar \<and> pdb_names ar \<noteq> [] \<and>
      (\<forall>f \<in> set (pdb_names ar). \<exists>t. entry_text ar decode f = Inr t)"
  proof -
    from h have z: "z \<noteq> []" and o: "open_zip z = Inr ar" and nn: "names \<noteq> []"
      and rd: "\<forall>f \<in> set names. \<exists>t. entry_text ar decode f = Inr t"
      unfolding names_def by blast+
    have e: "extract_entries ar decode names [] = Inr m"
      unfolding m_def by (rule extract_entries_readable [OF rd])
    have len: "length m = card (base_key ` set names)"
      unfolding m_def by (rule length_foldl_update)
    have ks: "fst ` set m = base_key ` set names"
      unfolding m_def using keys_foldl_update [of base_key "the_text ar decode" "[]" names]
      by simp
    from nn obtain f where "f \<in> set names" by (cases names) auto
    then have "base_key f \<in> fst ` set m" unfolding ks by (rule imageI)
    then have ne: "m \<noteq> []" by auto
    have "extract_pdb_files open_zip decode z = Some m"
      using o e ne by (simp add: extract_pdb_files_def names_def)
    then have r: "fst (export_structures_with_transforms srv open_zip decode items c)
                    = Inr (Some m)"
      using z by (simp add: p)
    have d: "distinct (map fst m)"
      unfolding m_def by (rule distinct_foldl_update) simp
    have mo: "map_of m = map_of (rev pairs)"
      unfolding m_def pairs_def
      using map_of_foldl_update [of base_key "the_text ar decode" "[]" names] by simp
    have len': "length m = card (set (map base_key names))"
      using len by (simp only: set_map)
    have i: "length m = length names \<longleftrightarrow> distinct (map base_key names)"
    proof
      assume eq: "length m = length names"
      have "card (set (map base_key names)) = length names"
        by (rule trans [OF sym [OF len'] eq])
      then have "card (set (map base_key names)) = length (map base_key names)"
        by (simp only: length_map)
      then show "distinct (map base_key names)" by (rule card_distinct)
    next
      assume "distinct (map base_key names)"
      then have "card (set (map base_key names)) = length (map base_key names)"
        by (rule distinct_card)
      then have "card (set (map base_key names)) = length names"
        by (simp only: length_map)
      with len' show "length m = length names" by (rule trans)
    qed
    have x: "m = pairs" if ds: "distinct (map base_key names)"
    proof -
      have "extract_entries ar decode names []
              = Inr ([] @ map (\<lambda>f. (base_key f, the_text ar decode f)) names)"
        by (rule extract_entries_distinct) (use rd ds in simp_all)
      with e show ?thesis by (simp add: pairs_def)
    qed
    have "fst (export_structures_with_transforms srv open_zip decode items c) = Inr (Some m) \<and>
          distinct (map fst m) \<and> map_of m = map_of (rev pairs) \<and>
          length m = card (base_key ` set names) \<and>
          (length m = length names \<longleftrightarrow> distinct (map base_key names)) \<and>
          (distinct (map base_key names) \<longrightarrow> m = pairs)"
      using r d mo len i x by blast
    then show ?thesis unfolding pairs_def names_def by (rule exI)
  qed
  have b: "fst (export_structures_with_transforms srv open_zip decode items c) = Inr None"
    if h: "z = [] \<or> (\<exists>e. open_zip z = Inl e) \<or>
      (\<exists>a. open_zip z = Inr a \<and>
           (pdb_names a = [] \<or> (\<exists>f \<in> set (pdb_names a). \<exists>e. entry_text a decode f = Inl e)))"
  proof -
    consider "z = []" | e where "open_zip z = Inl e"
      | a where "open_zip z = Inr a" "pdb_names a = []"
      | a f e where "open_zip z = Inr a" "f \<in> set (pdb_names a)" "entry_text a decode f = Inl e"
      using h by blast
    then show ?thesis
    proof cases
      case 1
      then show ?thesis by (simp add: p)
    next
      case 2
      then show ?thesis by (simp add: p extract_pdb_files_def)
    next
      case 3
      then show ?thesis by (simp add: p extract_pdb_files_def)
    next
      case 4
      from extract_entries_unreadable [OF 4(2,3), of "[]"] 4(1) show ?thesis
        by (auto simp add: p extract_pdb_files_def)
    qed
  qed
  have c: "fst (export_structures_with_transforms srv open_zip decode items c) \<noteq> Inr (Some [])"
    by (simp add: p extract_pdb_files_def split: sum.splits)
  show ?thesis
    by (intro conjI impI) (erule a, erule b, rule c)
qed

lemma client0_urls:
  "domain_events_url (client0\<lparr>sent := xs\<rparr>) e = [S ''http://h'', S ''/domain-events/'', S e]"
  "download_url (client0\<lparr>sent := xs\<rparr>) e f = [S ''http://h'', S ''/exports/structure/'', S e,
      S ''?filename='', V f, S ''&download=true'']"
  "export_url client0 = [S ''http://h'', S ''/exports/structure'']"
  by (simp_all add: domain_events_url_def download_url_def export_url_def client0_def fstr_def)

lemma rwr_srv_zip:
  assumes "m = GET \<or> m = POST"
  shows "\<exists>xs. request_with_retry srv_zip m url hauth jd params (client0\<lparr>sent := ys\<rparr>)
           = (Inr (Some (if url = [S ''http://h'', S ''/exports/structure'']
                         then resp 200 ''ev1'' None
                         else if url = [S ''http://h'', S ''/domain-events/'', S ''ev1'']
                         then resp 200 [] (Some event_zip_ready)
                         else resp 200 ''PKzip'' None)), client0\<lparr>sent := xs\<rparr>)"
proof -
  let ?c = "client0\<lparr>sent := ys\<rparr>"
  let ?r = "if url = [S ''http://h'', S ''/exports/structure'']
            then resp 200 ''ev1'' None
            else if url = [S ''http://h'', S ''/domain-events/'', S ''ev1'']
            then resp 200 [] (Some event_zip_ready)
            else resp 200 ''PKzip'' None"
  have q: "req_url (first_request ?c m url hauth jd params) = url"
    by (simp add: first_request_def mk_request_def)
  have "srv_zip (length (sent ?c)) (first_request ?c m url hauth jd params) = Reply ?r"
    by (simp add: srv_zip_def q)
  moreover have "status_code ?r \<noteq> 401" "status_code ?r \<noteq> 403"
    by (simp_all add: resp_def)
  ultimately have "request_with_retry srv_zip m url hauth jd params ?c
      = (Inr (Some ?r), ?c\<lparr>sent := sent ?c @ [first_request ?c m url hauth jd params]\<rparr>)"
    using assms by (rule rwr_plain [rotated])
  hence "request_with_retry srv_zip m url hauth jd params ?c
      = (Inr (Some ?r), client0\<lparr>sent := ys @ [first_request ?c m url hauth jd params]\<rparr>)"
    by simp
  thus ?thesis by blast
qed

lemma download_zip_srv_zip:
  "\<exists>xs. download_structures_zip srv_zip ids ms client0
           = (Inr (Some ''PKzip''), client0\<lparr>sent := xs\<rparr>)"
proof -
  let ?srv = srv_zip
  have c0: "client0\<lparr>sent := []\<rparr> = client0" by (simp add: client0_def)
  obtain x1 where r0:
    "request_with_retry ?srv POST (export_url client0) (Some (Bearer (token client0)))
       (Some (zip_payload ids ms)) [(''output_format'', JStr ''structures-pdb-zip'')] client0
     = (Inr (Some (resp 200 ''ev1'' None)), client0\<lparr>sent := x1\<rparr>)"
    using rwr_srv_zip [of POST "export_url client0" "Some (Bearer (token client0))"
        "Some (zip_payload ids ms)" "[(''output_format'', JStr ''structures-pdb-zip'')]" "[]"]
    by (auto simp add: c0 client0_urls)
  let ?c1 = "client0\<lparr>sent := x1\<rparr>"
  let ?u = "domain_events_url ?c1 ''ev1''"
  obtain x2 where r1:
    "request_with_retry ?srv GET ?u None None [] ?c1
     = (Inr (Some (resp 200 [] (Some event_zip_ready))), client0\<lparr>sent := x2\<rparr>)"
    using rwr_srv_zip [of GET ?u None None "[]" x1]
    by (auto simp add: client0_urls)
  let ?c2 = "client0\<lparr>sent := x2\<rparr>"
  have ee: "export_errors event_zip_ready
              = Inr (JObj [(''file_names'', JList [JObj [(''file_name'', JStr ''export.zip'')]])],
                     JList [])"
    by (simp add: export_errors_def event_zip_ready_def)
  have se: "strip_extension (JStr ''export.zip'') = Inr (JStr ''export'')"
    by (simp add: strip_extension_def rsplit_head_def)
  have fn: "export_file_name (JObj [(''file_names'', JList [JObj [(''file_name'', JStr ''export.zip'')]])])
              = Inr (Some (JStr ''export''))"
    by (simp add: export_file_name_def py_get_def se)
  let ?d = "download_url ?c2 ''ev1'' (JStr ''export'')"
  obtain x3 where r2:
    "request_with_retry ?srv GET ?d None None [] ?c2
     = (Inr (Some (resp 200 ''PKzip'' None)), client0\<lparr>sent := x3\<rparr>)"
    using rwr_srv_zip [of GET ?d None None "[]" x2]
    by (auto simp add: client0_urls)
  let ?c3 = "client0\<lparr>sent := x3\<rparr>"
  have ok: "ok_status (resp 200 t js)" for t js by (simp add: ok_status_def resp_def)
  have es: "export_success ?srv resp_content ''ev1'' event_zip_ready ?c2
              = (Inr (Some ''PKzip''), ?c3)"
    by (simp add: export_success_def ee fn r2 ok) (simp add: resp_def)
  have st: "py_get event_zip_ready ''state'' = Inr (JStr ''success'')"
    by (simp add: event_zip_ready_def py_get_def)
  have ep: "export_poll ?srv resp_content ''ev1'' ?u 0 ?c1 = (Inr (Some ''PKzip''), ?c3)"
    by (subst export_poll.simps) (simp add: max_attempts_def r1 ok st es, simp add: resp_def st es)
  have sub: "export_submitted ?srv resp_content
               (Inr (Some (resp 200 ''ev1'' None)), ?c1) = (Inr (Some ''PKzip''), ?c3)"
    using ep by (simp add: export_submitted_def ok Let_def) (simp add: resp_def strip_ev1)
  have au: "is_authenticated ?srv client0 = (True, client0)"
    using client0_connected [of ?srv]
    by (simp add: is_authenticated_def test_connection_def split: if_splits)
  have "download_structures_zip ?srv ids ms client0 = (Inr (Some ''PKzip''), ?c3)"
    by (simp add: download_structures_zip_def au download_structures_zip_body_def r0 sub
        except_return_def)
  thus ?thesis by blast
qed


lemma two_items_payload:
  "map_exn matrix_entry two_items
     = Inr [JObj [(''external_code'', JStr ''1abc''), (''structure_id'', JNum 101),
                  (''transform'', JList identity_matrix)],
            JObj [(''external_code'', JStr ''2xyz''), (''structure_id'', JNum 102),
                  (''transform'', JList identity_matrix)]]"
  "map_exn (\<lambda>item. py_index_key item ''structure_id'') two_items = Inr [JNum 101, JNum 102]"
  by (simp_all add: two_items_def item_def matrix_entry_def)

lemma pdb_names_distinct_archive:
  "pdb_names (archive_of [(''out/1abc.pdb'', ''ATOM 1''), (''out/readme.txt'', ''hello''),
                          (''out/2xyz.pdb'', ''ATOM 2'')])
     = [''out/1abc.pdb'', ''out/2xyz.pdb'']"
  by (simp add: pdb_names_def archive_of_def endswith_def)

lemma base_key_examples:
  "base_key ''out/1abc.pdb'' = [S ''1abc.pdb'']"
  "base_key ''out/2xyz.pdb'' = [S ''2xyz.pdb'']"
  "base_key ''a/x.pdb'' = [S ''x.pdb'']"
  "base_key ''b/x.pdb'' = [S ''x.pdb'']"
  by (simp_all add: base_key_def split_last_def)

theorem zip_export_mapping_witness:
  "test_connection srv_zip client0 = (True, client0) \<and> 1 < length two_items \<and>
   (\<exists>ar. unzip_distinct ''PKzip'' = Inr ar \<and>
         pdb_names ar = [''out/1abc.pdb'', ''out/2xyz.pdb'']) \<and>
   fst (export_structures_with_transforms srv_zip unzip_distinct decode_ascii two_items client0)
     = Inr (Some [([S ''1abc.pdb''], ''ATOM 1''), ([S ''2xyz.pdb''], ''ATOM 2'')])"
proof -
  let ?ar = "archive_of [(''out/1abc.pdb'', ''ATOM 1''), (''out/readme.txt'', ''hello''),
                         (''out/2xyz.pdb'', ''ATOM 2'')]"
  obtain xs where d: "download_structures_zip srv_zip (JList [JNum 101, JNum 102])
                        (JList [JObj [(''external_code'', JStr ''1abc''), (''structure_id'', JNum 101),
                                      (''transform'', JList identity_matrix)],
                                JObj [(''external_code'', JStr ''2xyz''), (''structure_id'', JNum 102),
                                      (''transform'', JList identity_matrix)]]) client0
                      = (Inr (Some ''PKzip''), client0\<lparr>sent := xs\<rparr>)"
    using download_zip_srv_zip by blast
  have l: "1 < length two_items" by (simp add: two_items_def)
  have t: "entry_text ?ar decode_ascii ''out/1abc.pdb'' = Inr ''ATOM 1''"
      "entry_text ?ar decode_ascii ''out/2xyz.pdb'' = Inr ''ATOM 2''"
    by (simp_all add: entry_text_def archive_of_def decode_ascii_def)
  have tt: "the_text ?ar decode_ascii ''out/1abc.pdb'' = ''ATOM 1''"
      "the_text ?ar decode_ascii ''out/2xyz.pdb'' = ''ATOM 2''"
    by (simp_all add: the_text_def t)
  have o: "unzip_distinct ''PKzip'' = Inr ?ar" by (simp add: unzip_distinct_def)
  have h: "''PKzip'' \<noteq> [] \<and> unzip_distinct ''PKzip'' = Inr ?ar \<and> pdb_names ?ar \<noteq> [] \<and>
      (\<forall>f \<in> set (pdb_names ?ar). \<exists>t. entry_text ?ar decode_ascii f = Inr t)"
    by (simp add: o pdb_names_distinct_archive t)
  have ds: "distinct (map base_key (pdb_names ?ar))"
    by (simp add: pdb_names_distinct_archive base_key_examples)
  from zip_export_mapping [OF client0_connected l two_items_payload d,
      of unzip_distinct ?ar decode_ascii] h ds
  have "fst (export_structures_with_transforms srv_zip unzip_distinct decode_ascii two_items
               client0)
          = Inr (Some (map (\<lambda>f. (base_key f, the_text ?ar decode_ascii f)) (pdb_names ?ar)))"
    by blast
  then show ?thesis
    using client0_connected [of srv_zip] l o
    by (simp add: pdb_names_distinct_archive base_key_examples tt)
qed

theorem same_name_entries_collide_counterexample:
  "(\<exists>ar. unzip_same_name ''PKzip'' = Inr ar \<and> pdb_names ar = [''a/x.pdb'', ''b/x.pdb'']) \<and>
   fst (export_structures_with_transforms srv_zip unzip_same_name decode_ascii two_items client0)
     = Inr (Some [([S ''x.pdb''], ''ATOM 2'')])"
proof -
  let ?ar = "archive_of [(''a/x.pdb'', ''ATOM 1''), (''b/x.pdb'', ''ATOM 2'')]"
  obtain xs where d: "download_structures_zip srv_zip (JList [JNum 101, JNum 102])
                        (JList [JObj [(''external_code'', JStr ''1abc''), (''structure_id'', JNum 101),
                                      (''transform'', JList identity_matrix)],
                                JObj [(''external_code'', JStr ''2xyz''), (''structure_id'', JNum 102),
                                      (''transform'', JList identity_matrix)]]) client0
                      = (Inr (Some ''PKzip''), client0\<lparr>sent := xs\<rparr>)"
    using download_zip_srv_zip by blast
  have l: "1 < length two_items" by (simp add: two_items_def)
  have n: "pdb_names ?ar = [''a/x.pdb'', ''b/x.pdb'']"
    by (simp add: pdb_names_def archive_of_def endswith_def)
  have o: "unzip_same_name ''PKzip'' = Inr ?ar" by (simp add: unzip_same_name_def)
  have z: "zread ?ar ''a/x.pdb'' = Inr ''ATOM 1''" "zread ?ar ''b/x.pdb'' = Inr ''ATOM 2''"
    by (simp_all add: archive_of_def)
  have k: "split_last CHR ''/'' ''a/x.pdb'' = ''x.pdb''" "split_last CHR ''/'' ''b/x.pdb'' = ''x.pdb''"
    by (simp_all add: split_last_def)
  have e: "extract_pdb_files unzip_same_name decode_ascii ''PKzip''
             = Some [([S ''x.pdb''], ''ATOM 2'')]"
    by (simp add: extract_pdb_files_def o n z k decode_ascii_def)
  from export_zip_path [OF client0_connected l two_items_payload d, of unzip_same_name decode_ascii]
  show ?thesis using o n by (simp add: e)
qed

section \<open>How failures reach the caller\<close>


lemma except_return_fst:
  "fst (except_return d rc) = (case fst rc of Inl e \<Rightarrow> Inr d | Inr v \<Rightarrow> Inr v)"
  by (simp add: except_return_def split: prod.splits sum.splits)




subsection \<open>The catalog operations raise\<close>







subsection \<open>The other operations do not raise\<close>





subsection \<open>The other operations return nothing on failure\<close>























end
